(* ===== verification/Prelude.thy ===== *)
theory Prelude
  imports Main "HOL-Library.State_Monad" "HOL-Library.Char_ord"
    "HOL-Library.List_Lexorder" "HOL-Library.Product_Lexorder"
begin

text \<open>
  Shared vocabulary of the development.

  Go code that reads the clock, draws entropy, runs SQL and answers HTTP requests is modelled
  in the state monad of \<^verbatim>\<open>HOL-Library.State_Monad\<close>: a Go call
  \<^verbatim>\<open>x, err := f(...)\<close> is a program of type \<open>('s, goerr + 'a) state\<close>, and the
  \<^verbatim>\<open>if err != nil\<close> that follows it is a \<open>case\<close> on the sum. This theory holds the
  generic reasoning about such programs: three judgements (a program preserves a predicate,
  keeps a field, satisfies a triple), their structural rules, collected in
  \<open>pres_rules\<close>, \<open>keep_rules\<close> and \<open>triple_rules\<close>, and the facts on lists that the table
  model shares.
\<close>

named_theorems pres_rules and keep_rules and triple_rules and run_simps

section \<open>Judgements on stateful programs\<close>

text \<open>\<open>preserves I m\<close>: whatever \<open>m\<close> returns, a state satisfying \<open>I\<close> leads to one that does.\<close>

definition preserves :: "('s \<Rightarrow> bool) \<Rightarrow> ('s, 'a) state \<Rightarrow> bool" where
  "preserves I m \<longleftrightarrow> (\<forall>s. I s \<longrightarrow> I (snd (run_state m s)))"

text \<open>\<open>keeps f m\<close>: the observation \<open>f\<close> of the state is the same before and after \<open>m\<close>.\<close>

definition keeps :: "('s \<Rightarrow> 'b) \<Rightarrow> ('s, 'a) state \<Rightarrow> bool" where
  "keeps f m \<longleftrightarrow> (\<forall>s. f (snd (run_state m s)) = f s)"

text \<open>\<open>triple P m Q\<close>: from a state in \<open>P\<close>, the result and the final state satisfy \<open>Q\<close>.
  Every program of the model is total, so this is total correctness.\<close>

definition triple :: "('s \<Rightarrow> bool) \<Rightarrow> ('s, 'a) state \<Rightarrow> ('a \<Rightarrow> 's \<Rightarrow> bool) \<Rightarrow> bool" where
  "triple P m Q \<longleftrightarrow> (\<forall>s. P s \<longrightarrow> Q (fst (run_state m s)) (snd (run_state m s)))"

lemma preservesI: "(\<And>s. I s \<Longrightarrow> I (snd (run_state m s))) \<Longrightarrow> preserves I m"
  by (simp add: preserves_def)

lemma preservesD: "preserves I m \<Longrightarrow> I s \<Longrightarrow> I (snd (run_state m s))"
  by (simp add: preserves_def)

lemma keepsI: "(\<And>s. f (snd (run_state m s)) = f s) \<Longrightarrow> keeps f m"
  by (simp add: keeps_def)

lemma keepsD: "keeps f m \<Longrightarrow> f (snd (run_state m s)) = f s"
  by (simp add: keeps_def)

lemma tripleI: "(\<And>s. P s \<Longrightarrow> Q (fst (run_state m s)) (snd (run_state m s))) \<Longrightarrow> triple P m Q"
  by (simp add: triple_def)

lemma tripleD: "triple P m Q \<Longrightarrow> P s \<Longrightarrow> run_state m s = (r, s') \<Longrightarrow> Q r s'"
  by (fastforce simp: triple_def)

text \<open>A program that keeps \<open>f\<close> preserves every predicate on \<open>f\<close> alone.\<close>

lemma keeps_preserves: "keeps f m \<Longrightarrow> preserves (\<lambda>s. I (f s)) m"
  by (simp add: keeps_def preserves_def)

lemma preserves_triple: "preserves I m \<longleftrightarrow> triple I m (\<lambda>_. I)"
  by (simp add: preserves_def triple_def)

section \<open>Structural rules\<close>

lemma preserves_return [pres_rules]: "preserves I (State_Monad.return x)"
  by (simp add: preserves_def)

lemma preserves_get [pres_rules]: "preserves I State_Monad.get"
  by (simp add: preserves_def)

lemma preserves_bind [pres_rules]:
  "preserves I m \<Longrightarrow> (\<And>x. preserves I (f x)) \<Longrightarrow> preserves I (m \<bind> f)"
  by (simp add: preserves_def split: prod.split) (metis snd_conv)

lemma preserves_if [pres_rules]:
  "(b \<Longrightarrow> preserves I m) \<Longrightarrow> (\<not> b \<Longrightarrow> preserves I n) \<Longrightarrow> preserves I (if b then m else n)"
  by simp

lemma preserves_case_sum [pres_rules]:
  "(\<And>e. r = Inl e \<Longrightarrow> preserves I (f e)) \<Longrightarrow> (\<And>x. r = Inr x \<Longrightarrow> preserves I (g x)) \<Longrightarrow>
   preserves I (case r of Inl e \<Rightarrow> f e | Inr x \<Rightarrow> g x)"
  by (simp split: sum.split)

lemma preserves_case_option [pres_rules]:
  "(r = None \<Longrightarrow> preserves I m) \<Longrightarrow> (\<And>x. r = Some x \<Longrightarrow> preserves I (g x)) \<Longrightarrow>
   preserves I (case r of None \<Rightarrow> m | Some x \<Rightarrow> g x)"
  by (simp split: option.split)

lemma preserves_case_prod [pres_rules]:
  "(\<And>x y. r = (x, y) \<Longrightarrow> preserves I (f x y)) \<Longrightarrow> preserves I (case r of (x, y) \<Rightarrow> f x y)"
  by (simp split: prod.split)

lemma preserves_Let [pres_rules]: "(\<And>x. x = e \<Longrightarrow> preserves I (f x)) \<Longrightarrow> preserves I (Let e f)"
  by (simp add: Let_def)

lemma keeps_return [keep_rules]: "keeps f (State_Monad.return x)"
  by (simp add: keeps_def)

lemma keeps_get [keep_rules]: "keeps f State_Monad.get"
  by (simp add: keeps_def)

lemma keeps_bind [keep_rules]:
  "keeps f m \<Longrightarrow> (\<And>x. keeps f (k x)) \<Longrightarrow> keeps f (m \<bind> k)"
  by (simp add: keeps_def split: prod.split) (metis snd_conv)

lemma keeps_if [keep_rules]:
  "(b \<Longrightarrow> keeps f m) \<Longrightarrow> (\<not> b \<Longrightarrow> keeps f n) \<Longrightarrow> keeps f (if b then m else n)"
  by simp

lemma keeps_case_sum [keep_rules]:
  "(\<And>e. r = Inl e \<Longrightarrow> keeps f (k e)) \<Longrightarrow> (\<And>x. r = Inr x \<Longrightarrow> keeps f (g x)) \<Longrightarrow>
   keeps f (case r of Inl e \<Rightarrow> k e | Inr x \<Rightarrow> g x)"
  by (simp split: sum.split)

lemma keeps_case_option [keep_rules]:
  "(r = None \<Longrightarrow> keeps f m) \<Longrightarrow> (\<And>x. r = Some x \<Longrightarrow> keeps f (g x)) \<Longrightarrow>
   keeps f (case r of None \<Rightarrow> m | Some x \<Rightarrow> g x)"
  by (simp split: option.split)

lemma keeps_case_prod [keep_rules]:
  "(\<And>x y. r = (x, y) \<Longrightarrow> keeps f (k x y)) \<Longrightarrow> keeps f (case r of (x, y) \<Rightarrow> k x y)"
  by (simp split: prod.split)

lemma keeps_Let [keep_rules]: "(\<And>x. x = e \<Longrightarrow> keeps f (k x)) \<Longrightarrow> keeps f (Let e k)"
  by (simp add: Let_def)

lemma triple_return [triple_rules]: "(\<And>s. P s \<Longrightarrow> Q x s) \<Longrightarrow> triple P (State_Monad.return x) Q"
  by (simp add: triple_def)

lemma triple_bind:
  "triple P m R \<Longrightarrow> (\<And>x. triple (R x) (f x) Q) \<Longrightarrow> triple P (m \<bind> f) Q"
  by (simp add: triple_def split: prod.split) (metis fst_conv snd_conv)

lemma triple_conseq:
  "triple P' m Q' \<Longrightarrow> (\<And>s. P s \<Longrightarrow> P' s) \<Longrightarrow> (\<And>r s. Q' r s \<Longrightarrow> Q r s) \<Longrightarrow> triple P m Q"
  by (simp add: triple_def)

lemma triple_if [triple_rules]:
  "(b \<Longrightarrow> triple P m Q) \<Longrightarrow> (\<not> b \<Longrightarrow> triple P n Q) \<Longrightarrow> triple P (if b then m else n) Q"
  by simp

lemma triple_case_sum [triple_rules]:
  "(\<And>e. r = Inl e \<Longrightarrow> triple P (f e) Q) \<Longrightarrow> (\<And>x. r = Inr x \<Longrightarrow> triple P (g x) Q) \<Longrightarrow>
   triple P (case r of Inl e \<Rightarrow> f e | Inr x \<Rightarrow> g x) Q"
  by (simp split: sum.split)

lemma triple_case_option [triple_rules]:
  "(r = None \<Longrightarrow> triple P m Q) \<Longrightarrow> (\<And>x. r = Some x \<Longrightarrow> triple P (g x) Q) \<Longrightarrow>
   triple P (case r of None \<Rightarrow> m | Some x \<Rightarrow> g x) Q"
  by (simp split: option.split)

lemma triple_case_prod [triple_rules]:
  "(\<And>x y. r = (x, y) \<Longrightarrow> triple P (f x y) Q) \<Longrightarrow> triple P (case r of (x, y) \<Rightarrow> f x y) Q"
  by (simp split: prod.split)

lemma triple_Let [triple_rules]: "(\<And>x. x = e \<Longrightarrow> triple P (f x) Q) \<Longrightarrow> triple P (Let e f) Q"
  by (simp add: Let_def)

text \<open>A first step that keeps \<open>f\<close> leaves a precondition on \<open>f\<close> alone.\<close>

lemma triple_bind_keeps:
  "keeps f m \<Longrightarrow> (\<And>x. triple (\<lambda>s. f s = t) (k x) Q) \<Longrightarrow> triple (\<lambda>s. f s = t) (m \<bind> k) Q"
  by (rule triple_bind[where R = "\<lambda>_ s. f s = t"]) (simp_all add: triple_def keeps_def)

lemma triple_keeps: "keeps f m \<Longrightarrow> triple (\<lambda>s. f s = t) m (\<lambda>_ s. f s = t)"
  by (simp add: triple_def keeps_def)

lemma triple_post: "triple P m Q' \<Longrightarrow> (\<And>r s. Q' r s \<Longrightarrow> Q r s) \<Longrightarrow> triple P m Q"
  by (simp add: triple_def)

declare run_state_return [run_simps] run_state_bind [run_simps] run_state_get [run_simps]
  run_state_set [run_simps]

section \<open>Lists\<close>

lemma distinct_map_unique:
  "distinct (map f xs) \<Longrightarrow> x \<in> set xs \<Longrightarrow> y \<in> set xs \<Longrightarrow> f x = f y \<Longrightarrow> x = y"
  by (auto simp: distinct_map inj_on_def)

text \<open>\<open>find\<close> on a list with a unique key: the lookup of a primary key.\<close>

lemma find_key_iff:
  assumes "distinct (map key xs)"
  shows "find (\<lambda>r. key r = k) xs = Some r \<longleftrightarrow> r \<in> set xs \<and> key r = k"
  using assms
proof (induction xs)
  case (Cons x xs)
  then show ?case
    by (auto simp: image_iff)
qed simp

lemma find_key_None: "find (\<lambda>r. key r = k) xs = None \<longleftrightarrow> k \<notin> key ` set xs"
  by (auto simp: find_None_iff)

lemma find_key_and:
  "distinct (map key xs) \<Longrightarrow> x \<in> set xs \<Longrightarrow> P x \<Longrightarrow> find (\<lambda>r. key r = key x \<and> P r) xs = Some x"
  by (induction xs) (auto simp: image_iff)

lemma find_Some_set: "find P xs = Some x \<Longrightarrow> x \<in> set xs \<and> P x"
  by (auto simp: find_Some_iff)

text \<open>Updating rows in place by a function that keeps their key.\<close>

lemma map_key_update:
  "(\<And>r. key (g r) = key r) \<Longrightarrow> map key (map (\<lambda>r. if P r then g r else r) xs) = map key xs"
  by simp

lemma find_map_update:
  assumes "\<And>r. key (g r) = key r"
  shows "find (\<lambda>r. key r = k) (map (\<lambda>r. if P r then g r else r) xs) =
    map_option (\<lambda>r. if P r then g r else r) (find (\<lambda>r. key r = k) xs)"
  using assms by (induction xs) auto

lemma filter_length_0: "length (filter P xs) = 0 \<longleftrightarrow> (\<forall>x \<in> set xs. \<not> P x)"
  by (simp add: filter_empty_conv)

lemma distinct_map_filter_keys: "distinct (map key xs) \<Longrightarrow> distinct (map key (filter P xs))"
  by (rule distinct_map_filter)

end
