(* ===== verification/Go_Runtime.thy ===== *)
theory Go_Runtime
  imports Prelude
begin

text \<open>
  What the service uses of Go and its standard library, as executable functions.

  A Go \<^verbatim>\<open>string\<close> is a byte sequence and is modelled by \<open>string\<close>, whose \<open>char\<close>s are bytes.
  \<^verbatim>\<open>strings.ToLower\<close> and \<^verbatim>\<open>strings.TrimSpace\<close> are modelled on ASCII text: bytes from 128
  on are left alone. A \<^verbatim>\<open>time.Time\<close> is its number of nanoseconds since the Unix epoch and a
  \<^verbatim>\<open>time.Duration\<close> a number of nanoseconds, both \<open>int\<close>. A timestamp column holds
  \<^verbatim>\<open>t.UTC().Format(time.RFC3339)\<close>, which has second precision: it is modelled by the number of
  whole seconds since the epoch. The texts of two such columns compare as those numbers do
  (years 0 to 9999 all have four digits), so SQL's \<^verbatim>\<open><\<close> on them is \<open><\<close> on \<open>int\<close>.

  The outside world is the record \<open>env\<close>: the readings successive calls of
  \<^verbatim>\<open>time.Now\<close> return (not assumed monotonic), the bytes and failures of successive
  \<^verbatim>\<open>crypto/rand\<close> reads, and the driver failure, if any, of the \<open>n\<close>-th SQL statement. A theorem
  over all states therefore holds for every clock, every random source and every pattern of
  database failures.
\<close>

section \<open>Strings\<close>

definition ascii_lower :: "char \<Rightarrow> char" where
  "ascii_lower c = (if 65 \<le> (of_char c :: nat) \<and> (of_char c :: nat) \<le> 90
     then char_of ((of_char c :: nat) + 32) else c)"

definition strings_ToLower :: "string \<Rightarrow> string" where
  "strings_ToLower s = map ascii_lower s"

definition is_space :: "char \<Rightarrow> bool" where
  "is_space c \<longleftrightarrow> (of_char c :: nat) \<in> {9, 10, 11, 12, 13, 32}"

definition strings_TrimSpace :: "string \<Rightarrow> string" where
  "strings_TrimSpace s = rev (dropWhile is_space (rev (dropWhile is_space s)))"

definition strings_HasPrefix :: "string \<Rightarrow> string \<Rightarrow> bool" where
  "strings_HasPrefix s p \<longleftrightarrow> take (length p) s = p"

definition strings_TrimPrefix :: "string \<Rightarrow> string \<Rightarrow> string" where
  "strings_TrimPrefix s p = (if strings_HasPrefix s p then drop (length p) s else s)"

definition strings_TrimSuffix :: "string \<Rightarrow> string \<Rightarrow> string" where
  "strings_TrimSuffix s p =
     (if strings_HasPrefix (rev s) (rev p) then take (length s - length p) s else s)"

text \<open>\<^verbatim>\<open>strings.TrimRight(s, cutset)\<close> for a one-byte cutset.\<close>

definition strings_TrimRight :: "string \<Rightarrow> char \<Rightarrow> string" where
  "strings_TrimRight s c = rev (dropWhile (\<lambda>d. d = c) (rev s))"

fun strings_Contains :: "string \<Rightarrow> string \<Rightarrow> bool" where
  "strings_Contains [] sub = (sub = [])"
| "strings_Contains (c # cs) sub =
     (strings_HasPrefix (c # cs) sub \<or> strings_Contains cs sub)"

text \<open>\<^verbatim>\<open>strings.SplitN(s, sep, n)\<close> and \<^verbatim>\<open>strings.Split(s, sep)\<close> for a one-byte separator.\<close>

definition before_sep :: "char \<Rightarrow> string \<Rightarrow> string" where
  "before_sep c s = takeWhile (\<lambda>d. d \<noteq> c) s"

definition after_sep :: "char \<Rightarrow> string \<Rightarrow> string" where
  "after_sep c s = tl (dropWhile (\<lambda>d. d \<noteq> c) s)"

fun strings_SplitN :: "string \<Rightarrow> char \<Rightarrow> nat \<Rightarrow> string list" where
  "strings_SplitN s c 0 = []"
| "strings_SplitN s c (Suc 0) = [s]"
| "strings_SplitN s c (Suc (Suc n)) =
     (if c \<in> set s then before_sep c s # strings_SplitN (after_sep c s) c (Suc n) else [s])"

fun strings_Split :: "string \<Rightarrow> char \<Rightarrow> string list" where
  "strings_Split [] c = [[]]"
| "strings_Split (d # ds) c =
     (if d = c then [] # strings_Split ds c
      else (case strings_Split ds c of [] \<Rightarrow> [[d]] | x # xs \<Rightarrow> (d # x) # xs))"

text \<open>\<^verbatim>\<open>strings.ReplaceAll(s, old, new)\<close> for a one-byte \<^verbatim>\<open>old\<close>.\<close>

definition strings_ReplaceAll :: "string \<Rightarrow> char \<Rightarrow> string \<Rightarrow> string" where
  "strings_ReplaceAll s old new = concat (map (\<lambda>c. if c = old then new else [c]) s)"

section \<open>Decimal numbers\<close>

fun nat_digits :: "nat \<Rightarrow> string" where
  "nat_digits n = (if n < 10 then [char_of (48 + n)] else nat_digits (n div 10) @ [char_of (48 + n mod 10)])"

declare nat_digits.simps [simp del]

definition strconv_Itoa :: "int \<Rightarrow> string" where
  "strconv_Itoa i = (if i < 0 then CHR ''-'' # nat_digits (nat (- i)) else nat_digits (nat i))"

definition is_digit :: "char \<Rightarrow> bool" where
  "is_digit c \<longleftrightarrow> 48 \<le> (of_char c :: nat) \<and> (of_char c :: nat) \<le> 57"

definition digits_value :: "string \<Rightarrow> nat" where
  "digits_value ds = foldl (\<lambda>n c. 10 * n + (of_char c - 48)) 0 ds"

text \<open>\<^verbatim>\<open>strconv.Atoi\<close>: an optional sign, at least one decimal digit, in the range of a 64-bit \<^verbatim>\<open>int\<close>.\<close>

definition strconv_Atoi :: "string \<Rightarrow> int option" where
  "strconv_Atoi s =
    (let neg = (s \<noteq> [] \<and> hd s = CHR ''-'');
         ds = (if s \<noteq> [] \<and> (hd s = CHR ''-'' \<or> hd s = CHR ''+'') then tl s else s);
         v = (if neg then - int (digits_value ds) else int (digits_value ds))
     in if ds = [] \<or> \<not> list_all is_digit ds \<or> v < - (2 ^ 63) \<or> 2 ^ 63 \<le> v then None else Some v)"

section \<open>Hexadecimal encoding\<close>

definition hex_digits :: string where
  "hex_digits = ''0123456789abcdef''"

text \<open>\<^verbatim>\<open>hex.EncodeToString\<close>.\<close>

definition hex_EncodeToString :: "string \<Rightarrow> string" where
  "hex_EncodeToString bs =
     concat (map (\<lambda>b. [hex_digits ! ((of_char b :: nat) div 16), hex_digits ! ((of_char b :: nat) mod 16)]) bs)"

section \<open>Time\<close>

type_synonym go_time = int
type_synonym duration = int

definition Second :: duration where "Second = 1000000000"
definition Minute :: duration where "Minute = 60 * Second"
definition Hour :: duration where "Hour = 60 * Minute"

definition maxDuration :: duration where "maxDuration = 2 ^ 63 - 1"
definition minDuration :: duration where "minDuration = - (2 ^ 63)"

text \<open>\<^verbatim>\<open>t.Sub(u)\<close> saturates at the range of an \<^verbatim>\<open>int64\<close> of nanoseconds.\<close>

definition time_Sub :: "go_time \<Rightarrow> go_time \<Rightarrow> duration" where
  "time_Sub t u = max minDuration (min maxDuration (t - u))"

text \<open>The zero \<^verbatim>\<open>time.Time\<close>: the start of year 1.\<close>

definition zero_time :: go_time where
  "zero_time = - 62135596800 * Second"

text \<open>A timestamp column holds the text \<^verbatim>\<open>t.UTC().Format(time.RFC3339)\<close>. A row keeps the number of seconds that text
  denotes; the theory \<open>Rfc3339\<close> has the text itself, its order and \<^verbatim>\<open>time.Parse\<close>. A column the service fills
  from its own clock is read back without an error branch: the clock shows a year from 0 to 9999.\<close>

definition rfc3339 :: "go_time \<Rightarrow> int" where
  "rfc3339 t = t div Second"

definition parse_rfc3339 :: "int \<Rightarrow> go_time" where
  "parse_rfc3339 c = c * Second"

section \<open>The environment\<close>

record env =
  clock :: "nat \<Rightarrow> go_time"
  clock_reads :: nat
  entropy :: "nat \<Rightarrow> nat \<Rightarrow> char"
  entropy_err :: "nat \<Rightarrow> string option"
  draws :: nat
  fault :: "nat \<Rightarrow> string option"
  stmts :: nat

text \<open>\<^verbatim>\<open>time.Now()\<close>.\<close>

definition time_Now :: "('z env_scheme, go_time) state" where
  "time_Now = State (\<lambda>s. (clock s (clock_reads s), s\<lparr>clock_reads := Suc (clock_reads s)\<rparr>))"

text \<open>\<^verbatim>\<open>rand.Read\<close> of \<open>n\<close> bytes: the error text or exactly \<open>n\<close> bytes.\<close>

definition rand_Read :: "nat \<Rightarrow> ('z env_scheme, string + string) state" where
  "rand_Read n = State (\<lambda>s. let d = draws s in
     (case entropy_err s d of Some e \<Rightarrow> Inl e | None \<Rightarrow> Inr (map (entropy s d) [0..<n]),
      s\<lparr>draws := Suc d\<rparr>))"

section \<open>Facts\<close>

lemma run_time_Now [run_simps]:
  "run_state time_Now s = (clock s (clock_reads s), s\<lparr>clock_reads := Suc (clock_reads s)\<rparr>)"
  by (simp add: time_Now_def)

lemma run_rand_Read [run_simps]:
  "run_state (rand_Read n) s =
    (case entropy_err s (draws s) of Some e \<Rightarrow> Inl e | None \<Rightarrow> Inr (map (entropy s (draws s)) [0..<n]),
     s\<lparr>draws := Suc (draws s)\<rparr>)"
  by (simp add: rand_Read_def Let_def)

lemma of_char_less_256: "(of_char c :: nat) < 256"
  by simp

lemma of_char_ascii_lower:
  "(of_char (ascii_lower c) :: nat) =
    (if 65 \<le> (of_char c :: nat) \<and> (of_char c :: nat) \<le> 90 then of_char c + 32 else of_char c)"
  by (simp add: ascii_lower_def of_char_of)

lemma ascii_lower_idem [simp]: "ascii_lower (ascii_lower c) = ascii_lower c"
proof (cases "65 \<le> (of_char c :: nat) \<and> (of_char c :: nat) \<le> 90")
  case True
  then have "(of_char (ascii_lower c) :: nat) = of_char c + 32"
    by (simp add: of_char_ascii_lower)
  with True show ?thesis by (simp add: ascii_lower_def[of "ascii_lower c"])
next
  case False
  then have "ascii_lower c = c" by (auto simp: ascii_lower_def)
  then show ?thesis by simp
qed

lemma is_space_ascii_lower [simp]: "is_space (ascii_lower c) \<longleftrightarrow> is_space c"
  by (auto simp: is_space_def of_char_ascii_lower)

lemma ToLower_idem [simp]: "strings_ToLower (strings_ToLower s) = strings_ToLower s"
  by (simp add: strings_ToLower_def)

lemma dropWhile_idem_rev:
  "dropWhile P (rev (dropWhile P (rev (dropWhile P xs)))) = rev (dropWhile P (rev (dropWhile P xs)))"
proof (cases "dropWhile P xs")
  case (Cons y ys)
  then have y: "\<not> P y"
    by (metis hd_dropWhile list.distinct(1) list.sel(1))
  have "rev (dropWhile P (rev (y # ys))) = y # rev (dropWhile P (rev ys))"
    using y by (simp add: dropWhile_append)
  with Cons y show ?thesis by simp
next
  case Nil
  then show ?thesis by (simp only: rev.simps dropWhile.simps)
qed

lemma TrimSpace_idem [simp]: "strings_TrimSpace (strings_TrimSpace s) = strings_TrimSpace s"
  by (simp add: strings_TrimSpace_def dropWhile_idem_rev)

lemma ToLower_TrimSpace: "strings_ToLower (strings_TrimSpace s) = strings_TrimSpace (strings_ToLower s)"
  by (simp add: strings_ToLower_def strings_TrimSpace_def dropWhile_map rev_map comp_def)

lemma length_hex: "length (hex_EncodeToString bs) = 2 * length bs"
  by (induction bs) (auto simp: hex_EncodeToString_def)

lemma hex_digit_nth: "n < 16 \<Longrightarrow> hex_digits ! n \<in> set hex_digits"
  by (rule nth_mem) (simp add: hex_digits_def)

lemma set_hex: "set (hex_EncodeToString bs) \<subseteq> set hex_digits"
proof -
  have "(of_char b :: nat) div 16 < 16" for b
    by (rule less_mult_imp_div_less) simp
  then show ?thesis
    by (auto simp: hex_EncodeToString_def intro!: hex_digit_nth)
qed

text \<open>Printing and parsing decimal numbers.\<close>

lemma of_char_digit: "n < 10 \<Longrightarrow> (of_char (char_of (48 + n) :: char) :: nat) = 48 + n"
  by (simp add: of_char_of)

lemma nat_digits_digits: "list_all is_digit (nat_digits n)"
proof (induction n rule: nat_digits.induct)
  case (1 n)
  have "is_digit (char_of (48 + n mod 10))" "n < 10 \<Longrightarrow> is_digit (char_of (48 + n))"
    by (simp_all add: is_digit_def of_char_digit)
  with 1 show ?case by (subst nat_digits.simps) auto
qed

lemma digits_value_snoc: "digits_value (ds @ [c]) = 10 * digits_value ds + (of_char c - 48)"
  by (simp add: digits_value_def)

lemma digits_value_nat_digits [simp]: "digits_value (nat_digits n) = n"
proof (induction n rule: nat_digits.induct)
  case (1 n)
  then show ?case
  proof (cases "n < 10")
    case True
    then show ?thesis by (subst nat_digits.simps) (simp add: digits_value_def of_char_digit)
  next
    case False
    with 1 show ?thesis by (subst nat_digits.simps) (simp add: digits_value_snoc of_char_digit)
  qed
qed

lemma nat_digits_not_Nil [simp]: "nat_digits n \<noteq> []"
  by (subst nat_digits.simps) simp

lemma nat_digits_hd: "hd (nat_digits n) \<noteq> CHR ''-'' \<and> hd (nat_digits n) \<noteq> CHR ''+''"
proof -
  have "is_digit (hd (nat_digits n))"
    using nat_digits_digits[of n] by (cases "nat_digits n") auto
  then show ?thesis by (auto simp: is_digit_def)
qed

lemma Atoi_Itoa:
  assumes "- (2 ^ 63) \<le> i" "i < 2 ^ 63"
  shows "strconv_Atoi (strconv_Itoa i) = Some i"
  using assms nat_digits_hd[of "nat i"] nat_digits_digits
  by (auto simp: strconv_Atoi_def strconv_Itoa_def Let_def)

lemma length_nat_digits: "0 < k \<Longrightarrow> n < 10 ^ k \<Longrightarrow> length (nat_digits n) \<le> k"
proof (induction n arbitrary: k rule: nat_digits.induct)
  case (1 n)
  show ?case
  proof (cases "n < 10")
    case True
    with 1 show ?thesis by (subst nat_digits.simps) auto
  next
    case False
    then obtain j where k: "k = Suc j" "0 < j"
      using 1(2,3) by (cases k; cases "k - 1") auto
    with 1(3) have "n div 10 < 10 ^ j" by (simp add: less_mult_imp_div_less mult.commute)
    with False k 1(1)[of j] show ?thesis by (subst nat_digits.simps) auto
  qed
qed

text \<open>Formatting a timestamp truncates it to the second at or before it, and keeps order.\<close>

lemma parse_rfc3339_le: "parse_rfc3339 (rfc3339 t) \<le> t"
  by (simp add: parse_rfc3339_def rfc3339_def Second_def)

lemma parse_rfc3339_gt: "t < parse_rfc3339 (rfc3339 t) + Second"
  by (simp add: parse_rfc3339_def rfc3339_def Second_def)

lemma rfc3339_parse [simp]: "rfc3339 (parse_rfc3339 c) = c"
  by (simp add: parse_rfc3339_def rfc3339_def Second_def)

lemma rfc3339_mono: "t \<le> u \<Longrightarrow> rfc3339 t \<le> rfc3339 u"
  by (simp add: rfc3339_def Second_def zdiv_mono1)

lemma parse_rfc3339_less_iff [simp]: "parse_rfc3339 a < parse_rfc3339 b \<longleftrightarrow> a < b"
  by (simp add: parse_rfc3339_def Second_def)

text \<open>Cutting at a separator, and joining again.\<close>

lemma before_after_sep: "c \<in> set s \<Longrightarrow> before_sep c s @ c # after_sep c s = s"
  by (induction s) (auto simp: before_sep_def after_sep_def)

lemma sep_notin_before: "c \<notin> set (before_sep c s)"
  by (auto simp: before_sep_def dest: set_takeWhileD)

lemma before_sep_append: "c \<notin> set a \<Longrightarrow> before_sep c (a @ c # b) = a"
  by (induction a) (auto simp: before_sep_def)

lemma before_sep_absent: "c \<notin> set s \<Longrightarrow> before_sep c s = s"
  unfolding before_sep_def by (metis (full_types) takeWhile_eq_all_conv)

lemma after_sep_append: "c \<notin> set a \<Longrightarrow> after_sep c (a @ c # b) = b"
  by (induction a) (auto simp: after_sep_def)

lemma SplitN_append:
  "c \<notin> set a \<Longrightarrow> strings_SplitN (a @ c # b) c (Suc (Suc n)) = a # strings_SplitN b c (Suc n)"
  by (simp add: before_sep_append after_sep_append)

lemma keeps_time_Now [keep_rules]:
  "(\<And>s n. f (s\<lparr>clock_reads := n\<rparr>) = f s) \<Longrightarrow> keeps f time_Now"
  by (simp add: keeps_def run_time_Now)

lemma keeps_rand_Read [keep_rules]:
  "(\<And>s n. f (s\<lparr>draws := n\<rparr>) = f s) \<Longrightarrow> keeps f (rand_Read k)"
  by (simp add: keeps_def run_rand_Read)

lemma preserves_time_Now [pres_rules]:
  "(\<And>s n. I s \<Longrightarrow> I (s\<lparr>clock_reads := n\<rparr>)) \<Longrightarrow> preserves I time_Now"
  by (simp add: preserves_def run_time_Now)

lemma preserves_rand_Read [pres_rules]:
  "(\<And>s n. I s \<Longrightarrow> I (s\<lparr>draws := n\<rparr>)) \<Longrightarrow> preserves I (rand_Read k)"
  by (simp add: preserves_def run_rand_Read)

end
