(* ===== verification/Rfc3339.thy ===== *)
theory Rfc3339
  imports Go_Runtime
begin

text \<open>
  Timestamps as text: the proleptic Gregorian calendar of package \<^verbatim>\<open>time\<close>,
  \<^verbatim>\<open>t.UTC().Format(time.RFC3339)\<close> and \<^verbatim>\<open>time.Parse(time.RFC3339, s)\<close>. The tables keep a
  timestamp as the number of seconds its text denotes (\<open>rfc3339\<close>). The lemmas are what makes
  this exact: within the years 0 to 9999 parsing the text gives the instant back, and comparing texts
  byte by byte, as SQLite does, compares the instants. Outside these years the text does not parse.
\<close>

section \<open>The calendar\<close>

definition isLeap :: "int \<Rightarrow> bool" where
  "isLeap y \<longleftrightarrow> y mod 4 = 0 \<and> (y mod 100 \<noteq> 0 \<or> y mod 400 = 0)"

definition daysIn :: "int \<Rightarrow> int \<Rightarrow> int" where
  "daysIn m y = (if m = 2 then (if isLeap y then 29 else 28) else if m \<in> {4, 6, 9, 11} then 30 else 31)"

text \<open>Days since 1970-01-01 of a date, and back. Years are counted from March, so that the leap day is the
  last of its year; 400 such years have 146097 days.\<close>

definition days_of_date :: "int \<Rightarrow> int \<Rightarrow> int \<Rightarrow> int" where
  "days_of_date y m d =
    (let y' = (if m \<le> 2 then y - 1 else y); mp = (if m \<le> 2 then m + 9 else m - 3)
     in 365 * y' + y' div 4 - y' div 100 + y' div 400 + (153 * mp + 2) div 5 + d - 1 - 719468)"

definition date_of_days :: "int \<Rightarrow> int \<times> int \<times> int" where
  "date_of_days n =
    (let z = n + 719468; e = z div 146097; doe = z mod 146097;
         c = min 3 (doe div 36524); r1 = doe - 36524 * c;
         q = r1 div 1461; r2 = r1 mod 1461;
         a = min 3 (r2 div 365); doy = r2 - 365 * a;
         mp = (5 * doy + 2) div 153; y' = 400 * e + 100 * c + 4 * q + a;
         d = doy - (153 * mp + 2) div 5 + 1
     in if mp < 10 then (y', mp + 3, d) else (y' + 1, mp - 9, d))"

definition valid_date :: "int \<times> int \<times> int \<Rightarrow> bool" where
  "valid_date v = (case v of (y, m, d) \<Rightarrow> 1 \<le> m \<and> m \<le> 12 \<and> 1 \<le> d \<and> d \<le> daysIn m y)"

text \<open>The day after.\<close>

definition next_date :: "int \<times> int \<times> int \<Rightarrow> int \<times> int \<times> int" where
  "next_date v = (case v of (y, m, d) \<Rightarrow>
     if d < daysIn m y then (y, m, d + 1) else if m < 12 then (y, m + 1, 1) else (y + 1, 1, 1))"

section \<open>Formatting\<close>

text \<open>\<^verbatim>\<open>appendInt(b, x, width)\<close>.\<close>

definition zero_pad :: "nat \<Rightarrow> nat \<Rightarrow> string" where
  "zero_pad w n = replicate (w - length (nat_digits n)) CHR ''0'' @ nat_digits n"

definition appendInt :: "int \<Rightarrow> nat \<Rightarrow> string" where
  "appendInt x w = (if x < 0 then CHR ''-'' # zero_pad w (nat (- x)) else zero_pad w (nat x))"

text \<open>The text of the instant \<open>c\<close> seconds after the epoch.\<close>

definition rfc3339_text :: "int \<Rightarrow> string" where
  "rfc3339_text c = (case date_of_days (c div 86400) of (y, m, d) \<Rightarrow>
     let s = c mod 86400 in
     appendInt y 4 @ ''-'' @ appendInt m 2 @ ''-'' @ appendInt d 2 @ ''T'' @
     appendInt (s div 3600) 2 @ '':'' @ appendInt (s div 60 mod 60) 2 @ '':'' @ appendInt (s mod 60) 2 @ ''Z'')"

section \<open>Parsing\<close>

text \<open>\<^verbatim>\<open>getnum\<close>: one or two digits, two when \<open>fixed\<close>.\<close>

definition getnum :: "bool \<Rightarrow> string \<Rightarrow> (int \<times> string) option" where
  "getnum fixed s = (case s of
       [] \<Rightarrow> None
     | a # r \<Rightarrow>
         if \<not> is_digit a then None
         else if r \<noteq> [] \<and> is_digit (hd r) then Some (int (digits_value [a, hd r]), tl r)
         else if fixed then None else Some (int (digits_value [a]), r))"

definition skip_char :: "char \<Rightarrow> string \<Rightarrow> string option" where
  "skip_char c s = (case s of [] \<Rightarrow> None | d # r \<Rightarrow> if d = c then Some r else None)"

definition parse_year :: "string \<Rightarrow> (int \<times> string) option" where
  "parse_year s = (if 4 \<le> length s \<and> list_all is_digit (take 4 s)
     then Some (int (digits_value (take 4 s)), drop 4 s) else None)"

text \<open>A fraction after the seconds, although the layout has none; digits past the ninth are dropped.\<close>

definition parse_frac :: "string \<Rightarrow> int \<times> string" where
  "parse_frac s = (case s of
       p # d # r \<Rightarrow> if (p = CHR ''.'' \<or> p = CHR '','') \<and> is_digit d
         then (let ds = take 9 (takeWhile is_digit (d # r))
               in (int (digits_value ds) * 10 ^ (9 - length ds), dropWhile is_digit (d # r)))
         else (0, s)
     | _ \<Rightarrow> (0, s))"

text \<open>\<^verbatim>\<open>Z07:00\<close>: the offset in seconds.\<close>

definition parse_zone :: "string \<Rightarrow> (int \<times> string) option" where
  "parse_zone s =
    (if s \<noteq> [] \<and> hd s = CHR ''Z'' then Some (0, tl s)
     else if length s < 6 \<or> s ! 3 \<noteq> CHR '':'' then None
     else do {
       (hr, _) \<leftarrow> getnum True (take 2 (drop 1 s));
       (mm, _) \<leftarrow> getnum True (take 2 (drop 4 s));
       if 24 < hr \<or> 60 < mm then None
       else if hd s = CHR ''+'' then Some ((hr * 60 + mm) * 60, drop 6 s)
       else if hd s = CHR ''-'' then Some (- ((hr * 60 + mm) * 60), drop 6 s)
       else None })"

definition in_range :: "int \<Rightarrow> int \<Rightarrow> int \<Rightarrow> unit option" where
  "in_range lo hi n = (if lo \<le> n \<and> n \<le> hi then Some () else None)"

definition time_Parse :: "string \<Rightarrow> go_time option" where
  "time_Parse s = do {
     (y, s) \<leftarrow> parse_year s;
     s \<leftarrow> skip_char CHR ''-'' s;
     (m, s) \<leftarrow> getnum True s;
     _ \<leftarrow> in_range 1 12 m;
     s \<leftarrow> skip_char CHR ''-'' s;
     (d, s) \<leftarrow> getnum True s;
     s \<leftarrow> skip_char CHR ''T'' s;
     (hh, s) \<leftarrow> getnum False s;
     _ \<leftarrow> in_range 0 23 hh;
     s \<leftarrow> skip_char CHR '':'' s;
     (mm, s) \<leftarrow> getnum True s;
     _ \<leftarrow> in_range 0 59 mm;
     s \<leftarrow> skip_char CHR '':'' s;
     (ss, s) \<leftarrow> getnum True s;
     _ \<leftarrow> in_range 0 59 ss;
     let (ns, s) = parse_frac s;
     (off, s) \<leftarrow> parse_zone s;
     if s \<noteq> [] \<or> d < 1 \<or> daysIn m y < d then None
     else Some ((days_of_date y m d * 86400 + hh * 3600 + mm * 60 + ss - off) * Second + ns) }"

section \<open>The calendar is the Gregorian one\<close>

text \<open>The parts of a day number: cycles of 400, 100 and 4 years, years and days.\<close>

lemma civil_parts:
  fixes doe :: int
  assumes "0 \<le> doe" "doe < 146097"
    and "c = min 3 (doe div 36524)" "r1 = doe - 36524 * c" "q = r1 div 1461" "r2 = r1 mod 1461"
    and "a = min 3 (r2 div 365)" "doy = r2 - 365 * a"
  shows "0 \<le> c" "c \<le> 3" "0 \<le> q" "q \<le> 24" "0 \<le> a" "a \<le> 3" "0 \<le> doy" "doy \<le> 365"
    "doe = 36524 * c + 1461 * q + 365 * a + doy" "doy = 365 \<Longrightarrow> a = 3 \<and> (q = 24 \<longrightarrow> c = 3)"
proof -
  have d: "doe = 36524 * (doe div 36524) + doe mod 36524" "0 \<le> doe mod 36524" "doe mod 36524 < 36524" by simp_all
  then have dd: "0 \<le> doe div 36524" "doe div 36524 \<le> 4" using assms(1,2) by linarith+
  show c: "0 \<le> c" "c \<le> 3" using dd assms(3) by auto
  have r1: "0 \<le> r1" "r1 \<le> 36524" "r1 = 36524 \<Longrightarrow> c = 3"
    using d dd assms(1,2,3,4) by (auto simp: min_def split: if_splits)
  have e: "r1 = 1461 * q + r2" "0 \<le> r2" "r2 < 1461" using assms(5,6) by simp_all
  then show q: "0 \<le> q" "q \<le> 24" using r1(1,2) by linarith+
  have f: "r2 = 365 * (r2 div 365) + r2 mod 365" "0 \<le> r2 mod 365" "r2 mod 365 < 365" by simp_all
  then have ff: "0 \<le> r2 div 365" "r2 div 365 \<le> 4" using e(2,3) by linarith+
  show a: "0 \<le> a" "a \<le> 3" using ff assms(7) by auto
  show doy: "0 \<le> doy" "doy \<le> 365" using f ff e(2,3) assms(7,8) by (auto simp: min_def split: if_splits)
  show "doe = 36524 * c + 1461 * q + 365 * a + doy" using e assms(4,8) by simp
  show "a = 3 \<and> (q = 24 \<longrightarrow> c = 3)" if "doy = 365"
    using that f ff e r1 assms(7,8) by (auto simp: min_def split: if_splits)
qed

lemma month_parts:
  fixes doy :: int
  assumes "0 \<le> doy" "doy \<le> 365" "mp = (5 * doy + 2) div 153" "d = doy - (153 * mp + 2) div 5 + 1"
  shows "0 \<le> mp" "mp \<le> 11" "1 \<le> d" "d \<le> 31" "mp \<in> {1, 3, 6, 8} \<Longrightarrow> d \<le> 30" "mp = 11 \<Longrightarrow> d \<le> 29"
    "mp = 11 \<Longrightarrow> d = 29 \<Longrightarrow> doy = 365"
proof -
  have m: "153 * mp \<le> 5 * doy + 2" "5 * doy + 2 < 153 * mp + 153" using assms(3) by linarith+
  then show mp: "0 \<le> mp" "mp \<le> 11" using assms(1,2) by linarith+
  define b where "b = (153 * mp + 2) div 5"
  have b: "5 * b \<le> 153 * mp + 2" "153 * mp + 2 < 5 * b + 5" unfolding b_def by linarith+
  have d: "d = doy - b + 1" using assms(4) b_def by simp
  show "1 \<le> d" "d \<le> 31" using d b m by linarith+
  show "d \<le> 30" if "mp \<in> {1, 3, 6, 8}" using that d b m by auto
  show "d \<le> 29" "d = 29 \<Longrightarrow> doy = 365" if "mp = 11" using that d b m assms(2) by auto
qed

text \<open>Recomposing the parts of a year.\<close>

lemma year_parts:
  fixes e :: int
  assumes "0 \<le> c" "c \<le> 3" "0 \<le> q" "q \<le> 24" "0 \<le> a" "a \<le> 3" "y = 400 * e + 100 * c + 4 * q + a"
  shows "y div 400 = e" "y div 100 = 4 * e + c" "y div 4 = 100 * e + 25 * c + q"
    "365 * y + y div 4 - y div 100 + y div 400 = 146097 * e + 36524 * c + 1461 * q + 365 * a"
    "a = 3 \<Longrightarrow> (q = 24 \<longrightarrow> c = 3) \<Longrightarrow> isLeap (y + 1)"
proof -
  show 1: "y div 400 = e" using assms by (intro int_div_pos_eq[where r = "100 * c + 4 * q + a"]) auto
  show 2: "y div 100 = 4 * e + c" using assms by (intro int_div_pos_eq[where r = "4 * q + a"]) auto
  show 3: "y div 4 = 100 * e + 25 * c + q" using assms by (intro int_div_pos_eq[where r = a]) auto
  show "365 * y + y div 4 - y div 100 + y div 400 = 146097 * e + 36524 * c + 1461 * q + 365 * a"
    unfolding 1 2 3 using assms(7) by simp
  assume a: "a = 3" "q = 24 \<longrightarrow> c = 3"
  show "isLeap (y + 1)"
  proof (cases "q = 24")
    case True
    then have "y + 1 = 400 * (e + 1)" using a assms(7) by simp
    then show ?thesis by (simp add: isLeap_def)
  next
    case False
    have "y + 1 = 100 * (4 * e + c) + (4 * q + 4)" using a assms(7) by simp
    then have "(y + 1) mod 100 = 4 * q + 4" using False assms(3,4) by (intro int_mod_pos_eq[where q = "4 * e + c"]) auto
    then have "(y + 1) mod 100 \<noteq> 0" using assms(3) by linarith
    moreover have "(y + 1) mod 4 = 0" using a assms(7) by (intro int_mod_pos_eq[where q = "100 * e + 25 * c + q + 1"]) auto
    ultimately show ?thesis unfolding isLeap_def by blast
  qed
qed

definition march_days :: "int \<Rightarrow> int \<Rightarrow> int \<Rightarrow> int" where
  "march_days y mp d = 365 * y + y div 4 - y div 100 + y div 400 + (153 * mp + 2) div 5 + d - 1 - 719468"

lemma days_of_date_march: "days_of_date y m d = (if m \<le> 2 then march_days (y - 1) (m + 9) d else march_days y (m - 3) d)"
  by (simp add: days_of_date_def march_days_def Let_def)

lemma date_of_days_correct: "valid_date (date_of_days n) \<and> (case date_of_days n of (y, m, d) \<Rightarrow> days_of_date y m d = n)"
proof -
  define e where "e = (n + 719468) div 146097"
  define doe where "doe = (n + 719468) mod 146097"
  define c where "c = min 3 (doe div 36524)"
  define r1 where "r1 = doe - 36524 * c"
  define q where "q = r1 div 1461"
  define r2 where "r2 = r1 mod 1461"
  define a where "a = min 3 (r2 div 365)"
  define doy where "doy = r2 - 365 * a"
  define mp where "mp = (5 * doy + 2) div 153"
  define d where "d = doy - (153 * mp + 2) div 5 + 1"
  define y where "y = 400 * e + 100 * c + 4 * q + a"
  have n: "n + 719468 = 146097 * e + doe" and doe: "0 \<le> doe" "doe < 146097"
    by (simp_all add: e_def doe_def)
  note cp = civil_parts[OF doe c_def r1_def q_def r2_def a_def doy_def]
  note mo = month_parts[OF cp(7,8) mp_def d_def]
  note yp = year_parts[OF cp(1-6) y_def]
  have date: "date_of_days n = (if mp < 10 then (y, mp + 3, d) else (y + 1, mp - 9, d))"
    unfolding date_of_days_def Let_def e_def doe_def c_def r1_def q_def r2_def a_def doy_def mp_def d_def y_def ..
  have days: "march_days y mp d = n" unfolding march_days_def
    using yp(4) n cp(9) d_def by linarith
  have leap: "d \<le> 28 \<or> isLeap (y + 1)" if "mp = 11"
    using mo(6,7) that cp(10) yp(5) by (cases "d = 29") auto
  have "mp = 10 \<or> mp = 11" if "\<not> mp < 10" using mo(2) that by auto
  then have "valid_date (date_of_days n)"
    unfolding date using mo(1,3-6) leap by (auto simp: valid_date_def daysIn_def)
  moreover have "case date_of_days n of (y, m, d) \<Rightarrow> days_of_date y m d = n"
    unfolding date using days mo(1,2) by (simp add: days_of_date_march)
  ultimately show ?thesis ..
qed

lemma div_pred: "0 < k \<Longrightarrow> (y - 1) div k = (if y mod k = 0 then y div k - 1 else y div k)" for y k :: int
proof -
  assume k: "0 < k"
  have y: "y = k * (y div k) + y mod k" and r: "0 \<le> y mod k" "y mod k < k" using k by simp_all
  show ?thesis
  proof (cases "y mod k = 0")
    case True
    then have "(y - 1) div k = y div k - 1" using y k by (intro int_div_pos_eq[where r = "k - 1"]) (auto simp: algebra_simps)
    then show ?thesis using True by simp
  next
    case False
    then have "(y - 1) div k = y div k" using y r k by (intro int_div_pos_eq[where r = "y mod k - 1"]; linarith)
    then show ?thesis using False by simp
  qed
qed

lemma march_year: "march_days y mp d = march_days (y - 1) mp d + 365 + (if isLeap y then 1 else 0)"
proof -
  have "y mod 100 = 0 \<Longrightarrow> y mod 4 = 0" "y mod 400 = 0 \<Longrightarrow> y mod 100 = 0" by presburger+
  then show ?thesis by (auto simp: march_days_def div_pred isLeap_def)
qed

text \<open>A month ends where the next begins.\<close>

lemma month_length:
  assumes "1 \<le> m" "m \<le> 12"
  shows "days_of_date y m 1 + daysIn m y = (if m < 12 then days_of_date y (m + 1) 1 else days_of_date (y + 1) 1 1)"
proof (cases "m = 2")
  case True
  have "march_days (y - 1) 11 1 + (if isLeap y then 29 else 28) = march_days y 0 1"
    unfolding march_year[of y 0] by (simp add: march_days_def)
  then show ?thesis using True by (simp add: days_of_date_march daysIn_def)
next
  case False
  have "m = 1 \<or> m = 3 \<or> m = 4 \<or> m = 5 \<or> m = 6 \<or> m = 7 \<or> m = 8 \<or> m = 9 \<or> m = 10 \<or> m = 11 \<or> m = 12"
    using assms False by presburger
  then show ?thesis by (elim disjE) (simp_all add: days_of_date_march daysIn_def march_days_def)
qed

lemma days_of_date_day: "days_of_date y m d = days_of_date y m 1 + d - 1"
  by (simp add: days_of_date_march march_days_def)

definition month_start :: "int \<Rightarrow> int" where
  "month_start k = days_of_date (k div 12) (k mod 12 + 1) 1"

lemma month_start_Suc: "month_start (k + 1) = month_start k + daysIn (k mod 12 + 1) (k div 12)"
proof -
  have k: "k = 12 * (k div 12) + k mod 12" "0 \<le> k mod 12" "k mod 12 < 12" by simp_all
  have "(k + 1) div 12 = k div 12 + 1 \<and> (k + 1) mod 12 = 0" if "k mod 12 = 11"
    using k that int_div_pos_eq[of "k + 1" 12 "k div 12 + 1" 0] int_mod_pos_eq[of "k + 1" 12 "k div 12 + 1" 0] by simp
  moreover have "(k + 1) div 12 = k div 12 \<and> (k + 1) mod 12 = k mod 12 + 1" if "k mod 12 \<noteq> 11"
    using k that int_div_pos_eq[of "k + 1" 12 "k div 12" "k mod 12 + 1"] int_mod_pos_eq[of "k + 1" 12 "k div 12" "k mod 12 + 1"] by simp
  ultimately show ?thesis using month_length[of "k mod 12 + 1" "k div 12"] k(2,3) by (cases "k mod 12 = 11") (simp_all add: month_start_def)
qed

lemma daysIn_bounds: "28 \<le> daysIn m y" "daysIn m y \<le> 31"
  by (auto simp: daysIn_def)

lemma month_start_mono: "j \<le> k \<Longrightarrow> month_start j \<le> month_start k"
proof (induction k rule: int_ge_induct)
  case (step i)
  then show ?case using month_start_Suc[of i] daysIn_bounds(1)[of "i mod 12 + 1" "i div 12"] by linarith
qed simp

text \<open>Later dates have higher day numbers; with the correctness of \<open>date_of_days\<close> the two are inverse and order-preserving.\<close>

lemma days_of_date_mono:
  assumes "valid_date (y, m, d)" "valid_date (y', m', d')" "(y, m, d) < (y', m', d')"
  shows "days_of_date y m d < days_of_date y' m' d'"
proof -
  have st: "days_of_date y m d = month_start (12 * y + (m - 1)) + d - 1" if "valid_date (y, m, d)" for y m d
  proof -
    have "(12 * y + (m - 1)) div 12 = y" "(12 * y + (m - 1)) mod 12 = m - 1"
      using that by (auto simp: valid_date_def intro: int_div_pos_eq[where r = "m - 1"] int_mod_pos_eq[where q = y])
    then show ?thesis using days_of_date_day[of y m d] by (simp add: month_start_def)
  qed
  let ?k = "12 * y + (m - 1)" and ?k' = "12 * y' + (m' - 1)"
  have k: "?k < ?k' \<or> (?k = ?k' \<and> d < d')" using assms by (auto simp: valid_date_def less_prod_def)
  show ?thesis
  proof (cases "?k < ?k'")
    case True
    have "d \<le> daysIn (?k mod 12 + 1) (?k div 12)"
    proof -
      have "?k div 12 = y" "?k mod 12 = m - 1"
        using assms(1) by (auto simp: valid_date_def intro: int_div_pos_eq[where r = "m - 1"] int_mod_pos_eq[where q = y])
      then show ?thesis using assms(1) by (simp add: valid_date_def)
    qed
    moreover have "month_start (?k + 1) \<le> month_start ?k'" using True by (intro month_start_mono) simp
    ultimately show ?thesis using month_start_Suc[of ?k] assms(2) st[OF assms(1)] st[OF assms(2)] by (simp add: valid_date_def)
  next
    case False
    then have "?k = ?k'" "d < d'" using k by blast+
    then have "month_start ?k = month_start ?k'" by (simp only:)
    then show ?thesis using \<open>d < d'\<close> st[OF assms(1)] st[OF assms(2)] by linarith
  qed
qed

lemma date_of_days_less: "date_of_days a < date_of_days b \<longleftrightarrow> a < b"
proof -
  have less: "a < b" if "date_of_days a < date_of_days b" for a b
    using days_of_date_mono that date_of_days_correct[of a] date_of_days_correct[of b]
    by (auto split: prod.splits)
  moreover have "a = b" if "date_of_days a = date_of_days b" for a b
    using that date_of_days_correct[of a] date_of_days_correct[of b] by (auto split: prod.splits)
  ultimately show ?thesis by (metis less_linear less_asym)
qed

lemma date_of_days_of_date: "valid_date (y, m, d) \<Longrightarrow> date_of_days (days_of_date y m d) = (y, m, d)"
proof -
  assume v: "valid_date (y, m, d)"
  obtain y' m' d' where w: "date_of_days (days_of_date y m d) = (y', m', d')" by (rule prod_cases3)
  then have w': "valid_date (y', m', d')" "days_of_date y' m' d' = days_of_date y m d"
    using date_of_days_correct[of "days_of_date y m d"] by auto
  then show ?thesis unfolding w using days_of_date_mono[OF v w'(1)] days_of_date_mono[OF w'(1) v]
    by (metis less_irrefl less_linear)
qed

text \<open>Day by day the calendar steps to the next date, from 1970-01-01 on and back.\<close>

lemma date_of_days_Suc: "date_of_days 0 = (1970, 1, 1)" "date_of_days (n + 1) = next_date (date_of_days n)"
proof -
  show "date_of_days 0 = (1970, 1, 1)" by code_simp
  obtain y m d where w: "date_of_days n = (y, m, d)" by (rule prod_cases3)
  then have v: "valid_date (y, m, d)" "days_of_date y m d = n" using date_of_days_correct[of n] by auto
  have "next_date (y, m, d) = (y', m', d') \<Longrightarrow> valid_date (y', m', d') \<and> days_of_date y' m' d' = n + 1" for y' m' d'
    using v month_length[of m y] days_of_date_day[of y m d] days_of_date_day[of y m "d + 1"]
      daysIn_bounds(1)[of "m + 1" y] daysIn_bounds(1)[of 1 "y + 1"]
    by (auto simp: next_date_def valid_date_def split: if_splits)
  then show "date_of_days (n + 1) = next_date (date_of_days n)"
    unfolding w by (metis date_of_days_of_date prod_cases3)
qed

section \<open>The order of texts\<close>

lemma append_less_append:
  "length a = length b \<Longrightarrow> a @ x < b @ y \<longleftrightarrow> a < b \<or> (a = b \<and> x < y)" for a b :: "char list"
  by (induction a b rule: list_induct2) auto

lemma digits_value_Cons: "digits_value (c # cs) = (of_char c - 48) * 10 ^ length cs + digits_value cs"
proof -
  have "foldl (\<lambda>n c. 10 * n + (of_char c - 48)) k cs = k * 10 ^ length cs + digits_value cs" for k :: nat
  proof (induction cs arbitrary: k rule: rev_induct)
    case (snoc d ds)
    then show ?case by (simp add: digits_value_snoc)
  qed (simp add: digits_value_def)
  from this[of "of_char c - 48"] show ?thesis by (simp add: digits_value_def)
qed

lemma digits_value_bound: "list_all is_digit ds \<Longrightarrow> digits_value ds < 10 ^ length ds"
proof (induction ds)
  case (Cons c cs)
  have "(of_char c - 48 :: nat) \<le> 9" using Cons.prems by (auto simp: is_digit_def)
  then have "(of_char c - 48) * 10 ^ length cs \<le> 9 * (10 ^ length cs :: nat)" by (rule mult_right_mono) simp
  moreover have "digits_value cs < 10 ^ length cs" using Cons by simp
  ultimately have "(of_char c - 48) * 10 ^ length cs + digits_value cs < 10 * 10 ^ length cs" by linarith
  then show ?case by (simp add: digits_value_Cons)
qed (simp add: digits_value_def)

lemma digits_order:
  "length a = length b \<Longrightarrow> list_all is_digit a \<Longrightarrow> list_all is_digit b \<Longrightarrow>
    (a < b \<longleftrightarrow> digits_value a < digits_value b) \<and> (a = b \<longleftrightarrow> digits_value a = digits_value b)"
proof (induction a b rule: list_induct2)
  case (Cons c a d b)
  let ?c = "of_char c - 48 :: nat" and ?d = "of_char d - 48 :: nat" and ?p = "10 ^ length b :: nat"
  have "48 \<le> (of_char c :: nat)" "48 \<le> (of_char d :: nat)" using Cons.prems by (auto simp: is_digit_def)
  then have cd: "c < d \<longleftrightarrow> ?c < ?d" "c = d \<longleftrightarrow> ?c = ?d"
    by (auto simp: less_char_def) (metis eq_diff_iff of_char_eq_iff)
  have v: "digits_value (c # a) = ?c * ?p + digits_value a" "digits_value (d # b) = ?d * ?p + digits_value b"
    "digits_value a < ?p" "digits_value b < ?p"
    using Cons.hyps Cons.prems digits_value_bound[of a] digits_value_bound[of b] by (auto simp: digits_value_Cons)
  have lt: "i * ?p + x < j * ?p + y" if "i < j" "x < ?p" for i j x y :: nat
  proof -
    have "i * ?p + x < Suc i * ?p" using that(2) by simp
    also have "\<dots> \<le> j * ?p" using that(1) by (intro mult_right_mono) auto
    finally show ?thesis by simp
  qed
  show ?case
  proof (cases "?c = ?d")
    case True
    then have "c = d" using cd(2) by blast
    then show ?thesis using v Cons.IH Cons.prems by auto
  next
    case False
    then show ?thesis using v cd lt[of ?c ?d "digits_value a" "digits_value b"] lt[of ?d ?c "digits_value b" "digits_value a"]
      by (metis Cons_less_Cons less_asym list.inject nat_neq_iff)
  qed
qed (simp add: digits_value_def)

lemma digits_value_zeros: "digits_value (replicate k CHR ''0'' @ ds) = digits_value ds"
  by (induction k) (simp_all add: digits_value_Cons)

lemma zero_pad_digits: "list_all is_digit (zero_pad w n)"
  using nat_digits_digits[of n] by (auto simp: zero_pad_def list_all_iff is_digit_def)

lemma zero_pad_value [simp]: "digits_value (zero_pad w n) = n"
  by (simp add: zero_pad_def digits_value_zeros)

lemma zero_pad_length: "0 < w \<Longrightarrow> n < 10 ^ w \<Longrightarrow> length (zero_pad w n) = w"
  using length_nat_digits[of w n] by (simp add: zero_pad_def)

lemma zero_pad_less:
  assumes "0 < w" "n < 10 ^ w" "n' < 10 ^ w"
  shows "zero_pad w n @ x < zero_pad w n' @ y \<longleftrightarrow> n < n' \<or> (n = n' \<and> x < y)"
proof -
  have l: "length (zero_pad w n) = length (zero_pad w n')" using assms by (simp add: zero_pad_length)
  show ?thesis using digits_order[OF l zero_pad_digits zero_pad_digits] append_less_append[OF l] by auto
qed

lemma zero_pads_less:
  "n < 100 \<Longrightarrow> n' < 100 \<Longrightarrow> zero_pad 2 n @ x < zero_pad 2 n' @ y \<longleftrightarrow> n < n' \<or> (n = n' \<and> x < y)"
  "n < 10000 \<Longrightarrow> n' < 10000 \<Longrightarrow> zero_pad 4 n @ x < zero_pad 4 n' @ y \<longleftrightarrow> n < n' \<or> (n = n' \<and> x < y)"
  using zero_pad_less[of 2 n n'] zero_pad_less[of 4 n n'] by simp_all

section \<open>The years 0 to 9999\<close>

definition in_years :: "int \<Rightarrow> bool" where
  "in_years c \<longleftrightarrow> - 62167219200 \<le> c \<and> c < 253402300800"

lemma in_years_iff:
  assumes "date_of_days (c div 86400) = (y, m, d)"
  shows "in_years c \<longleftrightarrow> 0 \<le> y \<and> y \<le> 9999"
proof -
  have ends: "date_of_days (- 719528) = (0, 1, 1)" "date_of_days 2932897 = (10000, 1, 1)" by code_simp+
  have v: "valid_date (y, m, d)" using date_of_days_correct[of "c div 86400"] assms by auto
  have "- 62167219200 \<le> c \<longleftrightarrow> \<not> c div 86400 < - 719528" "c < 253402300800 \<longleftrightarrow> c div 86400 < 2932897" by linarith+
  moreover have "c div 86400 < - 719528 \<longleftrightarrow> y < 0"
    using v date_of_days_less[of "c div 86400" "- 719528"] unfolding ends assms by (auto simp: valid_date_def)
  moreover have "c div 86400 < 2932897 \<longleftrightarrow> y < 10000"
    using v date_of_days_less[of "c div 86400" 2932897] unfolding ends assms by (auto simp: valid_date_def)
  ultimately show ?thesis unfolding in_years_def by auto
qed

text \<open>The fields of a timestamp in these years.\<close>

lemma rfc3339_fields:
  assumes "in_years c" "date_of_days (c div 86400) = (y, m, d)" "s = c mod 86400"
  shows "rfc3339_text c = zero_pad 4 (nat y) @ ''-'' @ zero_pad 2 (nat m) @ ''-'' @ zero_pad 2 (nat d) @ ''T'' @
      zero_pad 2 (nat (s div 3600)) @ '':'' @ zero_pad 2 (nat (s div 60 mod 60)) @ '':'' @ zero_pad 2 (nat (s mod 60)) @ ''Z''"
    and "0 \<le> y" "y \<le> 9999" "1 \<le> m" "m \<le> 12" "1 \<le> d" "d \<le> daysIn m y" "0 \<le> s" "s < 86400"
    "0 \<le> s div 3600" "s div 3600 < 24" "days_of_date y m d = c div 86400"
proof -
  show y: "0 \<le> y" "y \<le> 9999" using in_years_iff[OF assms(2)] assms(1) by auto
  show s: "0 \<le> s" "s < 86400" using assms(3) by simp_all
  then show "0 \<le> s div 3600" "s div 3600 < 24" by linarith+
  show v: "1 \<le> m" "m \<le> 12" "1 \<le> d" "d \<le> daysIn m y" and "days_of_date y m d = c div 86400"
    using date_of_days_correct[of "c div 86400"] assms(2) by (auto simp: valid_date_def)
  have nn: "\<not> s div 60 mod 60 < 0" "\<not> s mod 60 < 0" by (simp_all add: not_less)
  show "rfc3339_text c = zero_pad 4 (nat y) @ ''-'' @ zero_pad 2 (nat m) @ ''-'' @ zero_pad 2 (nat d) @ ''T'' @
      zero_pad 2 (nat (s div 3600)) @ '':'' @ zero_pad 2 (nat (s div 60 mod 60)) @ '':'' @ zero_pad 2 (nat (s mod 60)) @ ''Z''"
    unfolding rfc3339_text_def assms(2) prod.case Let_def assms(3)[symmetric]
    using y v \<open>0 \<le> s div 3600\<close> by (simp add: appendInt_def nn)
qed

lemma clock_parts: "s = 3600 * (s div 3600) + 60 * (s div 60 mod 60) + s mod 60" for s :: int
proof -
  have "s div 3600 = s div 60 div 60" by (simp add: zdiv_zmult2_eq[symmetric])
  then show ?thesis using div_mult_mod_eq[of s 60] div_mult_mod_eq[of "s div 60" 60] by linarith
qed

lemma clock_order:
  fixes s s' :: int
  assumes "0 \<le> s" "0 \<le> s'"
  shows "(nat (s div 3600) < nat (s' div 3600) \<or> nat (s div 3600) = nat (s' div 3600) \<and>
    (nat (s div 60 mod 60) < nat (s' div 60 mod 60) \<or> nat (s div 60 mod 60) = nat (s' div 60 mod 60) \<and>
      nat (s mod 60) < nat (s' mod 60))) \<longleftrightarrow> s < s'"
proof -
  define h i j where "h = s div 3600" and "i = s div 60 mod 60" and "j = s mod 60"
  define h' i' j' where "h' = s' div 3600" and "i' = s' div 60 mod 60" and "j' = s' mod 60"
  have p: "s = 3600 * h + 60 * i + j" "s' = 3600 * h' + 60 * i' + j'"
    unfolding h_def i_def j_def h'_def i'_def j'_def by (rule clock_parts)+
  have b: "0 \<le> h" "0 \<le> i" "i < 60" "0 \<le> j" "j < 60" "0 \<le> h'" "0 \<le> i'" "i' < 60" "0 \<le> j'" "j' < 60"
    using assms by (simp_all add: h_def i_def j_def h'_def i'_def j'_def)
  have n: "nat h < nat h' \<longleftrightarrow> h < h'" "nat h = nat h' \<longleftrightarrow> h = h'" "nat i < nat i' \<longleftrightarrow> i < i'" "nat i = nat i' \<longleftrightarrow> i = i'"
    "nat j < nat j' \<longleftrightarrow> j < j'" using b by linarith+
  have "h < h' \<or> h = h' \<and> (i < i' \<or> i = i' \<and> j < j') \<longleftrightarrow> 3600 * h + 60 * i + j < 3600 * h' + 60 * i' + j'"
    using b by (cases h h' rule: linorder_cases; cases i i' rule: linorder_cases) linarith+
  then show ?thesis unfolding p[symmetric]
    unfolding h_def[symmetric] i_def[symmetric] j_def[symmetric] h'_def[symmetric] i'_def[symmetric] j'_def[symmetric] n .
qed

lemma rfc3339_text_order:
  assumes "in_years c" "in_years c'"
  shows "rfc3339_text c < rfc3339_text c' \<longleftrightarrow> c < c'"
proof -
  obtain y m d where D: "date_of_days (c div 86400) = (y, m, d)" by (rule prod_cases3)
  obtain y' m' d' where D': "date_of_days (c' div 86400) = (y', m', d')" by (rule prod_cases3)
  define s s' where "s = c mod 86400" and "s' = c' mod 86400"
  note f = rfc3339_fields[OF assms(1) D s_def] and f' = rfc3339_fields[OF assms(2) D' s'_def]
  have b: "nat y < 10000" "nat m < 100" "nat d < 100" "nat (s div 3600) < 100" "nat y' < 10000" "nat m' < 100" "nat d' < 100"
    "nat (s' div 3600) < 100"
    using f(2-11) f'(2-11) daysIn_bounds(2)[of m y] daysIn_bounds(2)[of m' y'] by linarith+
  have b2: "nat (x mod 60) < 100" for x :: int using pos_mod_bound[of 60 x] by linarith
  have nats: "nat y < nat y' \<longleftrightarrow> y < y'" "nat y = nat y' \<longleftrightarrow> y = y'" "nat m < nat m' \<longleftrightarrow> m < m'" "nat m = nat m' \<longleftrightarrow> m = m'"
    "nat d < nat d' \<longleftrightarrow> d < d'" "nat d = nat d' \<longleftrightarrow> d = d'"
    using f(2,4,6) f'(2,4,6) by auto
  have e: "c = 86400 * (c div 86400) + s" "c' = 86400 * (c' div 86400) + s'" by (simp_all add: s_def s'_def)
  have "rfc3339_text c < rfc3339_text c' \<longleftrightarrow> (y, m, d) < (y', m', d') \<or> (y, m, d) = (y', m', d') \<and> s < s'"
    unfolding f(1) f'(1) clock_order[OF f(8) f'(8), symmetric]
    by (simp add: zero_pads_less b b2 nats less_prod_def' del: zless_nat_conj) blast
  also have "\<dots> \<longleftrightarrow> c div 86400 < c' div 86400 \<or> c div 86400 = c' div 86400 \<and> s < s'"
    using date_of_days_less[of "c div 86400" "c' div 86400"] f(12) f'(12) D D' by auto
  also have "\<dots> \<longleftrightarrow> c < c'" using e f(8,9) f'(8,9) by linarith
  finally show ?thesis .
qed

section \<open>Parsing what was formatted\<close>

lemma two_digits:
  assumes "n < 100"
  obtains a b where "zero_pad 2 n = [a, b]" "is_digit a" "is_digit b" "digits_value [a, b] = n"
proof -
  have "length (zero_pad 2 n) = 2" using zero_pad_length[of 2 n] assms by simp
  then obtain a b where "zero_pad 2 n = [a, b]" by (auto simp: eval_nat_numeral length_Suc_conv)
  then show thesis using that zero_pad_digits[of 2 n] zero_pad_value[of 2 n] by simp
qed

lemma getnum_pad: "n < 100 \<Longrightarrow> getnum fixed (zero_pad 2 n @ r) = Some (int n, r)"
  by (erule two_digits) (simp add: getnum_def)

lemma parse_year_pad: "n < 10000 \<Longrightarrow> parse_year (zero_pad 4 n @ r) = Some (int n, r)"
  using zero_pad_length[of 4 n] zero_pad_digits[of 4 n] by (simp add: parse_year_def)

lemma skip_char_Cons: "skip_char c (c # s) = Some s"
  by (simp add: skip_char_def)

lemma nat_digits_long: "10 ^ k \<le> n \<Longrightarrow> k < length (nat_digits n)"
proof (rule ccontr)
  assume n: "10 ^ k \<le> n" "\<not> k < length (nat_digits n)"
  have "n < 10 ^ length (nat_digits n)" using digits_value_bound[OF nat_digits_digits[of n]] by simp
  also have "\<dots> \<le> 10 ^ k" using n(2) by (intro power_increasing) auto
  finally show False using n(1) by simp
qed

lemma time_Parse_other_years:
  assumes "\<not> in_years c"
  shows "time_Parse (rfc3339_text c) = None"
proof -
  obtain y m d where D: "date_of_days (c div 86400) = (y, m, d)" by (rule prod_cases3)
  obtain r where r: "rfc3339_text c = appendInt y 4 @ r" by (simp add: rfc3339_text_def D Let_def)
  consider "y < 0" | "10000 \<le> y" using assms in_years_iff[OF D] by linarith
  then show ?thesis
  proof cases
    case 1
    then show ?thesis by (simp add: r appendInt_def time_Parse_def parse_year_def is_digit_def)
  next
    case 2
    let ?ds = "zero_pad 4 (nat y)"
    have "(10::nat) ^ 4 \<le> nat y" using 2 by simp
    then have "4 < length ?ds" using nat_digits_long[of 4 "nat y"] by (auto simp: zero_pad_def)
    then have ds: "?ds = take 4 ?ds @ ?ds ! 4 # drop 5 ?ds" "is_digit (?ds ! 4)"
      using id_take_nth_drop[of 4 ?ds] zero_pad_digits[of 4 "nat y"] by (simp_all add: list_all_length)
    have "parse_year (?ds @ r) = Some (int (digits_value (take 4 ?ds)), ?ds ! 4 # drop 5 ?ds @ r)"
    proof -
      have "drop 4 ?ds = ?ds ! 4 # drop 5 ?ds" using Cons_nth_drop_Suc[OF \<open>4 < length ?ds\<close>] by simp
      moreover have "list_all is_digit (take 4 ?ds)"
        using zero_pad_digits[of 4 "nat y"] by (metis append_take_drop_id list_all_append)
      ultimately show ?thesis using \<open>4 < length ?ds\<close> by (simp add: parse_year_def)
    qed
    moreover have "skip_char CHR ''-'' (?ds ! 4 # x) = None" for x using ds(2) by (auto simp: skip_char_def is_digit_def)
    ultimately show ?thesis using 2 by (simp add: r appendInt_def time_Parse_def)
  qed
qed

lemma time_Parse_rfc3339_text:
  "time_Parse (rfc3339_text c) = (if in_years c then Some (parse_rfc3339 c) else None)"
proof (cases "in_years c")
  case True
  obtain y m d where D: "date_of_days (c div 86400) = (y, m, d)" by (rule prod_cases3)
  define s where "s = c mod 86400"
  note f = rfc3339_fields[OF True D s_def]
  have b: "nat y < 10000" "nat m < 100" "nat d < 100" "nat (s div 3600) < 100" "int (nat y) = y" "int (nat m) = m" "int (nat d) = d"
    "int (nat (s div 3600)) = s div 3600"
    using f(2-11) daysIn_bounds(2)[of m y] by linarith+
  have b2: "nat (x mod 60) < 100" "int (nat (x mod 60)) = x mod 60" "in_range 0 59 (x mod 60) = Some ()" for x :: int
    using pos_mod_bound[of 60 x] pos_mod_sign[of 60 x] by (simp_all add: in_range_def del: pos_mod_bound pos_mod_sign)
  have e: "days_of_date y m d * 86400 + s div 3600 * 3600 + s div 60 mod 60 * 60 + s mod 60 = c"
    using clock_parts[of s] f(12) div_mult_mod_eq[of c 86400] unfolding s_def[symmetric] by linarith
  have rng: "in_range 1 12 m = Some ()" "in_range 0 23 (s div 3600) = Some ()" using f by (simp_all add: in_range_def)
  have "time_Parse (rfc3339_text c) = Some ((days_of_date y m d * 86400 + s div 3600 * 3600 + s div 60 mod 60 * 60 + s mod 60) * Second)"
    unfolding f(1) using f(2,4,6,7,10)
    by (simp add: time_Parse_def parse_year_pad getnum_pad skip_char_Cons b b2 rng parse_frac_def parse_zone_def)
  then show ?thesis unfolding e using True by (simp add: parse_rfc3339_def)
qed (simp add: time_Parse_other_years)

end
