(* ===== verification/Store_Types.thy ===== *)
theory Store_Types
  imports Rfc3339
begin

text \<open>
  The data of \<^verbatim>\<open>internal/store/store.go\<close> and \<^verbatim>\<open>internal/audit/log.go\<close>: the sentinel errors, Go
  error values with their wrapping (\<^verbatim>\<open>fmt.Errorf("...: %w", err)\<close>), \<^verbatim>\<open>errors.Is\<close>, the
  constraint classifier of \<^verbatim>\<open>errors.go\<close>, the canonical form of an email address
  (\<^verbatim>\<open>email.go\<close>), and the structs the stores return. Status and role values keep the type the code
  gives them, \<^verbatim>\<open>string\<close>: that a stored value is one of the declared constants is a theorem about
  the schema, not an assumption. A Go \<^verbatim>\<open>[]string\<close> is a \<open>string list option\<close>, where \<open>None\<close> is the
  nil slice.
\<close>

section \<open>Errors\<close>

datatype sentinel =
    ErrNoRows \<comment> \<open>\<^verbatim>\<open>sql.ErrNoRows\<close>\<close>
  | ErrNotFound
  | ErrRevoked
  | ErrComponentExists
  | ErrComponentNotFound
  | ErrAccountNotFound
  | ErrAccountEmailExists
  | ErrAccountInvalid
  | ErrInvalidStatusTransition
  | ErrLegacyAccountProtected
  | ErrOperatorNotFound
  | ErrOperatorExists
  | ErrOperatorInvalid
  | ErrOperatorSelfLockout
  | ErrSessionNotFound

fun sentinel_text :: "sentinel \<Rightarrow> string" where
  "sentinel_text ErrNoRows = ''sql: no rows in result set''"
| "sentinel_text ErrNotFound = ''key not found''"
| "sentinel_text ErrRevoked = ''key is revoked''"
| "sentinel_text ErrComponentExists = ''component already exists''"
| "sentinel_text ErrComponentNotFound = ''component not found''"
| "sentinel_text ErrAccountNotFound = ''account not found''"
| "sentinel_text ErrAccountEmailExists = ''account email already exists''"
| "sentinel_text ErrAccountInvalid = ''account input invalid''"
| "sentinel_text ErrInvalidStatusTransition = ''invalid account status transition''"
| "sentinel_text ErrLegacyAccountProtected = ''legacy account is protected''"
| "sentinel_text ErrOperatorNotFound = ''operator not found''"
| "sentinel_text ErrOperatorExists = ''operator email already exists''"
| "sentinel_text ErrOperatorInvalid = ''operator input invalid''"
| "sentinel_text ErrOperatorSelfLockout = ''operator update would leave zero active admins''"
| "sentinel_text ErrSessionNotFound = ''session not found''"

text \<open>
  A Go error value: a sentinel, an error the SQL driver reports (its text), a plain
  \<^verbatim>\<open>errors.New\<close>/\<^verbatim>\<open>fmt.Errorf\<close> text, or one of these wrapped by \<^verbatim>\<open>fmt.Errorf("op: %w", err)\<close>.
\<close>

datatype goerr = Sentinel sentinel | SqlErr string | Errorf string | Wrapf string goerr

text \<open>The loop over \<^verbatim>\<open>rows.Next()\<close>: the first row that does not scan ends it.\<close>

fun scan_rows :: "string \<Rightarrow> ('r \<Rightarrow> goerr + 'a) \<Rightarrow> 'r list \<Rightarrow> goerr + 'a list" where
  "scan_rows op scan [] = Inr []"
| "scan_rows op scan (r # rs) = (case scan r of
       Inl e \<Rightarrow> Inl (Wrapf op e)
     | Inr x \<Rightarrow> (case scan_rows op scan rs of Inl e \<Rightarrow> Inl e | Inr xs \<Rightarrow> Inr (x # xs)))"

lemma scan_rows_all: "(\<And>r. r \<in> set rs \<Longrightarrow> scan r = Inr (f r)) \<Longrightarrow> scan_rows op scan rs = Inr (map f rs)"
  by (induction rs) simp_all

fun err_Error :: "goerr \<Rightarrow> string" where
  "err_Error (Sentinel k) = sentinel_text k"
| "err_Error (SqlErr m) = m"
| "err_Error (Errorf m) = m"
| "err_Error (Wrapf op e) = op @ '': '' @ err_Error e"

fun errors_Is :: "goerr \<Rightarrow> sentinel \<Rightarrow> bool" where
  "errors_Is (Sentinel k) t = (k = t)"
| "errors_Is (SqlErr m) t = False"
| "errors_Is (Errorf m) t = False"
| "errors_Is (Wrapf op e) t = errors_Is e t"

text \<open>\<^verbatim>\<open>errors.go\<close>: a nil field of the map is \<open>None\<close>.\<close>

record constraintErrorMap =
  UniqueErr :: "sentinel option"
  ForeignErr :: "sentinel option"
  CheckErr :: "sentinel option"

definition classify :: "string \<Rightarrow> goerr \<Rightarrow> constraintErrorMap \<Rightarrow> goerr" where
  "classify op err m =
    (let msg = err_Error err in
     if strings_Contains msg ''UNIQUE constraint failed'' \<and> UniqueErr m \<noteq> None
       then Wrapf op (Sentinel (the (UniqueErr m)))
     else if strings_Contains msg ''FOREIGN KEY constraint failed'' \<and> ForeignErr m \<noteq> None
       then Wrapf op (Sentinel (the (ForeignErr m)))
     else if strings_Contains msg ''CHECK constraint failed'' \<and> CheckErr m \<noteq> None
       then Wrapf op (Sentinel (the (CheckErr m)))
     else Wrapf op err)"

definition classifyConstraintError :: "string \<Rightarrow> goerr \<Rightarrow> goerr" where
  "classifyConstraintError op err = classify op err
     \<lparr>UniqueErr = Some ErrAccountEmailExists, ForeignErr = Some ErrAccountNotFound,
      CheckErr = Some ErrAccountInvalid\<rparr>"

section \<open>Canonical email addresses\<close>

definition canonicalEmail :: "string \<Rightarrow> string" where
  "canonicalEmail s = strings_ToLower (strings_TrimSpace s)"

section \<open>Structs\<close>

record Key =
  Key_ID :: string
  Key_Component :: string
  Key_Active :: bool
  Key_Label :: string
  Key_CreatedAt :: go_time
  Key_ExpiresAt :: "go_time option"
  Key_UsageCount :: int
  Key_AccountID :: string

record Component =
  Comp_Name :: string
  Comp_Visibility :: string
  Comp_RPMSeries :: "string list option"
  Comp_RPMOSFamilies :: "string list option"
  Comp_RPMArchitectures :: "string list option"
  Comp_CreatedAt :: go_time

record ComponentPatch =
  Patch_Visibility :: "string option"
  Patch_RPMSeries :: "string list option option"
  Patch_RPMOSFamilies :: "string list option option"
  Patch_RPMArchitectures :: "string list option option"

definition IsEmpty :: "ComponentPatch \<Rightarrow> bool" where
  "IsEmpty p \<longleftrightarrow> Patch_Visibility p = None \<and> Patch_RPMSeries p = None \<and>
     Patch_RPMOSFamilies p = None \<and> Patch_RPMArchitectures p = None"

type_synonym AccountStatus = string

definition AccountStatusActive :: AccountStatus where "AccountStatusActive = ''active''"
definition AccountStatusSuspended :: AccountStatus where "AccountStatusSuspended = ''suspended''"
definition AccountStatusDeleted :: AccountStatus where "AccountStatusDeleted = ''deleted''"

record Account =
  Acc_ID :: string
  Acc_Email :: string
  Acc_OrgName :: string
  Acc_Status :: AccountStatus
  Acc_CreatedAt :: go_time
  Acc_CreatedByOperatorID :: string

record AccountInput =
  In_Email :: string
  In_OrgName :: string

record AccountUpdate =
  Upd_Email :: "string option"
  Upd_OrgName :: "string option"
  Upd_Status :: "AccountStatus option"

type_synonym OperatorRole = string
type_synonym OperatorStatus = string

definition OperatorRoleAdmin :: OperatorRole where "OperatorRoleAdmin = ''admin''"
definition OperatorRoleReadonly :: OperatorRole where "OperatorRoleReadonly = ''readonly''"
definition OperatorStatusActive :: OperatorStatus where "OperatorStatusActive = ''active''"
definition OperatorStatusDisabled :: OperatorStatus where "OperatorStatusDisabled = ''disabled''"

record Operator =
  Op_ID :: string
  Op_Email :: string
  Op_Role :: OperatorRole
  Op_Status :: OperatorStatus
  Op_AllowlistedAt :: go_time
  Op_AllowlistedBy :: string
  Op_LastLoginAt :: "go_time option"
  Op_GithubUsername :: string
  Op_MicrosoftUPN :: string
  Op_FirstSeenProvider :: string

record Session =
  Sess_ID :: string
  Sess_OperatorID :: string
  Sess_CreatedAt :: go_time
  Sess_LastSeenAt :: go_time
  Sess_ExpiresAt :: go_time
  Sess_IP :: string
  Sess_UserAgent :: string

record AuditFilter =
  Flt_OperatorID :: string
  Flt_Action :: string
  Flt_TargetType :: string
  Flt_TargetID :: string
  Flt_Since :: "go_time option"
  Flt_Until :: "go_time option"

text \<open>
  \<^verbatim>\<open>audit.Entry\<close>. The details are a \<^verbatim>\<open>map[string]any\<close> whose values are strings, integers or
  booleans at every call site; \<open>json.Marshal\<close> writes the keys in sorted order, so the map is kept
  as an association list in that order.
\<close>

datatype detail = DStr string | DInt int | DBool bool

record Entry =
  Ent_ID :: int
  Ent_Ts :: go_time
  Ent_OperatorID :: string
  Ent_Action :: string
  Ent_TargetType :: string
  Ent_TargetID :: string
  Ent_Details :: "(string \<times> detail) list"
  Ent_IP :: string
  Ent_UserAgent :: string

section \<open>Facts\<close>

lemmas status_defs =
  AccountStatusActive_def AccountStatusSuspended_def AccountStatusDeleted_def

lemmas role_defs =
  OperatorRoleAdmin_def OperatorRoleReadonly_def OperatorStatusActive_def OperatorStatusDisabled_def

lemma canonicalEmail_idem [simp]: "canonicalEmail (canonicalEmail s) = canonicalEmail s"
  by (simp add: canonicalEmail_def ToLower_TrimSpace)

lemma ToLower_canonicalEmail [simp]: "strings_ToLower (canonicalEmail s) = canonicalEmail s"
  by (simp add: canonicalEmail_def)

lemma canonicalEmail_case_insensitive:
  "strings_ToLower s = strings_ToLower t \<Longrightarrow> canonicalEmail s = canonicalEmail t"
  by (simp add: canonicalEmail_def ToLower_TrimSpace)

lemma errors_Is_unique: "errors_Is e k \<Longrightarrow> errors_Is e k' \<Longrightarrow> k = k'"
  by (induction e) auto

end
