(* ===== verification/Http.thy ===== *)
theory Http
  imports Store_Types
begin

text \<open>
  What the service uses of \<^verbatim>\<open>net/http\<close>, \<^verbatim>\<open>net/url\<close> and \<^verbatim>\<open>chi\<close>, and the request operator of
  \<^verbatim>\<open>internal/auth/operator.go\<close>.

  A request carries its method, path, headers (as \<^verbatim>\<open>Header.Get\<close> returns them: empty when absent),
  query values, cookies, body, route parameters, the credentials \<^verbatim>\<open>r.BasicAuth()\<close> decoded, and the
  operator the session middleware put into its context. A handler that decodes a JSON body takes
  the decoded value as an argument of option type, \<open>None\<close> standing for a decoding error. A
  handler returns its response: status code, headers and cookies set, and the value it encodes as
  JSON. The prose of error messages is left out, their codes are kept.
\<close>

section \<open>The operator of a request\<close>

type_synonym Role = string

definition RoleAdmin :: Role where "RoleAdmin = ''admin''"
definition RoleReadonly :: Role where "RoleReadonly = ''readonly''"

record auth_Operator =
  AO_ID :: string
  AO_Email :: string
  AO_Role :: Role

definition IsAdmin :: "auth_Operator \<Rightarrow> bool" where
  "IsAdmin opr \<longleftrightarrow> AO_Role opr = RoleAdmin"

section \<open>Requests\<close>

record request =
  Method :: string
  URL_Path :: string
  URL_RawPath :: string
  Header :: "string \<Rightarrow> string"
  Query :: "(string \<times> string list) list"
  Cookies :: "(string \<times> string) list"
  RemoteAddr :: string
  URLParam :: "string \<Rightarrow> string"
  BasicAuth :: "(string \<times> string) option"
  ReqBody :: string
  ctx_operator :: "auth_Operator option"

definition WithOperator :: "request \<Rightarrow> auth_Operator \<Rightarrow> request" where
  "WithOperator r opr = r\<lparr>ctx_operator := Some opr\<rparr>"

definition OperatorFromContext :: "request \<Rightarrow> auth_Operator option" where
  "OperatorFromContext r = ctx_operator r"

text \<open>\<^verbatim>\<open>url.Values.Get\<close>: the first value, or the empty string.\<close>

definition query_Get :: "request \<Rightarrow> string \<Rightarrow> string" where
  "query_Get r k = (case map_of (Query r) k of Some (v # _) \<Rightarrow> v | _ \<Rightarrow> [])"

text \<open>\<^verbatim>\<open>r.Cookie(name)\<close>: the first cookie of that name, or \<^verbatim>\<open>http.ErrNoCookie\<close>.\<close>

definition req_Cookie :: "request \<Rightarrow> string \<Rightarrow> string option" where
  "req_Cookie r name = map_of (Cookies r) name"

definition UserAgent :: "request \<Rightarrow> string" where
  "UserAgent r = Header r ''User-Agent''"

text \<open>The methods compared against.\<close>

definition is_read_method :: "string \<Rightarrow> bool" where
  "is_read_method m \<longleftrightarrow> m = ''GET'' \<or> m = ''HEAD'' \<or> m = ''OPTIONS''"

section \<open>URL encoding of query values\<close>

definition upper_hex :: "nat \<Rightarrow> char" where
  "upper_hex n = ''0123456789ABCDEF'' ! n"

definition unreserved :: "char \<Rightarrow> bool" where
  "unreserved c \<longleftrightarrow> (let n = (of_char c :: nat) in
     (48 \<le> n \<and> n \<le> 57) \<or> (65 \<le> n \<and> n \<le> 90) \<or> (97 \<le> n \<and> n \<le> 122)) \<or>
     c \<in> {CHR ''-'', CHR ''_'', CHR ''.'', CHR ''~''}"

text \<open>\<^verbatim>\<open>url.QueryEscape\<close>.\<close>

definition escape_char :: "char \<Rightarrow> string" where
  "escape_char c = (if unreserved c then [c] else if c = CHR '' '' then ''+''
     else [CHR ''%'', upper_hex ((of_char c :: nat) div 16), upper_hex ((of_char c :: nat) mod 16)])"

definition QueryEscape :: "string \<Rightarrow> string" where
  "QueryEscape s = concat (map escape_char s)"

fun join_with :: "string \<Rightarrow> string list \<Rightarrow> string" where
  "join_with sep [] = []"
| "join_with sep [x] = x"
| "join_with sep (x # y # ys) = x @ sep @ join_with sep (y # ys)"

text \<open>\<^verbatim>\<open>url.Values.Set\<close> and \<^verbatim>\<open>url.Values.Encode\<close>, which sorts by key.\<close>

definition values_Set :: "(string \<times> string list) list \<Rightarrow> string \<Rightarrow> string \<Rightarrow> (string \<times> string list) list" where
  "values_Set q k v = filter (\<lambda>(k', _). k' \<noteq> k) q @ [(k, [v])]"

definition values_Encode :: "(string \<times> string list) list \<Rightarrow> string" where
  "values_Encode q = join_with ''&''
     (concat (map (\<lambda>(k, vs). map (\<lambda>v. QueryEscape k @ ''='' @ QueryEscape v) vs) (sort_key fst q)))"

section \<open>Responses\<close>

record cookie =
  Ck_Name :: string
  Ck_Value :: string
  Ck_Path :: string
  Ck_MaxAge :: int
  Ck_Expires :: "go_time option"
  Ck_HttpOnly :: bool
  Ck_Secure :: bool
  Ck_SameSite :: string

text \<open>What a handler encodes as the response body. The second argument of \<open>JKey\<close> is the field
  \<^verbatim>\<open>component_visibility\<close> of \<^verbatim>\<open>keyResponse\<close>.\<close>

datatype payload =
    NoBody
  | ApiError string
  | JAccount Account
  | JAccounts "Account list"
  | JKey Key string
  | JKeys "(Key \<times> string) list"
  | JComponent Component
  | JComponents "Component list"
  | JComponentUpdate Component "string list"
  | JOperator Operator
  | JOperators "Operator list"
  | JEntries "Entry list"
  | JDeletePreview int
  | JComponentPreview int "string list option"
  | JKeysRevoked int
  | PlainText string

record response =
  Status :: nat
  RespHeaders :: "(string \<times> string) list"
  SetCookies :: "cookie list"
  Body :: payload

text \<open>\<^verbatim>\<open>w.WriteHeader(status)\<close> with an empty body, \<^verbatim>\<open>writeError\<close>, and a JSON value.\<close>

definition status_only :: "nat \<Rightarrow> response" where
  "status_only n = \<lparr>Status = n, RespHeaders = [], SetCookies = [], Body = NoBody\<rparr>"

definition writeError :: "nat \<Rightarrow> string \<Rightarrow> response" where
  "writeError n code = \<lparr>Status = n, RespHeaders = [(''Content-Type'', ''application/json'')],
     SetCookies = [], Body = ApiError code\<rparr>"

definition writeJSON :: "nat \<Rightarrow> payload \<Rightarrow> response" where
  "writeJSON n b = \<lparr>Status = n, RespHeaders = [(''Content-Type'', ''application/json'')],
     SetCookies = [], Body = b\<rparr>"

text \<open>\<^verbatim>\<open>http.Redirect(w, r, url, http.StatusFound)\<close>.\<close>

definition http_Redirect :: "string \<Rightarrow> response" where
  "http_Redirect url = \<lparr>Status = 302, RespHeaders = [(''Location'', url)], SetCookies = [], Body = NoBody\<rparr>"

text \<open>Headers and cookies set before the response is written.\<close>

definition with_cookie :: "cookie \<Rightarrow> response \<Rightarrow> response" where
  "with_cookie c w = w\<lparr>SetCookies := c # SetCookies w\<rparr>"

definition with_header :: "string \<Rightarrow> string \<Rightarrow> response \<Rightarrow> response" where
  "with_header k v w = w\<lparr>RespHeaders := (k, v) # RespHeaders w\<rparr>"

section \<open>Facts\<close>

lemma response_sel [simp]:
  "Status (status_only n) = n" "Status (writeError n code) = n" "Status (writeJSON n b) = n"
  "Status (http_Redirect url) = 302" "Status (with_cookie c w) = Status w"
  "Status (with_header k v w) = Status w" "Body (status_only n) = NoBody"
  "Body (writeError n code) = ApiError code" "Body (writeJSON n b) = b" "Body (with_cookie c w) = Body w"
  "Body (with_header k v w) = Body w" "SetCookies (with_cookie c w) = c # SetCookies w"
  "SetCookies (status_only n) = []" "SetCookies (writeError n code) = []" "SetCookies (writeJSON n b) = []"
  "SetCookies (with_header k v w) = SetCookies w" "SetCookies (http_Redirect url) = []"
  by (simp_all add: status_only_def writeError_def writeJSON_def http_Redirect_def with_cookie_def with_header_def)

lemma OperatorFromContext_WithOperator [simp]: "OperatorFromContext (WithOperator r opr) = Some opr"
  by (simp add: OperatorFromContext_def WithOperator_def)

lemma WithOperator_sel [simp]:
  "Method (WithOperator r opr) = Method r" "URL_Path (WithOperator r opr) = URL_Path r"
  "Header (WithOperator r opr) = Header r" "Cookies (WithOperator r opr) = Cookies r"
  "URLParam (WithOperator r opr) = URLParam r" "Query (WithOperator r opr) = Query r"
  by (simp_all add: WithOperator_def)

lemmas auth_role_defs = RoleAdmin_def RoleReadonly_def IsAdmin_def

end
