(* ===== verification/Sql_Schema.thy ===== *)
theory Sql_Schema
  imports Store_Types
begin

text \<open>
  The database of \<^verbatim>\<open>internal/store/sqlite.go\<close>: one row record per table of the \<^verbatim>\<open>schema\<close> string, a
  table as the list of its rows in insertion order, the \<^verbatim>\<open>PRIMARY KEY\<close>, \<^verbatim>\<open>UNIQUE\<close>, \<^verbatim>\<open>CHECK\<close> and
  foreign-key constraints as the conditions under which a statement is refused, and the texts
  SQLite reports for a refused statement, which \<^verbatim>\<open>errors.go\<close> searches. A nullable column has an
  option type. A column that holds the JSON text of a value is modelled by that value.

  A statement runs as \<open>sql_stmt\<close>: it takes the next number of the fault schedule and either fails
  with the scheduled driver error, leaving the tables alone, or acts on the tables. A transaction
  \<open>sql_tx\<close> is \<^verbatim>\<open>BeginTx\<close> ... \<^verbatim>\<open>Commit\<close> with the deferred \<^verbatim>\<open>Rollback\<close>: any error return of the
  body, and a failed commit, restore the tables of its start. With
  \<^verbatim>\<open>db.SetMaxOpenConns(1)\<close> statements and transactions of concurrent requests never overlap, so each
  is one atomic step.
\<close>

section \<open>Rows and tables\<close>

record account_row =
  ac_id :: string
  ac_email :: string
  ac_org_name :: "string option"
  ac_status :: string
  ac_created_at :: int
  ac_created_by_operator_id :: string

record operator_row =
  op_id :: string
  op_email :: string
  op_role :: string
  op_status :: string
  op_allowlisted_at :: int
  op_allowlisted_by :: "string option"
  op_last_login_at :: "int option"
  op_github_username :: "string option"
  op_microsoft_upn :: "string option"
  op_first_seen_provider :: "string option"

record session_row =
  se_id :: string
  se_operator_id :: string
  se_created_at :: int
  se_last_seen_at :: int
  se_expires_at :: int
  se_ip :: "string option"
  se_user_agent :: "string option"

record audit_row =
  au_id :: int
  au_ts :: int
  au_operator_id :: "string option"
  au_action :: string
  au_target_type :: "string option"
  au_target_id :: "string option"
  au_details :: "(string \<times> detail) list"
  au_ip :: "string option"
  au_user_agent :: "string option"

record key_row =
  k_id :: string
  k_component :: string
  k_label :: string
  k_active :: int
  k_created_at :: int
  k_expires_at :: "int option"
  k_usage_count :: int
  k_account_id :: string

record component_row =
  co_name :: string
  co_visibility :: string
  co_rpm_series :: "string list option"
  co_rpm_os_families :: "string list option"
  co_rpm_architectures :: "string list option"
  co_created_at :: int

text \<open>\<open>audit_seq\<close> is the counter behind \<^verbatim>\<open>AUTOINCREMENT\<close>: the largest id ever given out.\<close>

record tables =
  accounts :: "account_row list"
  operators :: "operator_row list"
  sessions :: "session_row list"
  audit_log :: "audit_row list"
  audit_seq :: int
  subscription_key :: "key_row list"
  components :: "component_row list"

record store = env +
  db :: tables

definition legacyAccountID :: string where
  "legacyAccountID = ''legacy''"

section \<open>SQL expressions of the schema\<close>

text \<open>\<^verbatim>\<open>lower(x)\<close> of SQLite: ASCII only.\<close>

definition sql_lower :: "string \<Rightarrow> string" where
  "sql_lower s = map ascii_lower s"

text \<open>\<^verbatim>\<open>s LIKE pattern\<close>: \<^verbatim>\<open>%\<close> matches any sequence, \<^verbatim>\<open>_\<close> one character, letters match in either case.\<close>

fun sql_like :: "string \<Rightarrow> string \<Rightarrow> bool" where
  "sql_like [] [] = True"
| "sql_like [] (c # cs) = False"
| "sql_like (p # ps) [] = (p = CHR ''%'' \<and> sql_like ps [])"
| "sql_like (p # ps) (c # cs) =
     (if p = CHR ''%'' then sql_like ps (c # cs) \<or> sql_like (p # ps) cs
      else (p = CHR ''_'' \<or> ascii_lower p = ascii_lower c) \<and> sql_like ps cs)"

definition email_check :: "string \<Rightarrow> bool" where
  "email_check e \<longleftrightarrow> e \<noteq> [] \<and> e = sql_lower e \<and> sql_like ''%_@_%'' e"

definition account_status_check :: "string \<Rightarrow> bool" where
  "account_status_check st \<longleftrightarrow> st = ''active'' \<or> st = ''suspended'' \<or> st = ''deleted''"

definition operator_role_check :: "string \<Rightarrow> bool" where
  "operator_role_check r \<longleftrightarrow> r = ''admin'' \<or> r = ''readonly''"

definition operator_status_check :: "string \<Rightarrow> bool" where
  "operator_status_check st \<longleftrightarrow> st = ''active'' \<or> st = ''disabled''"

text \<open>\<^verbatim>\<open>NULL IN (...)\<close> is \<^verbatim>\<open>NULL\<close>, which satisfies a \<^verbatim>\<open>CHECK\<close>.\<close>

definition provider_check :: "string option \<Rightarrow> bool" where
  "provider_check p \<longleftrightarrow> p = None \<or> p = Some ''github'' \<or> p = Some ''microsoft''"

definition visibility_check :: "string \<Rightarrow> bool" where
  "visibility_check v \<longleftrightarrow> v = ''public'' \<or> v = ''private''"

definition account_check :: "account_row \<Rightarrow> bool" where
  "account_check r \<longleftrightarrow> email_check (ac_email r) \<and> account_status_check (ac_status r)"

definition operator_check :: "operator_row \<Rightarrow> bool" where
  "operator_check r \<longleftrightarrow> email_check (op_email r) \<and> operator_role_check (op_role r) \<and>
     operator_status_check (op_status r) \<and> provider_check (op_first_seen_provider r)"

text \<open>The texts of refused statements.\<close>

definition unique_failed :: "string \<Rightarrow> string" where
  "unique_failed col = ''constraint failed: UNIQUE constraint failed: '' @ col @ '' (2067)''"

definition foreign_key_failed :: string where
  "foreign_key_failed = ''constraint failed: FOREIGN KEY constraint failed (787)''"

definition check_failed :: "string \<Rightarrow> string" where
  "check_failed what = ''constraint failed: CHECK constraint failed: '' @ what @ '' (275)''"

section \<open>Statements\<close>

type_synonym 'a stmt = "tables \<Rightarrow> string + ('a \<times> tables)"

definition update_rows :: "('r \<Rightarrow> bool) \<Rightarrow> ('r \<Rightarrow> 'r) \<Rightarrow> 'r list \<Rightarrow> 'r list" where
  "update_rows p g rs = map (\<lambda>r. if p r then g r else r) rs"

definition count_rows :: "('r \<Rightarrow> bool) \<Rightarrow> 'r list \<Rightarrow> int" where
  "count_rows p rs = int (length (filter p rs))"

text \<open>\<^verbatim>\<open>INSERT INTO accounts\<close>: \<^verbatim>\<open>CHECK\<close> first, then the primary key, then the unique email index.\<close>

definition insert_account :: "account_row \<Rightarrow> unit stmt" where
  "insert_account r t =
    (if \<not> account_check r then Inl (check_failed ''accounts'')
     else if ac_id r \<in> ac_id ` set (accounts t) then Inl (unique_failed ''accounts.id'')
     else if ac_email r \<in> ac_email ` set (accounts t) then Inl (unique_failed ''accounts.email'')
     else Inr ((), t\<lparr>accounts := accounts t @ [r]\<rparr>))"

text \<open>\<^verbatim>\<open>UPDATE accounts SET ... WHERE id = ? RETURNING ...\<close>: the updated row, \<^verbatim>\<open>None\<close> if no row matches.\<close>

definition update_account :: "string \<Rightarrow> (account_row \<Rightarrow> account_row) \<Rightarrow> (account_row option) stmt" where
  "update_account i g t =
    (case find (\<lambda>r. ac_id r = i) (accounts t) of
       None \<Rightarrow> Inr (None, t)
     | Some r \<Rightarrow>
        if \<not> account_check (g r) then Inl (check_failed ''accounts'')
        else if ac_email (g r) \<in> ac_email ` {q \<in> set (accounts t). ac_id q \<noteq> i}
          then Inl (unique_failed ''accounts.email'')
        else Inr (Some (g r), t\<lparr>accounts := update_rows (\<lambda>q. ac_id q = i) g (accounts t)\<rparr>))"

definition insert_operator :: "operator_row \<Rightarrow> unit stmt" where
  "insert_operator r t =
    (if \<not> operator_check r then Inl (check_failed ''operators'')
     else if op_id r \<in> op_id ` set (operators t) then Inl (unique_failed ''operators.id'')
     else if op_email r \<in> op_email ` set (operators t) then Inl (unique_failed ''operators.email'')
     else Inr ((), t\<lparr>operators := operators t @ [r]\<rparr>))"

text \<open>\<^verbatim>\<open>UPDATE operators SET ... WHERE p\<close>, for columns without a unique index: the number of rows.\<close>

definition update_operators :: "(operator_row \<Rightarrow> bool) \<Rightarrow> (operator_row \<Rightarrow> operator_row) \<Rightarrow> int stmt" where
  "update_operators p g t =
    (if list_ex (\<lambda>r. p r \<and> \<not> operator_check (g r)) (operators t) then Inl (check_failed ''operators'')
     else Inr (count_rows p (operators t), t\<lparr>operators := update_rows p g (operators t)\<rparr>))"

definition insert_session :: "session_row \<Rightarrow> unit stmt" where
  "insert_session r t =
    (if se_id r \<in> se_id ` set (sessions t) then Inl (unique_failed ''sessions.id'')
     else if se_operator_id r \<notin> op_id ` set (operators t) then Inl foreign_key_failed
     else Inr ((), t\<lparr>sessions := sessions t @ [r]\<rparr>))"

definition update_sessions :: "(session_row \<Rightarrow> bool) \<Rightarrow> (session_row \<Rightarrow> session_row) \<Rightarrow> int stmt" where
  "update_sessions p g t =
    Inr (count_rows p (sessions t), t\<lparr>sessions := update_rows p g (sessions t)\<rparr>)"

definition delete_sessions :: "(session_row \<Rightarrow> bool) \<Rightarrow> int stmt" where
  "delete_sessions p t =
    Inr (count_rows p (sessions t), t\<lparr>sessions := filter (\<lambda>r. \<not> p r) (sessions t)\<rparr>)"

definition insert_audit :: "audit_row \<Rightarrow> unit stmt" where
  "insert_audit r t =
    Inr ((), t\<lparr>audit_log := audit_log t @ [r\<lparr>au_id := audit_seq t + 1\<rparr>], audit_seq := audit_seq t + 1\<rparr>)"

definition insert_key :: "key_row \<Rightarrow> unit stmt" where
  "insert_key r t =
    (if k_id r \<in> k_id ` set (subscription_key t) then Inl (unique_failed ''subscription_key.id'')
     else if k_account_id r \<notin> ac_id ` set (accounts t) then Inl foreign_key_failed
     else Inr ((), t\<lparr>subscription_key := subscription_key t @ [r]\<rparr>))"

text \<open>\<^verbatim>\<open>UPDATE subscription_key SET ... WHERE p\<close>, for the columns \<^verbatim>\<open>active\<close> and \<^verbatim>\<open>usage_count\<close>.\<close>

definition update_keys :: "(key_row \<Rightarrow> bool) \<Rightarrow> (key_row \<Rightarrow> key_row) \<Rightarrow> int stmt" where
  "update_keys p g t =
    Inr (count_rows p (subscription_key t),
         t\<lparr>subscription_key := update_rows p g (subscription_key t)\<rparr>)"

definition insert_component :: "component_row \<Rightarrow> unit stmt" where
  "insert_component r t =
    (if \<not> visibility_check (co_visibility r) then Inl (check_failed ''components'')
     else if co_name r \<in> co_name ` set (components t) then Inl (unique_failed ''components.name'')
     else Inr ((), t\<lparr>components := components t @ [r]\<rparr>))"

definition update_component :: "string \<Rightarrow> (component_row \<Rightarrow> component_row) \<Rightarrow> (component_row option) stmt" where
  "update_component n g t =
    (case find (\<lambda>r. co_name r = n) (components t) of
       None \<Rightarrow> Inr (None, t)
     | Some r \<Rightarrow>
        if \<not> visibility_check (co_visibility (g r)) then Inl (check_failed ''components'')
        else Inr (Some (g r), t\<lparr>components := update_rows (\<lambda>q. co_name q = n) g (components t)\<rparr>))"

definition delete_component :: "string \<Rightarrow> int stmt" where
  "delete_component n t =
    Inr (count_rows (\<lambda>r. co_name r = n) (components t),
         t\<lparr>components := filter (\<lambda>r. co_name r \<noteq> n) (components t)\<rparr>)"

text \<open>\<^verbatim>\<open>LIMIT ? OFFSET ?\<close> on the ordered rows; a negative \<^verbatim>\<open>LIMIT\<close> is no limit, a negative \<^verbatim>\<open>OFFSET\<close> is 0.\<close>

definition sql_page :: "int \<Rightarrow> int \<Rightarrow> 'r list \<Rightarrow> 'r list" where
  "sql_page limit offset rs =
    (let rest = drop (nat offset) rs in if limit < 0 then rest else take (nat limit) rest)"

section \<open>Execution\<close>

definition sql_stmt :: "'a stmt \<Rightarrow> ('z store_scheme, goerr + 'a) state" where
  "sql_stmt f = State (\<lambda>s.
     let s' = s\<lparr>stmts := Suc (stmts s)\<rparr> in
     case fault s (stmts s) of
       Some msg \<Rightarrow> (Inl (SqlErr msg), s')
     | None \<Rightarrow> (case f (db s) of Inl msg \<Rightarrow> (Inl (SqlErr msg), s')
                              | Inr (a, t) \<Rightarrow> (Inr a, s'\<lparr>db := t\<rparr>)))"

text \<open>\<^verbatim>\<open>QueryContext\<close> and its row loop.\<close>

definition sql_query :: "(tables \<Rightarrow> 'a) \<Rightarrow> ('z store_scheme, goerr + 'a) state" where
  "sql_query q = sql_stmt (\<lambda>t. Inr (q t, t))"

text \<open>\<^verbatim>\<open>QueryRowContext(...).Scan\<close>: \<^verbatim>\<open>sql.ErrNoRows\<close> when the result is empty.\<close>

definition row_result :: "goerr + 'a option \<Rightarrow> goerr + 'a" where
  "row_result r = (case r of Inl e \<Rightarrow> Inl e | Inr None \<Rightarrow> Inl (Sentinel ErrNoRows) | Inr (Some x) \<Rightarrow> Inr x)"

definition sql_query_row :: "(tables \<Rightarrow> 'a option) \<Rightarrow> ('z store_scheme, goerr + 'a) state" where
  "sql_query_row q = do { r \<leftarrow> sql_query q; State_Monad.return (row_result r) }"

definition set_db :: "tables \<Rightarrow> ('z store_scheme, unit) state" where
  "set_db t = State (\<lambda>s. ((), s\<lparr>db := t\<rparr>))"

text \<open>\<^verbatim>\<open>BeginTx\<close>, the body, \<^verbatim>\<open>Commit\<close>, and \<^verbatim>\<open>defer tx.Rollback()\<close>.\<close>

definition sql_tx ::
  "string \<Rightarrow> string \<Rightarrow> ('z store_scheme, goerr + 'a) state \<Rightarrow> ('z store_scheme, goerr + 'a) state" where
  "sql_tx begin_op commit_op body = do {
     b \<leftarrow> sql_stmt (\<lambda>t. Inr ((), t));
     case b of
       Inl e \<Rightarrow> State_Monad.return (Inl (Wrapf begin_op e))
     | Inr _ \<Rightarrow> do {
         s0 \<leftarrow> State_Monad.get;
         r \<leftarrow> body;
         case r of
           Inl e \<Rightarrow> do { _ \<leftarrow> set_db (db s0); State_Monad.return (Inl e) }
         | Inr x \<Rightarrow> do {
             c \<leftarrow> sql_stmt (\<lambda>t. Inr ((), t));
             case c of
               Inl e \<Rightarrow> do { _ \<leftarrow> set_db (db s0); State_Monad.return (Inl (Wrapf commit_op e)) }
             | Inr _ \<Rightarrow> State_Monad.return (Inr x) } } }"

text \<open>A transaction whose body may also return early without committing, which rolls back and is no error.\<close>

definition sql_tx_maybe ::
  "string \<Rightarrow> string \<Rightarrow> ('z store_scheme, goerr + 'a option) state \<Rightarrow> ('z store_scheme, goerr + 'a option) state" where
  "sql_tx_maybe begin_op commit_op body = do {
     b \<leftarrow> sql_stmt (\<lambda>t. Inr ((), t));
     case b of
       Inl e \<Rightarrow> State_Monad.return (Inl (Wrapf begin_op e))
     | Inr _ \<Rightarrow> do {
         s0 \<leftarrow> State_Monad.get;
         r \<leftarrow> body;
         case r of
           Inl e \<Rightarrow> do { _ \<leftarrow> set_db (db s0); State_Monad.return (Inl e) }
         | Inr None \<Rightarrow> do { _ \<leftarrow> set_db (db s0); State_Monad.return (Inr None) }
         | Inr (Some x) \<Rightarrow> do {
             c \<leftarrow> sql_stmt (\<lambda>t. Inr ((), t));
             case c of
               Inl e \<Rightarrow> do { _ \<leftarrow> set_db (db s0); State_Monad.return (Inl (Wrapf commit_op e)) }
             | Inr _ \<Rightarrow> State_Monad.return (Inr (Some x)) } } }"

section \<open>The schema invariant\<close>

definition accounts_ok :: "account_row list \<Rightarrow> bool" where
  "accounts_ok rs \<longleftrightarrow> distinct (map ac_id rs) \<and> distinct (map ac_email rs) \<and> list_all account_check rs"

definition operators_ok :: "operator_row list \<Rightarrow> bool" where
  "operators_ok rs \<longleftrightarrow> distinct (map op_id rs) \<and> distinct (map op_email rs) \<and> list_all operator_check rs"

definition sessions_ok :: "operator_row list \<Rightarrow> session_row list \<Rightarrow> bool" where
  "sessions_ok ops rs \<longleftrightarrow> distinct (map se_id rs) \<and> list_all (\<lambda>r. se_operator_id r \<in> op_id ` set ops) rs"

definition key_ok :: "key_row \<Rightarrow> bool" where
  "key_ok r \<longleftrightarrow> (k_active r = 0 \<or> k_active r = 1) \<and> 0 \<le> k_usage_count r"

definition keys_ok :: "account_row list \<Rightarrow> key_row list \<Rightarrow> bool" where
  "keys_ok accs rs \<longleftrightarrow> distinct (map k_id rs) \<and>
     list_all (\<lambda>r. k_account_id r \<in> ac_id ` set accs \<and> key_ok r) rs"

definition components_ok :: "component_row list \<Rightarrow> bool" where
  "components_ok rs \<longleftrightarrow> distinct (map co_name rs) \<and> list_all (\<lambda>r. visibility_check (co_visibility r)) rs"

definition audit_ok :: "int \<Rightarrow> audit_row list \<Rightarrow> bool" where
  "audit_ok n rs \<longleftrightarrow> sorted_wrt (\<lambda>a b. au_id a < au_id b) rs \<and> list_all (\<lambda>r. au_id r \<le> n) rs"

text \<open>The legacy account, the foreign-key target of pre-account keys, exists and is active.\<close>

definition legacy_ok :: "account_row list \<Rightarrow> bool" where
  "legacy_ok rs \<longleftrightarrow> list_ex (\<lambda>r. ac_id r = legacyAccountID \<and> ac_status r = ''active'') rs"

definition tables_ok :: "tables \<Rightarrow> bool" where
  "tables_ok t \<longleftrightarrow> accounts_ok (accounts t) \<and> operators_ok (operators t) \<and>
     sessions_ok (operators t) (sessions t) \<and> keys_ok (accounts t) (subscription_key t) \<and>
     components_ok (components t) \<and> audit_ok (audit_seq t) (audit_log t) \<and> legacy_ok (accounts t)"

abbreviation db_ok :: "'z store_scheme \<Rightarrow> bool" where
  "db_ok s \<equiv> tables_ok (db s)"

section \<open>Facts about statements\<close>

text \<open>A statement refines a table predicate if every successful run keeps it.\<close>

definition stmt_keeps :: "(tables \<Rightarrow> bool) \<Rightarrow> 'a stmt \<Rightarrow> bool" where
  "stmt_keeps I f \<longleftrightarrow> (\<forall>t a t'. I t \<longrightarrow> f t = Inr (a, t') \<longrightarrow> I t')"

lemma stmt_keepsI: "(\<And>t a t'. I t \<Longrightarrow> f t = Inr (a, t') \<Longrightarrow> I t') \<Longrightarrow> stmt_keeps I f"
  by (auto simp: stmt_keeps_def)

lemma run_sql_stmt:
  "run_state (sql_stmt f) s =
    (case fault s (stmts s) of
       Some msg \<Rightarrow> (Inl (SqlErr msg), s\<lparr>stmts := Suc (stmts s)\<rparr>)
     | None \<Rightarrow> (case f (db s) of
         Inl msg \<Rightarrow> (Inl (SqlErr msg), s\<lparr>stmts := Suc (stmts s)\<rparr>)
       | Inr (a, t) \<Rightarrow> (Inr a, s\<lparr>stmts := Suc (stmts s), db := t\<rparr>)))"
  by (simp add: sql_stmt_def Let_def)

lemma preserves_sql_stmt [pres_rules]:
  "stmt_keeps I f \<Longrightarrow> preserves (\<lambda>s. I (db s)) (sql_stmt f)"
  by (auto simp: preserves_def run_sql_stmt stmt_keeps_def split: option.splits sum.splits)

lemma run_sql_query:
  "run_state (sql_query q) s =
    (case fault s (stmts s) of Some msg \<Rightarrow> Inl (SqlErr msg) | None \<Rightarrow> Inr (q (db s)),
     s\<lparr>stmts := Suc (stmts s)\<rparr>)"
  by (simp add: sql_query_def run_sql_stmt split: option.splits)

lemma run_sql_query_row:
  "run_state (sql_query_row q) s =
    (case fault s (stmts s) of Some msg \<Rightarrow> Inl (SqlErr msg)
       | None \<Rightarrow> (case q (db s) of None \<Rightarrow> Inl (Sentinel ErrNoRows) | Some x \<Rightarrow> Inr x),
     s\<lparr>stmts := Suc (stmts s)\<rparr>)"
  by (simp add: sql_query_row_def run_sql_query row_result_def split: option.splits)

lemma run_set_db [run_simps]: "run_state (set_db t) s = ((), s\<lparr>db := t\<rparr>)"
  by (simp add: set_db_def)

lemmas sql_run = run_sql_stmt run_sql_query run_sql_query_row run_set_db

text \<open>Queries change nothing but the statement counter.\<close>

lemma keeps_sql_query [keep_rules]:
  "(\<And>s n. f (s\<lparr>stmts := n\<rparr>) = f s) \<Longrightarrow> keeps f (sql_query q)"
  by (simp add: keeps_def run_sql_query)

lemma keeps_sql_query_row [keep_rules]:
  "(\<And>s n. f (s\<lparr>stmts := n\<rparr>) = f s) \<Longrightarrow> keeps f (sql_query_row q)"
  by (simp add: keeps_def run_sql_query_row)

lemma preserves_sql_query [pres_rules]: "preserves (\<lambda>s. I (db s)) (sql_query q)"
  by (rule keeps_preserves) (simp add: keep_rules)

lemma preserves_sql_query_row [pres_rules]: "preserves (\<lambda>s. I (db s)) (sql_query_row q)"
  by (rule keeps_preserves) (simp add: keep_rules)

lemma preserves_db_time_Now [pres_rules]: "preserves (\<lambda>s. I (db s)) time_Now"
  by (rule keeps_preserves) (simp add: keep_rules)

lemma preserves_db_rand_Read [pres_rules]: "preserves (\<lambda>s. I (db s)) (rand_Read n)"
  by (rule keeps_preserves) (simp add: keep_rules)

text \<open>A transaction whose body preserves a table predicate preserves it, and one that returns an
  error leaves the tables exactly as they were.\<close>

lemma run_sql_tx:
  "run_state (sql_tx bo co body) s =
    (let s1 = s\<lparr>stmts := Suc (stmts s)\<rparr> in
     case fault s (stmts s) of
       Some msg \<Rightarrow> (Inl (Wrapf bo (SqlErr msg)), s1)
     | None \<Rightarrow> (case run_state body s1 of
         (Inl e, s2) \<Rightarrow> (Inl e, s2\<lparr>db := db s\<rparr>)
       | (Inr x, s2) \<Rightarrow> (let s3 = s2\<lparr>stmts := Suc (stmts s2)\<rparr> in
           case fault s2 (stmts s2) of
             Some msg \<Rightarrow> (Inl (Wrapf co (SqlErr msg)), s3\<lparr>db := db s\<rparr>)
           | None \<Rightarrow> (Inr x, s3))))"
  by (simp add: sql_tx_def run_sql_stmt Let_def run_set_db split: option.splits prod.splits sum.splits)

lemma preserves_sql_tx [pres_rules]:
  assumes "preserves (\<lambda>s. I (db s)) body"
  shows "preserves (\<lambda>s. I (db s)) (sql_tx bo co body)"
proof (rule preservesI)
  fix s :: "'a store_scheme"
  assume I: "I (db s)"
  then have "I (db (snd (run_state body (s\<lparr>stmts := Suc (stmts s)\<rparr>))))"
    using preservesD[OF assms, of "s\<lparr>stmts := Suc (stmts s)\<rparr>"] by simp
  with I show "I (db (snd (run_state (sql_tx bo co body) s)))"
    by (auto simp: run_sql_tx Let_def split: option.splits prod.splits sum.splits)
qed

text \<open>Programs that leave one part of the tables alone.\<close>

lemma keeps_table_stmt: "(\<And>t a t'. f t = Inr (a, t') \<Longrightarrow> F t' = F t) \<Longrightarrow> keeps (\<lambda>s. F (db s)) (sql_stmt f)"
  by (auto simp: keeps_def run_sql_stmt split: option.splits sum.splits)

lemma keeps_table_tx: "keeps (\<lambda>s. F (db s)) body \<Longrightarrow> keeps (\<lambda>s. F (db s)) (sql_tx bo co body)"
proof (rule keepsI)
  fix s :: "'a store_scheme"
  assume "keeps (\<lambda>s. F (db s)) body"
  from keepsD[OF this, of "s\<lparr>stmts := Suc (stmts s)\<rparr>"]
  show "F (db (snd (run_state (sql_tx bo co body) s))) = F (db s)"
    by (auto simp: run_sql_tx Let_def split: option.splits prod.splits sum.splits)
qed

lemma sql_tx_atomic:
  "run_state (sql_tx bo co body) s = (Inl e, s') \<Longrightarrow> db s' = db s"
  by (auto simp: run_sql_tx Let_def split: option.splits prod.splits sum.splits)

lemma run_sql_tx_maybe:
  "run_state (sql_tx_maybe bo co body) s =
    (let s1 = s\<lparr>stmts := Suc (stmts s)\<rparr> in
     case fault s (stmts s) of
       Some msg \<Rightarrow> (Inl (Wrapf bo (SqlErr msg)), s1)
     | None \<Rightarrow> (case run_state body s1 of
         (Inl e, s2) \<Rightarrow> (Inl e, s2\<lparr>db := db s\<rparr>)
       | (Inr None, s2) \<Rightarrow> (Inr None, s2\<lparr>db := db s\<rparr>)
       | (Inr (Some x), s2) \<Rightarrow> (let s3 = s2\<lparr>stmts := Suc (stmts s2)\<rparr> in
           case fault s2 (stmts s2) of
             Some msg \<Rightarrow> (Inl (Wrapf co (SqlErr msg)), s3\<lparr>db := db s\<rparr>)
           | None \<Rightarrow> (Inr (Some x), s3))))"
  by (simp add: sql_tx_maybe_def run_sql_stmt Let_def run_set_db split: option.splits prod.splits sum.splits)

lemma preserves_sql_tx_maybe [pres_rules]:
  assumes "preserves (\<lambda>s. I (db s)) body"
  shows "preserves (\<lambda>s. I (db s)) (sql_tx_maybe bo co body)"
proof (rule preservesI)
  fix s :: "'a store_scheme"
  assume s: "I (db s)"
  obtain r s2 where run: "run_state body (s\<lparr>stmts := Suc (stmts s)\<rparr>) = (r, s2)" by fastforce
  have "I (db s2)" using preservesD[OF assms, of "s\<lparr>stmts := Suc (stmts s)\<rparr>"] s run by simp
  with s run show "I (db (snd (run_state (sql_tx_maybe bo co body) s)))"
    by (auto simp: run_sql_tx_maybe Let_def split: option.splits sum.splits)
qed

section \<open>Every statement keeps the schema invariant\<close>

lemma update_rows_set: "set (update_rows p g rs) = g ` {r \<in> set rs. p r} \<union> {r \<in> set rs. \<not> p r}"
  by (auto simp: update_rows_def)

lemma update_rows_Nil [simp]: "update_rows p g [] = []"
  by (simp add: update_rows_def)

lemma update_rows_Cons [simp]:
  "update_rows p g (x # xs) = (if p x then g x else x) # update_rows p g xs"
  by (simp add: update_rows_def)

lemma map_update_rows: "(\<And>r. f (g r) = f r) \<Longrightarrow> map f (update_rows p g rs) = map f rs"
  by (simp add: update_rows_def)

lemma image_update_rows: "(\<And>r. f (g r) = f r) \<Longrightarrow> f ` set (update_rows p g rs) = f ` set rs"
  by (metis list.set_map map_update_rows)

lemma insert_account_ok: "stmt_keeps tables_ok (insert_account r)"
  by (rule stmt_keepsI)
    (auto simp: insert_account_def tables_ok_def accounts_ok_def keys_ok_def legacy_ok_def list_all_iff
      list_ex_iff split: if_splits)

lemma insert_operator_ok: "stmt_keeps tables_ok (insert_operator r)"
  by (rule stmt_keepsI)
    (auto simp: insert_operator_def tables_ok_def operators_ok_def sessions_ok_def list_all_iff
      split: if_splits)

lemma insert_session_ok: "stmt_keeps tables_ok (insert_session r)"
  by (rule stmt_keepsI)
    (auto simp: insert_session_def tables_ok_def sessions_ok_def list_all_iff split: if_splits)

lemma insert_key_ok: "key_ok r \<Longrightarrow> stmt_keeps tables_ok (insert_key r)"
  by (rule stmt_keepsI)
    (auto simp: insert_key_def tables_ok_def keys_ok_def list_all_iff split: if_splits)

lemma insert_component_ok: "stmt_keeps tables_ok (insert_component r)"
  by (rule stmt_keepsI)
    (auto simp: insert_component_def tables_ok_def components_ok_def list_all_iff split: if_splits)

lemma insert_audit_ok: "stmt_keeps tables_ok (insert_audit r)"
  by (rule stmt_keepsI)
    (fastforce simp: insert_audit_def tables_ok_def audit_ok_def list_all_iff sorted_wrt_append)

lemma update_operators_ok:
  assumes "\<And>r. op_id (g r) = op_id r" "\<And>r. op_email (g r) = op_email r"
  shows "stmt_keeps tables_ok (update_operators p g)"
proof (rule stmt_keepsI)
  fix t a t'
  assume ok: "tables_ok t" and run: "update_operators p g t = Inr (a, t')"
  then have t': "t' = t\<lparr>operators := update_rows p g (operators t)\<rparr>"
    and chk: "\<forall>r \<in> set (operators t). p r \<longrightarrow> operator_check (g r)"
    by (auto simp: update_operators_def list_ex_iff split: if_splits)
  have "operators_ok (update_rows p g (operators t))"
    using ok chk by (auto simp: tables_ok_def operators_ok_def map_update_rows assms list_all_iff
        update_rows_set)
  with ok show "tables_ok t'"
    by (simp add: t' tables_ok_def sessions_ok_def image_update_rows assms)
qed

lemma update_keys_ok:
  assumes "\<And>r. k_id (g r) = k_id r" "\<And>r. k_account_id (g r) = k_account_id r"
    "\<And>r. key_ok r \<Longrightarrow> key_ok (g r)"
  shows "stmt_keeps tables_ok (update_keys p g)"
  by (rule stmt_keepsI)
    (auto simp: update_keys_def tables_ok_def keys_ok_def map_update_rows assms list_all_iff update_rows_set)

lemma update_sessions_ok:
  assumes "\<And>r. se_id (g r) = se_id r" "\<And>r. se_operator_id (g r) = se_operator_id r"
  shows "stmt_keeps tables_ok (update_sessions p g)"
  by (rule stmt_keepsI)
    (auto simp: update_sessions_def tables_ok_def sessions_ok_def map_update_rows assms list_all_iff
      update_rows_set)

lemma delete_sessions_ok: "stmt_keeps tables_ok (delete_sessions p)"
  by (rule stmt_keepsI)
    (auto simp: delete_sessions_def tables_ok_def sessions_ok_def list_all_iff distinct_map_filter)

lemma delete_component_ok: "stmt_keeps tables_ok (delete_component n)"
  by (rule stmt_keepsI)
    (auto simp: delete_component_def tables_ok_def components_ok_def list_all_iff distinct_map_filter)

lemma update_component_ok:
  assumes "\<And>r. co_name (g r) = co_name r"
  shows "stmt_keeps tables_ok (update_component n g)"
proof (rule stmt_keepsI)
  fix t a t'
  assume ok: "tables_ok t" and run: "update_component n g t = Inr (a, t')"
  then show "tables_ok t'"
  proof (cases "find (\<lambda>r. co_name r = n) (components t)")
    case (Some r)
    with ok have "\<forall>q \<in> set (components t). co_name q = n \<longrightarrow> q = r"
      by (auto simp: tables_ok_def components_ok_def find_key_iff dest: distinct_map_unique)
    with ok run Some show ?thesis
      by (auto simp: update_component_def tables_ok_def components_ok_def map_update_rows assms
          list_all_iff update_rows_set split: if_splits)
  qed (simp add: update_component_def)
qed

text \<open>\<^verbatim>\<open>UPDATE accounts\<close> keeps the invariant unless it takes the legacy account out of service.\<close>

lemma distinct_update_unique:
  assumes "distinct (map ac_id rs)" "distinct (map ac_email rs)" "r \<in> set rs"
    and "\<And>q. ac_id (g q) = ac_id q"
    and "ac_email (g r) \<notin> ac_email ` {q \<in> set rs. ac_id q \<noteq> ac_id r}"
  shows "distinct (map ac_email (update_rows (\<lambda>q. ac_id q = ac_id r) g rs))"
  using assms
proof (induction rs)
  case (Cons x xs)
  show ?case
  proof (cases "x = r")
    case True
    then have "update_rows (\<lambda>q. ac_id q = ac_id r) g xs = xs"
      using Cons.prems(1) unfolding update_rows_def by (intro map_idI) (force simp: image_iff)
    moreover have "ac_email (g r) \<notin> ac_email ` set xs"
      using Cons.prems True by (force simp: image_iff)
    ultimately show ?thesis
      using Cons.prems True by (simp add: update_rows_def)
  next
    case False
    then have r: "r \<in> set xs" and ne: "ac_id x \<noteq> ac_id r"
      using Cons.prems by (auto simp: image_iff)
    have "ac_email x \<notin> ac_email ` set (update_rows (\<lambda>q. ac_id q = ac_id r) g xs)"
    proof -
      have "\<forall>q \<in> set xs. ac_id q = ac_id r \<longrightarrow> q = r"
        using r Cons.prems(1) by (auto dest: distinct_map_unique)
      moreover have "ac_email (g r) \<noteq> ac_email x"
        using ne Cons.prems(5) by force
      ultimately show ?thesis
        using Cons.prems(2) by (auto simp: update_rows_set)
    qed
    moreover have "distinct (map ac_email (update_rows (\<lambda>q. ac_id q = ac_id r) g xs))"
      using Cons.prems r by (intro Cons.IH) auto
    ultimately show ?thesis using ne by simp
  qed
qed simp

lemma legacy_ok_update:
  assumes "legacy_ok rs" and "\<And>r. ac_id (g r) = ac_id r"
    and "\<And>r. p r \<Longrightarrow> ac_id r = legacyAccountID \<Longrightarrow> ac_status r = ''active'' \<Longrightarrow> ac_status (g r) = ''active''"
  shows "legacy_ok (update_rows p g rs)"
proof -
  obtain r where r: "r \<in> set rs" "ac_id r = legacyAccountID" "ac_status r = ''active''"
    using assms(1) by (auto simp: legacy_ok_def list_ex_iff)
  let ?r = "if p r then g r else r"
  have "?r \<in> set (update_rows p g rs)" using r(1) by (auto simp: update_rows_set)
  moreover have "ac_id ?r = legacyAccountID \<and> ac_status ?r = ''active''" using r assms(2,3) by simp
  ultimately show ?thesis unfolding legacy_ok_def list_ex_iff by blast
qed

lemma update_account_ok:
  assumes key: "\<And>r. ac_id (g r) = ac_id r"
    and legacy: "i = legacyAccountID \<Longrightarrow> (\<And>r. ac_status r = ''active'' \<Longrightarrow> ac_status (g r) = ''active'')"
  shows "stmt_keeps tables_ok (update_account i g)"
proof (rule stmt_keepsI)
  fix t a t'
  assume ok: "tables_ok t" and run: "update_account i g t = Inr (a, t')"
  show "tables_ok t'"
  proof (cases "find (\<lambda>r. ac_id r = i) (accounts t)")
    case None
    with ok run show ?thesis by (simp add: update_account_def)
  next
    case (Some r)
    have accs: "accounts_ok (accounts t)" and leg: "legacy_ok (accounts t)"
      using ok by (simp_all add: tables_ok_def)
    have r: "r \<in> set (accounts t)" "ac_id r = i"
      using find_Some_set[OF Some] by auto
    have chk: "account_check (g r)"
      and uniq: "ac_email (g r) \<notin> ac_email ` {q \<in> set (accounts t). ac_id q \<noteq> ac_id r}"
      and t': "t' = t\<lparr>accounts := update_rows (\<lambda>q. ac_id q = ac_id r) g (accounts t)\<rparr>"
      using run Some r by (auto simp: update_account_def split: if_splits)
    have only: "q = r" if "q \<in> set (accounts t)" "ac_id q = ac_id r" for q
      using that r accs by (auto simp: accounts_ok_def dest: distinct_map_unique)
    have "distinct (map ac_email (update_rows (\<lambda>q. ac_id q = ac_id r) g (accounts t)))"
      using accs r uniq key by (intro distinct_update_unique) (auto simp: accounts_ok_def)
    moreover have "legacy_ok (update_rows (\<lambda>q. ac_id q = ac_id r) g (accounts t))"
      using leg r(2) legacy by (intro legacy_ok_update) (auto simp: key)
    moreover have "list_all account_check (update_rows (\<lambda>q. ac_id q = ac_id r) g (accounts t))"
      using accs chk only by (auto simp: accounts_ok_def list_all_iff update_rows_set)
    ultimately show ?thesis
      using ok by (simp add: t' tables_ok_def accounts_ok_def keys_ok_def map_update_rows
          image_update_rows key)
  qed
qed

lemmas stmts_ok = insert_account_ok insert_operator_ok insert_session_ok insert_key_ok
  insert_component_ok insert_audit_ok update_operators_ok update_keys_ok update_sessions_ok
  delete_sessions_ok delete_component_ok update_component_ok update_account_ok

text \<open>What \<^verbatim>\<open>LIKE '%_@_%'\<close> admits: an at sign with something on both sides.\<close>

lemma sql_like_percent: "sql_like ''%'' s"
  by (induction s) auto

lemma sql_like_at: "sql_like ''@_%'' s \<longleftrightarrow> (\<exists>y. y \<noteq> [] \<and> s = CHR ''@'' # y)"
proof (cases s)
  case (Cons c cs)
  have "ascii_lower CHR ''@'' = ascii_lower c \<longleftrightarrow> c = CHR ''@''"
    by (auto simp: ascii_lower_def split: if_splits dest!: arg_cong[where f = "of_char :: char \<Rightarrow> nat"])
  with Cons show ?thesis by (cases cs) (auto simp: sql_like_percent)
qed simp

lemma sql_like_email: "sql_like ''%_@_%'' s \<longleftrightarrow> (\<exists>x y. x \<noteq> [] \<and> y \<noteq> [] \<and> s = x @ CHR ''@'' # y)"
proof (induction s)
  case (Cons c cs)
  have "sql_like ''_@_%'' (c # cs) \<longleftrightarrow> (\<exists>y. y \<noteq> [] \<and> cs = CHR ''@'' # y)"
    by (simp add: sql_like_at)
  moreover have "(\<exists>x y. x \<noteq> [] \<and> y \<noteq> [] \<and> c # cs = x @ CHR ''@'' # y) \<longleftrightarrow>
      (\<exists>y. y \<noteq> [] \<and> cs = CHR ''@'' # y) \<or> (\<exists>x y. x \<noteq> [] \<and> y \<noteq> [] \<and> cs = x @ CHR ''@'' # y)"
    by (auto simp: Cons_eq_append_conv)
  ultimately show ?case using Cons.IH by simp
qed simp

end
