(* ===== verification/Pagination.thy ===== *)
theory Pagination
  imports Http Sql_Schema
begin

text \<open>
  Paging of the admin API's listings, in \<^verbatim>\<open>internal/handler/accounts.go\<close> and used by every list
  handler: the query parameters, the page with its look-ahead row, and the \<^verbatim>\<open>Link\<close> header. The lemmas:
  accepted parameters are in range, and following the \<^verbatim>\<open>next\<close> links from offset 0 ends and yields every row
  once, in order.
\<close>

definition defaultPageLimit :: int where "defaultPageLimit = 50"
definition maxPageLimit :: int where "maxPageLimit = 500"

definition parsePagination :: "request \<Rightarrow> response + int \<times> int" where
  "parsePagination r =
    (let ov = query_Get r ''offset''; lv = query_Get r ''limit'';
         off = (if ov = [] then Inr 0 else (case strconv_Atoi ov of
            None \<Rightarrow> Inl (writeError 400 ''INVALID_REQUEST'')
          | Some n \<Rightarrow> if n < 0 then Inl (writeError 400 ''INVALID_REQUEST'') else Inr n))
     in case off of
         Inl w \<Rightarrow> Inl w
       | Inr offset \<Rightarrow>
          if lv = [] then Inr (offset, defaultPageLimit)
          else (case strconv_Atoi lv of
              None \<Rightarrow> Inl (writeError 400 ''INVALID_REQUEST'')
            | Some n \<Rightarrow> if n \<le> 0 then Inl (writeError 400 ''INVALID_REQUEST'')
                else if maxPageLimit < n then Inl (writeError 400 ''LIMIT_TOO_LARGE'')
                else Inr (offset, n)))"

text \<open>The look-ahead: \<open>limit + 1\<close> rows were fetched; the page is the first \<open>limit\<close> of them.\<close>

definition has_more :: "int \<Rightarrow> 'a list \<Rightarrow> bool" where
  "has_more limit xs \<longleftrightarrow> limit < int (length xs)"

definition page_of :: "int \<Rightarrow> 'a list \<Rightarrow> 'a list" where
  "page_of limit xs = (if has_more limit xs then take (nat limit) xs else xs)"

definition preserveQueryExceptPaging :: "(string \<times> string list) list \<Rightarrow> (string \<times> string list) list" where
  "preserveQueryExceptPaging q = filter (\<lambda>(k, _). k \<noteq> ''offset'' \<and> k \<noteq> ''limit'') q"

fun joinLinks :: "string list \<Rightarrow> string" where
  "joinLinks [] = []"
| "joinLinks [l] = l"
| "joinLinks (l # ls) = l @ '', '' @ joinLinks ls"

definition page_url :: "request \<Rightarrow> int \<Rightarrow> int \<Rightarrow> string" where
  "page_url r limit off = ''<'' @ URL_Path r @ ''?'' @
     values_Encode (values_Set (values_Set (preserveQueryExceptPaging (Query r)) ''offset'' (strconv_Itoa off))
       ''limit'' (strconv_Itoa limit)) @ ''>''"

text \<open>The offsets the \<^verbatim>\<open>next\<close> and \<^verbatim>\<open>prev\<close> links carry.\<close>

definition next_offset :: "bool \<Rightarrow> int \<Rightarrow> int \<Rightarrow> int option" where
  "next_offset hasMore offset limit = (if hasMore then Some (offset + limit) else None)"

definition prev_offset :: "int \<Rightarrow> int \<Rightarrow> int option" where
  "prev_offset offset limit = (if 0 < offset then Some (if offset - limit < 0 then 0 else offset - limit) else None)"

definition rel_next :: string where "rel_next = ''; rel='' @ [CHR 0x22] @ ''next'' @ [CHR 0x22]"
definition rel_prev :: string where "rel_prev = ''; rel='' @ [CHR 0x22] @ ''prev'' @ [CHR 0x22]"

definition writePaginationLinks :: "request \<Rightarrow> bool \<Rightarrow> int \<Rightarrow> int \<Rightarrow> response \<Rightarrow> response" where
  "writePaginationLinks r hasMore offset limit w =
    (let links = (case next_offset hasMore offset limit of None \<Rightarrow> [] | Some o1 \<Rightarrow> [page_url r limit o1 @ rel_next]) @
                 (case prev_offset offset limit of None \<Rightarrow> [] | Some o2 \<Rightarrow> [page_url r limit o2 @ rel_prev])
     in if links = [] then w else with_header ''Link'' (joinLinks links) w)"

section \<open>Facts\<close>

lemma links_status [simp]: "Status (writePaginationLinks r m off lim w) = Status w"
  "Body (writePaginationLinks r m off lim w) = Body w"
  by (simp_all add: writePaginationLinks_def Let_def)

lemma joinLinks_nonempty: "joinLinks (l # ls) = l @ concat (map (\<lambda>x. '', '' @ x) ls)"
  by (induction ls arbitrary: l) auto

text \<open>One page of an ordered result, as every list handler computes it.\<close>

definition served_page :: "'a list \<Rightarrow> int \<Rightarrow> int \<Rightarrow> 'a list \<times> int option" where
  "served_page rows offset limit =
    (let xs = sql_page (limit + 1) offset rows
     in (page_of limit xs, next_offset (has_more limit xs) offset limit))"

lemma served_page_alt:
  assumes "0 \<le> offset" "0 < limit"
  shows "served_page rows offset limit =
    (take (nat limit) (drop (nat offset) rows),
     if offset + limit < int (length rows) then Some (offset + limit) else None)"
  using assms
  by (auto simp: served_page_def sql_page_def page_of_def has_more_def next_offset_def Let_def min_def nat_add_distrib
      split: if_splits)

lemma page_of_sql_page:
  "0 < limit \<Longrightarrow> page_of limit (map f (sql_page (limit + 1) offset rows)) = map f (sql_page limit offset rows)"
  by (auto simp: page_of_def has_more_def sql_page_def Let_def min_def take_map nat_add_distrib)

text \<open>A client that starts at an offset and follows the \<^verbatim>\<open>next\<close> links: the pages it reads.\<close>

function follow_next :: "'a list \<Rightarrow> int \<Rightarrow> int \<Rightarrow> 'a list list" where
  "follow_next rows limit offset =
    (if limit \<le> 0 \<or> offset < 0 then []
     else case served_page rows offset limit of
         (page, None) \<Rightarrow> [page]
       | (page, Some o1) \<Rightarrow> page # follow_next rows limit o1)"
  by pat_completeness auto
termination
  by (relation "measure (\<lambda>(rows, limit, offset). nat (int (length rows) - offset))")
    (auto simp: served_page_alt split: if_splits)

declare follow_next.simps [simp del]

lemma follow_next_step:
  assumes "0 \<le> offset" "0 < limit"
  shows "follow_next rows limit offset = take (nat limit) (drop (nat offset) rows) #
    (if offset + limit < int (length rows) then follow_next rows limit (offset + limit) else [])"
  using assms by (subst follow_next.simps) (simp add: served_page_alt)

text \<open>The induction that follows the links, over the rows left to read.\<close>

lemma follow_next_induct [consumes 2, case_names step]:
  fixes offset limit n :: int
  assumes "0 \<le> offset" "0 < limit"
    and "\<And>offset. 0 \<le> offset \<Longrightarrow> (offset + limit < n \<Longrightarrow> P (offset + limit)) \<Longrightarrow> P offset"
  shows "P offset"
  using assms(1)
proof (induction "nat (n - offset)" arbitrary: offset rule: less_induct)
  case less
  show ?case
  proof (rule assms(3)[OF less.prems])
    assume "offset + limit < n"
    then show "P (offset + limit)" using assms(2) less.prems by (intro less.hyps) simp_all
  qed
qed

lemma follow_next_drop:
  assumes "0 \<le> offset" "0 < limit"
  shows "concat (follow_next rows limit offset) = drop (nat offset) rows"
  using assms
proof (induction rule: follow_next_induct[where n = "int (length rows)"])
  case (step offset)
  have "nat (offset + limit) = nat limit + nat offset" using step assms(2) by (simp add: nat_add_distrib)
  then have rest: "drop (nat (offset + limit)) rows = drop (nat limit) (drop (nat offset) rows)" by simp
  have "follow_next rows limit offset = take (nat limit) (drop (nat offset) rows) #
      (if offset + limit < int (length rows) then follow_next rows limit (offset + limit) else [])"
    using step assms(2) by (simp add: follow_next_step)
  moreover have "drop (nat limit) (drop (nat offset) rows) = []" if "\<not> offset + limit < int (length rows)"
    using that step assms(2) by simp
  ultimately show ?case using step(2) unfolding rest
    by (auto simp del: drop_drop intro: append_take_drop_id)
qed

lemma follow_next_count:
  assumes "0 \<le> offset" "0 < limit"
  shows "int (length (follow_next rows limit offset)) = max 1 ((int (length rows) - offset + limit - 1) div limit)"
  using assms
proof (induction rule: follow_next_induct[where n = "int (length rows)"])
  case (step offset)
  let ?n = "int (length rows)"
  have shift: "(?n - offset + limit - 1) div limit = 1 + (?n - (offset + limit) + limit - 1) div limit"
    using assms(2) div_add_self2[of limit "?n - (offset + limit) + limit - 1"] by (simp add: algebra_simps)
  show ?case
  proof (cases "offset + limit < ?n")
    case True
    then have "1 \<le> (?n - (offset + limit) + limit - 1) div limit"
      using assms(2) by (simp add: pos_imp_zdiv_pos_iff int_one_le_iff_zero_less)
    with True step shift assms(2) show ?thesis by (simp add: follow_next_step)
  next
    case False
    then have "(?n - (offset + limit) + limit - 1) div limit \<le> 0"
      using assms(2) zdiv_mono1[of "?n - (offset + limit) + limit - 1" "limit - 1" limit] by (simp add: div_pos_pos_trivial)
    with False step shift assms(2) show ?thesis by (simp add: follow_next_step)
  qed
qed

section \<open>Properties\<close>

text \<open>
  Accepted paging parameters are in range: the offset is not negative and the limit is between 1
  and 500. Every refusal is a 400.
\<close>

lemma parsePagination_range:
  "case parsePagination r of
     Inr (offset, limit) \<Rightarrow> 0 \<le> offset \<and> offset < 2 ^ 63 \<and> 1 \<le> limit \<and> limit \<le> 500
   | Inl w \<Rightarrow> Status w = 400"
proof -
  have range: "n < 2 ^ 63" if "strconv_Atoi v = Some n" for v n
    using that by (auto simp: strconv_Atoi_def Let_def split: if_splits)
  then show ?thesis
    by (auto simp: parsePagination_def Let_def defaultPageLimit_def maxPageLimit_def split: sum.splits option.splits if_splits)
qed



end
