(* ===== verification/Store_Operators.thy ===== *)
theory Store_Operators
  imports Sql_Schema
begin

text \<open>
  Operators of the admin API, \<^verbatim>\<open>internal/store/operators.go\<close>. Besides the schema invariant, the
  lemmas show the self-lockout guard: an update through \<^verbatim>\<open>UpdateOperatorAtomically\<close> never takes the
  number of active admins from one or more to zero, whoever is updated and however the statements fail.
\<close>

section \<open>Operations\<close>

definition generateOperatorID :: "('z store_scheme, goerr + string) state" where
  "generateOperatorID = do {
     r \<leftarrow> rand_Read 16;
     State_Monad.return (case r of Inl e \<Rightarrow> Inl (Errorf e) | Inr b \<Rightarrow> Inr (hex_EncodeToString b)) }"

definition null_string :: "string option \<Rightarrow> string" where
  "null_string v = (case v of None \<Rightarrow> [] | Some x \<Rightarrow> x)"

definition scanOperator :: "operator_row \<Rightarrow> Operator" where
  "scanOperator r = \<lparr>Op_ID = op_id r, Op_Email = op_email r, Op_Role = op_role r, Op_Status = op_status r,
     Op_AllowlistedAt = parse_rfc3339 (op_allowlisted_at r),
     Op_AllowlistedBy = null_string (op_allowlisted_by r),
     Op_LastLoginAt = map_option parse_rfc3339 (op_last_login_at r),
     Op_GithubUsername = null_string (op_github_username r),
     Op_MicrosoftUPN = null_string (op_microsoft_upn r),
     Op_FirstSeenProvider = null_string (op_first_seen_provider r)\<rparr>"

definition GetOperator :: "string \<Rightarrow> ('z store_scheme, goerr + Operator) state" where
  "GetOperator i = do {
     r \<leftarrow> sql_query_row (\<lambda>t. find (\<lambda>q. op_id q = i) (operators t));
     State_Monad.return (case r of
       Inl e \<Rightarrow> if errors_Is e ErrNoRows then Inl (Wrapf ''get operator'' (Sentinel ErrOperatorNotFound))
               else Inl (Wrapf ''get operator'' e)
     | Inr row \<Rightarrow> Inr (scanOperator row)) }"

definition GetOperatorByEmail :: "string \<Rightarrow> ('z store_scheme, goerr + Operator) state" where
  "GetOperatorByEmail email = do {
     r \<leftarrow> sql_query_row (\<lambda>t. find (\<lambda>q. op_email q = canonicalEmail email) (operators t));
     State_Monad.return (case r of
       Inl e \<Rightarrow> if errors_Is e ErrNoRows then Inl (Wrapf ''get operator by email'' (Sentinel ErrOperatorNotFound))
               else Inl (Wrapf ''get operator by email'' e)
     | Inr row \<Rightarrow> Inr (scanOperator row)) }"

text \<open>The row \<^verbatim>\<open>INSERT INTO operators (id, email, role, status, allowlisted_at, allowlisted_by)\<close> writes.\<close>

definition new_operator_row :: "string \<Rightarrow> string \<Rightarrow> string \<Rightarrow> go_time \<Rightarrow> string \<Rightarrow> operator_row" where
  "new_operator_row i canon role now by_op = \<lparr>op_id = i, op_email = canon, op_role = role,
     op_status = ''active'', op_allowlisted_at = rfc3339 now, op_allowlisted_by = Some by_op,
     op_last_login_at = None, op_github_username = None, op_microsoft_upn = None,
     op_first_seen_provider = None\<rparr>"

definition new_operator :: "string \<Rightarrow> string \<Rightarrow> OperatorRole \<Rightarrow> go_time \<Rightarrow> string \<Rightarrow> Operator" where
  "new_operator i canon role now by_op = \<lparr>Op_ID = i, Op_Email = canon, Op_Role = role,
     Op_Status = OperatorStatusActive, Op_AllowlistedAt = now, Op_AllowlistedBy = by_op,
     Op_LastLoginAt = None, Op_GithubUsername = [], Op_MicrosoftUPN = [], Op_FirstSeenProvider = []\<rparr>"

definition operator_errors :: constraintErrorMap where
  "operator_errors = \<lparr>UniqueErr = Some ErrOperatorExists, ForeignErr = None, CheckErr = Some ErrOperatorInvalid\<rparr>"

definition AllowlistOperator ::
  "string \<Rightarrow> OperatorRole \<Rightarrow> string \<Rightarrow> ('z store_scheme, goerr + Operator) state" where
  "AllowlistOperator email role allowlistedBy = do {
     g \<leftarrow> generateOperatorID;
     case g of
       Inl e \<Rightarrow> State_Monad.return (Inl (Wrapf ''generate operator id'' e))
     | Inr i \<Rightarrow> do {
         now \<leftarrow> time_Now;
         r \<leftarrow> sql_stmt (insert_operator (new_operator_row i (canonicalEmail email) role now allowlistedBy));
         State_Monad.return (case r of
           Inl e \<Rightarrow> Inl (classify ''allowlist operator'' e operator_errors)
         | Inr _ \<Rightarrow> Inr (new_operator i (canonicalEmail email) role now allowlistedBy)) } }"

definition DisableOperator :: "string \<Rightarrow> ('z store_scheme, goerr + unit) state" where
  "DisableOperator i = do {
     r \<leftarrow> sql_stmt (update_operators (\<lambda>q. op_id q = i) (\<lambda>q. q\<lparr>op_status := ''disabled''\<rparr>));
     State_Monad.return (case r of
       Inl e \<Rightarrow> Inl (Wrapf ''disable operator'' e)
     | Inr n \<Rightarrow> if n = 0 then Inl (Wrapf ''disable operator'' (Sentinel ErrOperatorNotFound)) else Inr ()) }"

definition EnableOperator :: "string \<Rightarrow> ('z store_scheme, goerr + unit) state" where
  "EnableOperator i = do {
     r \<leftarrow> sql_stmt (update_operators (\<lambda>q. op_id q = i) (\<lambda>q. q\<lparr>op_status := ''active''\<rparr>));
     State_Monad.return (case r of
       Inl e \<Rightarrow> Inl (Wrapf ''enable operator'' e)
     | Inr n \<Rightarrow> if n = 0 then Inl (Wrapf ''enable operator'' (Sentinel ErrOperatorNotFound)) else Inr ()) }"

definition ChangeOperatorRole :: "string \<Rightarrow> OperatorRole \<Rightarrow> ('z store_scheme, goerr + unit) state" where
  "ChangeOperatorRole i role = do {
     r \<leftarrow> sql_stmt (update_operators (\<lambda>q. op_id q = i) (\<lambda>q. q\<lparr>op_role := role\<rparr>));
     State_Monad.return (case r of
       Inl e \<Rightarrow> Inl (Wrapf ''change operator role'' e)
     | Inr n \<Rightarrow> if n = 0 then Inl (Wrapf ''change operator role'' (Sentinel ErrOperatorNotFound)) else Inr ()) }"

definition ListOperators :: "int \<Rightarrow> int \<Rightarrow> ('z store_scheme, goerr + Operator list) state" where
  "ListOperators offset limit = do {
     r \<leftarrow> sql_query (\<lambda>t. sql_page limit offset (rev (sort_key (\<lambda>q. (op_allowlisted_at q, op_id q)) (operators t))));
     State_Monad.return (case r of Inl e \<Rightarrow> Inl (Wrapf ''list operators'' e) | Inr rows \<Rightarrow> Inr (map scanOperator rows)) }"

definition is_active_admin :: "operator_row \<Rightarrow> bool" where
  "is_active_admin q \<longleftrightarrow> op_role q = ''admin'' \<and> op_status q = ''active''"

definition CountActiveAdmins :: "('z store_scheme, goerr + int) state" where
  "CountActiveAdmins = do {
     r \<leftarrow> sql_query (\<lambda>t. count_rows is_active_admin (operators t));
     State_Monad.return (case r of Inl e \<Rightarrow> Inl (Wrapf ''count active admins'' e) | Inr n \<Rightarrow> Inr n) }"

text \<open>The three-way \<^verbatim>\<open>switch\<close> on which fields the update sets: one \<^verbatim>\<open>UPDATE\<close> statement.\<close>

definition set_role_status :: "OperatorRole option \<Rightarrow> OperatorStatus option \<Rightarrow> operator_row \<Rightarrow> operator_row" where
  "set_role_status newRole newStatus q =
    (case (newRole, newStatus) of
       (Some r, Some st) \<Rightarrow> q\<lparr>op_role := r, op_status := st\<rparr>
     | (Some r, None) \<Rightarrow> q\<lparr>op_role := r\<rparr>
     | (None, Some st) \<Rightarrow> q\<lparr>op_status := st\<rparr>
     | (None, None) \<Rightarrow> q)"

definition update_op_label :: "OperatorRole option \<Rightarrow> OperatorStatus option \<Rightarrow> string" where
  "update_op_label newRole newStatus =
    (if newRole \<noteq> None \<and> newStatus \<noteq> None then ''update operator role+status''
     else if newRole \<noteq> None then ''update operator role'' else ''update operator status'')"

text \<open>The \<^verbatim>\<open>SELECT COUNT\<close> guard: run only when the update takes an active admin out.\<close>

definition lockout_guard :: "bool \<Rightarrow> bool \<Rightarrow> ('z store_scheme, goerr + unit) state" where
  "lockout_guard wasAdminActive willBeAdminActive =
    (if wasAdminActive \<and> \<not> willBeAdminActive then do {
       r \<leftarrow> sql_query (\<lambda>t. count_rows is_active_admin (operators t));
       State_Monad.return (case r of
         Inl e \<Rightarrow> Inl (Wrapf ''update operator count admins'' e)
       | Inr n \<Rightarrow> if n \<le> 1 then Inl (Wrapf ''update operator'' (Sentinel ErrOperatorSelfLockout)) else Inr ()) }
     else State_Monad.return (Inr ()))"

definition UpdateOperatorAtomically ::
  "string \<Rightarrow> OperatorRole option \<Rightarrow> OperatorStatus option \<Rightarrow> ('z store_scheme, goerr + Operator \<times> Operator) state" where
  "UpdateOperatorAtomically i newRole newStatus =
    (if newRole = None \<and> newStatus = None
       then State_Monad.return (Inl (Wrapf ''update operator'' (Sentinel ErrOperatorInvalid)))
     else sql_tx ''update operator begin tx'' ''update operator commit'' (do {
       b \<leftarrow> sql_query_row (\<lambda>t. map_option scanOperator (find (\<lambda>q. op_id q = i) (operators t)));
       case b of
         Inl e \<Rightarrow> State_Monad.return
           (if errors_Is e ErrNoRows then Inl (Wrapf ''update operator'' (Sentinel ErrOperatorNotFound))
            else Inl (Wrapf ''update operator read before'' e))
       | Inr before \<Rightarrow> do {
           let afterRole = (case newRole of None \<Rightarrow> Op_Role before | Some r \<Rightarrow> r);
           let afterStatus = (case newStatus of None \<Rightarrow> Op_Status before | Some st \<Rightarrow> st);
           let wasAdminActive = (Op_Role before = OperatorRoleAdmin \<and> Op_Status before = OperatorStatusActive);
           let willBeAdminActive = (afterRole = OperatorRoleAdmin \<and> afterStatus = OperatorStatusActive);
           g \<leftarrow> lockout_guard wasAdminActive willBeAdminActive;
           case g of
             Inl e \<Rightarrow> State_Monad.return (Inl e)
           | Inr _ \<Rightarrow> do {
               u \<leftarrow> sql_stmt (update_operators (\<lambda>q. op_id q = i) (set_role_status newRole newStatus));
               case u of
                 Inl e \<Rightarrow> State_Monad.return (Inl (Wrapf (update_op_label newRole newStatus) e))
               | Inr _ \<Rightarrow> do {
                   a \<leftarrow> sql_query_row (\<lambda>t. map_option scanOperator (find (\<lambda>q. op_id q = i) (operators t)));
                   State_Monad.return (case a of
                     Inl e \<Rightarrow> Inl (Wrapf ''update operator read after'' e)
                   | Inr after \<Rightarrow> Inr (before, after)) } } } }))"

definition UpdateLastLogin :: "string \<Rightarrow> go_time \<Rightarrow> ('z store_scheme, goerr + unit) state" where
  "UpdateLastLogin i ts = do {
     let tsStr = rfc3339 ts;
     r \<leftarrow> sql_stmt (update_operators
            (\<lambda>q. op_id q = i \<and> (case op_last_login_at q of None \<Rightarrow> True | Some l \<Rightarrow> l < tsStr))
            (\<lambda>q. q\<lparr>op_last_login_at := Some tsStr\<rparr>));
     case r of
       Inl e \<Rightarrow> State_Monad.return (Inl (Wrapf ''update last_login_at'' e))
     | Inr n \<Rightarrow> if n = 0 then do {
           p \<leftarrow> sql_query_row (\<lambda>t. find (\<lambda>q. op_id q = i) (operators t));
           State_Monad.return (case p of
             Inl e \<Rightarrow> if errors_Is e ErrNoRows then Inl (Wrapf ''update last_login_at'' (Sentinel ErrOperatorNotFound))
                     else Inl (Wrapf ''update last_login_at existence probe'' e)
           | Inr _ \<Rightarrow> Inr ()) }
         else State_Monad.return (Inr ()) }"

definition coalesce_col :: "string option \<Rightarrow> string \<Rightarrow> string option" where
  "coalesce_col old v = (case old of None \<Rightarrow> Some v | Some x \<Rightarrow> Some x)"

definition UpdateLoginProvider :: "string \<Rightarrow> string \<Rightarrow> string \<Rightarrow> ('z store_scheme, goerr + unit) state" where
  "UpdateLoginProvider i providerName providerUserID =
    (if providerUserID = [] then State_Monad.return (Inr ())
     else if providerName = ''github'' \<or> providerName = ''microsoft'' then do {
       r \<leftarrow> sql_stmt (update_operators (\<lambda>q. op_id q = i)
              (\<lambda>q. (if providerName = ''github''
                      then q\<lparr>op_github_username := coalesce_col (op_github_username q) providerUserID\<rparr>
                      else q\<lparr>op_microsoft_upn := coalesce_col (op_microsoft_upn q) providerUserID\<rparr>)
                   \<lparr>op_first_seen_provider := coalesce_col (op_first_seen_provider q) providerName\<rparr>));
       State_Monad.return (case r of Inl e \<Rightarrow> Inl (Wrapf ''update login provider'' e) | Inr _ \<Rightarrow> Inr ()) }
     else State_Monad.return (Inl (Errorf (''update login provider: unknown provider '' @ providerName))))"

definition OperatorCount :: "('z store_scheme, goerr + int) state" where
  "OperatorCount = do {
     r \<leftarrow> sql_query (\<lambda>t. count_rows (\<lambda>_. True) (operators t));
     State_Monad.return (case r of Inl e \<Rightarrow> Inl (Wrapf ''count operators'' e) | Inr n \<Rightarrow> Inr n) }"

text \<open>
  \<^verbatim>\<open>BootstrapOperatorFromEnv\<close>; \<open>parseable\<close> is \<^verbatim>\<open>mail.ParseAddress(email)\<close> succeeding. The early
  \<^verbatim>\<open>return nil, nil\<close> for a non-empty table leaves the transaction to the deferred rollback, which
  has nothing to undo.
\<close>

definition BootstrapOperatorFromEnv ::
  "(string \<Rightarrow> bool) \<Rightarrow> string \<Rightarrow> ('z store_scheme, goerr + Operator option) state" where
  "BootstrapOperatorFromEnv parseable email =
    (if email = [] then State_Monad.return (Inr None)
     else if \<not> parseable email then State_Monad.return (Inl (Wrapf ''bootstrap operator'' (Sentinel ErrOperatorInvalid)))
     else sql_tx_maybe ''bootstrap operator'' ''bootstrap operator'' (do {
       c \<leftarrow> sql_query (\<lambda>t. count_rows (\<lambda>_. True) (operators t));
       case c of
         Inl e \<Rightarrow> State_Monad.return (Inl (Wrapf ''bootstrap operator'' e))
       | Inr n \<Rightarrow>
           if n > 0 then State_Monad.return (Inr None)
           else do {
             g \<leftarrow> generateOperatorID;
             case g of
               Inl e \<Rightarrow> State_Monad.return (Inl (Wrapf ''bootstrap operator'' e))
             | Inr i \<Rightarrow> do {
                 now \<leftarrow> time_Now;
                 r \<leftarrow> sql_stmt (insert_operator
                        (new_operator_row i (canonicalEmail email) OperatorRoleAdmin now ''bootstrap''));
                 State_Monad.return (case r of
                   Inl e \<Rightarrow> Inl (classify ''bootstrap operator'' e operator_errors)
                 | Inr _ \<Rightarrow> Inr (Some (new_operator i (canonicalEmail email) OperatorRoleAdmin now ''bootstrap''))) } } }))"

section \<open>The schema invariant\<close>

lemma scanOperator_sel [simp]:
  "Op_ID (scanOperator r) = op_id r" "Op_Email (scanOperator r) = op_email r"
  "Op_Role (scanOperator r) = op_role r" "Op_Status (scanOperator r) = op_status r"
  by (simp_all add: scanOperator_def)

lemma set_role_status_sel [simp]:
  "op_id (set_role_status nr ns q) = op_id q" "op_email (set_role_status nr ns q) = op_email q"
  "op_role (set_role_status nr ns q) = (case nr of None \<Rightarrow> op_role q | Some r \<Rightarrow> r)"
  "op_status (set_role_status nr ns q) = (case ns of None \<Rightarrow> op_status q | Some r \<Rightarrow> r)"
  by (auto simp: set_role_status_def split: option.split)

lemma GetOperator_keeps [keep_rules]: "keeps db (GetOperator i)"
  by (auto simp: GetOperator_def intro!: keep_rules)

lemma GetOperatorByEmail_keeps [keep_rules]: "keeps db (GetOperatorByEmail e)"
  by (auto simp: GetOperatorByEmail_def intro!: keep_rules)

lemma ListOperators_keeps [keep_rules]: "keeps db (ListOperators offset limit)"
  by (auto simp: ListOperators_def intro!: keep_rules)

lemma CountActiveAdmins_keeps [keep_rules]: "keeps db CountActiveAdmins"
  by (auto simp: CountActiveAdmins_def intro!: keep_rules)

lemma OperatorCount_keeps [keep_rules]: "keeps db OperatorCount"
  by (auto simp: OperatorCount_def intro!: keep_rules)

lemma generateOperatorID_keeps [keep_rules]: "keeps db generateOperatorID"
  by (auto simp: generateOperatorID_def intro!: keep_rules)

lemma lockout_guard_keeps [keep_rules]: "keeps db (lockout_guard a b)"
  by (auto simp: lockout_guard_def intro!: keep_rules)

lemmas operator_reads = keeps_preserves[OF generateOperatorID_keeps] keeps_preserves[OF lockout_guard_keeps]

lemma AllowlistOperator_ok [pres_rules]: "preserves db_ok (AllowlistOperator e r b)"
  by (auto simp: AllowlistOperator_def intro!: pres_rules insert_operator_ok operator_reads)

lemma DisableOperator_ok [pres_rules]: "preserves db_ok (DisableOperator i)"
  by (auto simp: DisableOperator_def intro!: pres_rules update_operators_ok)

lemma EnableOperator_ok [pres_rules]: "preserves db_ok (EnableOperator i)"
  by (auto simp: EnableOperator_def intro!: pres_rules update_operators_ok)

lemma ChangeOperatorRole_ok [pres_rules]: "preserves db_ok (ChangeOperatorRole i r)"
  by (auto simp: ChangeOperatorRole_def intro!: pres_rules update_operators_ok)

lemma UpdateOperatorAtomically_ok [pres_rules]: "preserves db_ok (UpdateOperatorAtomically i nr ns)"
  by (auto simp: UpdateOperatorAtomically_def Let_def intro!: pres_rules update_operators_ok operator_reads)

lemma UpdateLastLogin_ok [pres_rules]: "preserves db_ok (UpdateLastLogin i ts)"
  by (auto simp: UpdateLastLogin_def Let_def intro!: pres_rules update_operators_ok)

lemma UpdateLoginProvider_ok [pres_rules]: "preserves db_ok (UpdateLoginProvider i p u)"
  by (auto simp: UpdateLoginProvider_def intro!: pres_rules update_operators_ok)

lemma BootstrapOperatorFromEnv_ok [pres_rules]: "preserves db_ok (BootstrapOperatorFromEnv parseable e)"
  by (auto simp: BootstrapOperatorFromEnv_def intro!: pres_rules insert_operator_ok operator_reads)

section \<open>The self-lockout guard\<close>

definition has_active_admin :: "tables \<Rightarrow> bool" where
  "has_active_admin t \<longleftrightarrow> list_ex is_active_admin (operators t)"

text \<open>Updating one row of at least two active admins leaves one.\<close>

lemma two_admins_update:
  assumes "1 < count_rows is_active_admin ops" "distinct (map op_id ops)"
  shows "list_ex is_active_admin (update_rows (\<lambda>q. op_id q = i) g ops)"
proof -
  let ?A = "filter is_active_admin ops"
  have "1 < length ?A" using assms(1) by (simp add: count_rows_def)
  then obtain a b rest where A: "?A = a # b # rest"
    by (cases ?A rule: remdups_adj.cases) auto
  have "distinct (map op_id ?A)" using assms(2) by (rule distinct_map_filter)
  with A have "op_id a \<noteq> op_id b" by simp
  then obtain c where c: "c \<in> {a, b}" "op_id c \<noteq> i" by auto
  then have "c \<in> set ?A" using A by auto
  with c show ?thesis by (auto simp: list_ex_iff update_rows_set)
qed

lemma update_keeps_admin:
  assumes "find (\<lambda>q. op_id q = i) ops = Some r" "distinct (map op_id ops)"
    and "list_ex is_active_admin ops" "is_active_admin (g r) \<or> \<not> is_active_admin r"
  shows "list_ex is_active_admin (update_rows (\<lambda>q. op_id q = i) g ops)"
proof -
  have r: "r \<in> set ops" "op_id r = i" using find_Some_set[OF assms(1)] by auto
  obtain a where a: "a \<in> set ops" "is_active_admin a"
    using assms(3) by (auto simp: list_ex_iff)
  show ?thesis
  proof (cases "op_id a = i")
    case True
    with a r assms(2) have "a = r" by (auto dest: distinct_map_unique)
    with a r assms(4) have "g r \<in> set (update_rows (\<lambda>q. op_id q = i) g ops)" "is_active_admin (g r)"
      by (auto simp: update_rows_set)
    then show ?thesis by (auto simp: list_ex_iff)
  next
    case False
    with a show ?thesis by (auto simp: list_ex_iff update_rows_set)
  qed
qed

text \<open>What a successful update did: the guard held on the row it read, and one \<^verbatim>\<open>UPDATE\<close> ran.\<close>

lemma UpdateOperatorAtomically_success:
  assumes "run_state (UpdateOperatorAtomically i nr ns) s = (Inr (before, after), s')"
  shows "\<exists>r. find (\<lambda>q. op_id q = i) (operators (db s)) = Some r \<and> before = scanOperator r \<and>
      db s' = (db s)\<lparr>operators := update_rows (\<lambda>q. op_id q = i) (set_role_status nr ns) (operators (db s))\<rparr> \<and>
      (is_active_admin r \<and> \<not> is_active_admin (set_role_status nr ns r) \<longrightarrow>
        1 < count_rows is_active_admin (operators (db s))) \<and>
      (\<exists>q. find (\<lambda>q. op_id q = i) (operators (db s')) = Some q \<and> after = scanOperator q)"
  using assms
  by (auto simp: UpdateOperatorAtomically_def lockout_guard_def run_sql_tx run_sql_query_row run_sql_query
      run_sql_stmt Let_def update_operators_def is_active_admin_def role_defs
      split: if_splits option.splits sum.splits prod.splits)

lemma UpdateOperatorAtomically_error:
  "run_state (UpdateOperatorAtomically i nr ns) s = (Inl e, s') \<Longrightarrow> db s' = db s"
  by (auto simp: UpdateOperatorAtomically_def dest: sql_tx_atomic split: if_splits)

lemma UpdateOperatorAtomically_admin:
  "preserves (\<lambda>s. db_ok s \<and> has_active_admin (db s)) (UpdateOperatorAtomically i nr ns)"
proof (rule preservesI)
  fix s :: "'a store_scheme"
  assume I: "db_ok s \<and> has_active_admin (db s)"
  then have d: "distinct (map op_id (operators (db s)))"
    by (simp add: tables_ok_def operators_ok_def)
  obtain res s' where run: "run_state (UpdateOperatorAtomically i nr ns) s = (res, s')"
    by (cases "run_state (UpdateOperatorAtomically i nr ns) s") auto
  have ok: "db_ok s'"
    using preservesD[OF UpdateOperatorAtomically_ok, of s i nr ns] I run by simp
  have "has_active_admin (db s')"
  proof (cases res)
    case (Inl e)
    with run I show ?thesis by (simp add: UpdateOperatorAtomically_error)
  next
    case (Inr p)
    then obtain before after where "run_state (UpdateOperatorAtomically i nr ns) s = (Inr (before, after), s')"
      using run by (cases p) auto
    from UpdateOperatorAtomically_success[OF this] obtain r where
      r: "find (\<lambda>q. op_id q = i) (operators (db s)) = Some r"
      and s': "operators (db s') = update_rows (\<lambda>q. op_id q = i) (set_role_status nr ns) (operators (db s))"
      and guard: "is_active_admin r \<and> \<not> is_active_admin (set_role_status nr ns r) \<longrightarrow>
        1 < count_rows is_active_admin (operators (db s))"
      by (elim exE conjE) (rule that; simp)
    show ?thesis
    proof (cases "1 < count_rows is_active_admin (operators (db s))")
      case True
      then show ?thesis unfolding has_active_admin_def s' using d by (rule two_admins_update)
    next
      case False
      with guard have "is_active_admin (set_role_status nr ns r) \<or> \<not> is_active_admin r" by auto
      then show ?thesis unfolding has_active_admin_def s'
        using r d I by (intro update_keeps_admin) (auto simp: has_active_admin_def)
    qed
  qed
  with ok run show "db_ok (snd (run_state (UpdateOperatorAtomically i nr ns) s)) \<and>
      has_active_admin (db (snd (run_state (UpdateOperatorAtomically i nr ns) s)))"
    by simp
qed

end
