(* ===== verification/Store_Audit.thy ===== *)
theory Store_Audit
  imports Store_Operators
begin

text \<open>
  The audit log, \<^verbatim>\<open>internal/store/audit.go\<close>: writing a row is fire-and-forget, with a cap on the
  marshalled details, and listing filters, orders and pages. The \<^verbatim>\<open>log/slog\<close> reports of a failed
  write are not modelled. The lemmas: a write changes no other table and appends at most one row,
  rows are never changed or removed, and no stored row exceeds the cap; the text order of window and listing is the order of time.
\<close>

section \<open>JSON text of the details\<close>

text \<open>\<^verbatim>\<open>json.Marshal\<close> of a string, on ASCII text; HTML characters are escaped as it does by default.\<close>

definition json_char :: "char \<Rightarrow> string" where
  "json_char c =
    (if c = CHR 0x22 then [CHR 0x5C, CHR 0x22]
     else if c = CHR 0x5C then [CHR 0x5C, CHR 0x5C]
     else if c = CHR 0x08 then [CHR 0x5C, CHR ''b'']
     else if c = CHR 0x0C then [CHR 0x5C, CHR ''f'']
     else if c = CHR 0x0A then [CHR 0x5C, CHR ''n'']
     else if c = CHR 0x0D then [CHR 0x5C, CHR ''r'']
     else if c = CHR 0x09 then [CHR 0x5C, CHR ''t'']
     else if (of_char c :: nat) < 32 \<or> c = CHR 0x3C \<or> c = CHR 0x3E \<or> c = CHR 0x26
       then CHR 0x5C # ''u00'' @ hex_EncodeToString [c]
     else [c])"

definition json_string :: "string \<Rightarrow> string" where
  "json_string s = [CHR 0x22] @ concat (map json_char s) @ [CHR 0x22]"

fun json_detail :: "detail \<Rightarrow> string" where
  "json_detail (DStr s) = json_string s"
| "json_detail (DInt i) = strconv_Itoa i"
| "json_detail (DBool b) = (if b then ''true'' else ''false'')"

fun json_join :: "string list \<Rightarrow> string" where
  "json_join [] = []"
| "json_join [x] = x"
| "json_join (x # y # ys) = x @ '','' @ json_join (y # ys)"

text \<open>\<^verbatim>\<open>json.Marshal\<close> of a \<^verbatim>\<open>map[string]any\<close>: the keys in sorted order.\<close>

definition json_Marshal :: "(string \<times> detail) list \<Rightarrow> string" where
  "json_Marshal ds = ''{'' @ json_join (map (\<lambda>(k, v). json_string k @ '':'' @ json_detail v) (sort_key fst ds)) @ ''}''"

section \<open>Operations\<close>

definition auditDetailsMaxBytes :: nat where
  "auditDetailsMaxBytes = 4 * 1024"

definition nullif_empty :: "string \<Rightarrow> string option" where
  "nullif_empty s = (if s = [] then None else Some s)"

text \<open>What is stored as details: the map itself, or the sentinel when its JSON is over the cap.
  Marshalling the strings, integers and booleans the call sites pass never fails.\<close>

definition capped_details :: "(string \<times> detail) list \<Rightarrow> (string \<times> detail) list" where
  "capped_details ds =
    (let n = length (if ds = [] then ''{}'' else json_Marshal ds) in
     if n > auditDetailsMaxBytes then [(''_truncated'', DBool True), (''size'', DInt (int n))] else ds)"

definition Write :: "Entry \<Rightarrow> ('z store_scheme, unit) state" where
  "Write e = (let action = strings_TrimSpace (Ent_Action e) in
     if action = [] then State_Monad.return ()
     else do {
       ts \<leftarrow> time_Now;
       _ \<leftarrow> sql_stmt (insert_audit \<lparr>au_id = 0, au_ts = rfc3339 ts,
              au_operator_id = nullif_empty (Ent_OperatorID e), au_action = action,
              au_target_type = nullif_empty (Ent_TargetType e), au_target_id = nullif_empty (Ent_TargetID e),
              au_details = capped_details (Ent_Details e), au_ip = nullif_empty (Ent_IP e),
              au_user_agent = nullif_empty (Ent_UserAgent e)\<rparr>);
       State_Monad.return () })"

text \<open>The \<^verbatim>\<open>WHERE\<close> clause; the bounds of the window are compared as texts.\<close>

definition audit_matches :: "AuditFilter \<Rightarrow> audit_row \<Rightarrow> bool" where
  "audit_matches f r \<longleftrightarrow>
     (Flt_OperatorID f \<noteq> [] \<longrightarrow> au_operator_id r = Some (Flt_OperatorID f)) \<and>
     (Flt_Action f \<noteq> [] \<longrightarrow> au_action r = Flt_Action f) \<and>
     (Flt_TargetType f \<noteq> [] \<longrightarrow> au_target_type r = Some (Flt_TargetType f)) \<and>
     (Flt_TargetID f \<noteq> [] \<longrightarrow> au_target_id r = Some (Flt_TargetID f)) \<and>
     (case Flt_Since f of None \<Rightarrow> True | Some t \<Rightarrow> rfc3339_text (rfc3339 t) \<le> rfc3339_text (au_ts r)) \<and>
     (case Flt_Until f of None \<Rightarrow> True | Some t \<Rightarrow> rfc3339_text (au_ts r) < rfc3339_text (rfc3339 t))"

definition entry_of_row :: "audit_row \<Rightarrow> go_time \<Rightarrow> Entry" where
  "entry_of_row r ts = \<lparr>Ent_ID = au_id r, Ent_Ts = ts,
     Ent_OperatorID = null_string (au_operator_id r), Ent_Action = au_action r,
     Ent_TargetType = null_string (au_target_type r), Ent_TargetID = null_string (au_target_id r),
     Ent_Details = au_details r, Ent_IP = null_string (au_ip r), Ent_UserAgent = null_string (au_user_agent r)\<rparr>"

definition scanAuditRow :: "audit_row \<Rightarrow> goerr + Entry" where
  "scanAuditRow r = (case time_Parse (rfc3339_text (au_ts r)) of
       None \<Rightarrow> Inl (Wrapf ''parse audit ts'' (Errorf ''parsing time''))
     | Some ts \<Rightarrow> Inr (entry_of_row r ts))"

text \<open>\<^verbatim>\<open>ORDER BY ts DESC, id DESC\<close>: the timestamps are compared as texts.\<close>

definition ListAuditEntries :: "AuditFilter \<Rightarrow> int \<Rightarrow> int \<Rightarrow> ('z store_scheme, goerr + Entry list) state" where
  "ListAuditEntries f offset limit = do {
     r \<leftarrow> sql_query (\<lambda>t. sql_page limit offset (rev (sort_key (\<lambda>q. (rfc3339_text (au_ts q), au_id q))
            (filter (audit_matches f) (audit_log t)))));
     State_Monad.return (case r of Inl e \<Rightarrow> Inl (Wrapf ''list audit entries'' e) | Inr rows \<Rightarrow> scan_rows ''scan audit row'' scanAuditRow rows) }"

section \<open>Facts\<close>

lemma Write_ok [pres_rules]: "preserves db_ok (Write e)"
  by (auto simp: Write_def Let_def intro!: pres_rules insert_audit_ok)

lemma ListAuditEntries_keeps [keep_rules]: "keeps db (ListAuditEntries f offset limit)"
  by (auto simp: ListAuditEntries_def intro!: keep_rules)

text \<open>On timestamps in the years 0 to 9999 the text order is the order of time, so window and listing are by time.\<close>

lemma insort_cong:
  "(\<And>y. y \<in> set ys \<Longrightarrow> f x \<le> f y \<longleftrightarrow> g x \<le> g y) \<Longrightarrow> insort_key f x ys = insort_key g x ys"
  by (induction ys) auto

lemma sort_key_order:
  assumes "\<And>x y. x \<in> set xs \<Longrightarrow> y \<in> set xs \<Longrightarrow> f x \<le> f y \<longleftrightarrow> g x \<le> g y"
  shows "sort_key f xs = sort_key g xs"
  using assms
proof (induction xs)
  case (Cons x xs)
  then have "sort_key f xs = sort_key g xs" by simp
  moreover have "insort_key f x (sort_key g xs) = insort_key g x (sort_key g xs)"
    by (rule insort_cong) (use Cons.prems in auto)
  ultimately show ?case by simp
qed simp

lemma rfc3339_text_le: "in_years c \<Longrightarrow> in_years c' \<Longrightarrow> rfc3339_text c \<le> rfc3339_text c' \<longleftrightarrow> c \<le> c'"
  using rfc3339_text_order[of c' c] by (simp add: linorder_not_less[symmetric])

lemma audit_order:
  assumes "\<forall>q \<in> set qs. in_years (au_ts q)"
  shows "sort_key (\<lambda>q. (rfc3339_text (au_ts q), au_id q)) qs = sort_key (\<lambda>q. (au_ts q, au_id q)) qs"
proof (rule sort_key_order)
  fix x y assume "x \<in> set qs" "y \<in> set qs"
  then show "((rfc3339_text (au_ts x), au_id x) \<le> (rfc3339_text (au_ts y), au_id y)) = ((au_ts x, au_id x) \<le> (au_ts y, au_id y))"
    using assms by (auto simp: less_eq_prod_def rfc3339_text_order rfc3339_text_le)
qed

lemma scan_audit_rows:
  assumes "\<forall>q \<in> set qs. in_years (au_ts q)"
  shows "scan_rows op scanAuditRow qs = Inr (map (\<lambda>q. entry_of_row q (parse_rfc3339 (au_ts q))) qs)"
  using assms by (intro scan_rows_all) (simp add: scanAuditRow_def time_Parse_rfc3339_text)

text \<open>A write touches the audit table only.\<close>

lemma Write_keeps [keep_rules]:
  assumes "\<And>s n. f (s\<lparr>clock_reads := n\<rparr>) = f s" "\<And>s n. f (s\<lparr>stmts := n\<rparr>) = f s"
    "\<And>s n rs k. f (s\<lparr>stmts := n, db := (db s)\<lparr>audit_log := rs, audit_seq := k\<rparr>\<rparr>) = f s"
  shows "keeps f (Write e)"
  unfolding Write_def Let_def
  by (intro keep_rules) (auto simp: assms keeps_def run_sql_stmt insert_audit_def split: option.splits)

text \<open>What a write does: nothing to the tables, or one more row at the end of the log.\<close>

definition appended :: "Entry \<Rightarrow> tables \<Rightarrow> tables \<Rightarrow> bool" where
  "appended e t t' \<longleftrightarrow> (\<exists>r. au_action r = strings_TrimSpace (Ent_Action e) \<and>
     au_operator_id r = nullif_empty (Ent_OperatorID e) \<and> au_target_id r = nullif_empty (Ent_TargetID e) \<and>
     au_details r = capped_details (Ent_Details e) \<and> au_id r = audit_seq t + 1 \<and>
     t' = t\<lparr>audit_log := audit_log t @ [r], audit_seq := audit_seq t + 1\<rparr>)"

lemma run_Write:
  assumes "run_state (Write e) s = (x, s')"
  shows "db s' = db s \<or> appended e (db s) (db s')"
proof (cases "strings_TrimSpace (Ent_Action e) = [] \<or> fault s (stmts s) \<noteq> None")
  case True
  with assms show ?thesis
    by (cases "strings_TrimSpace (Ent_Action e) = []")
      (auto simp: Write_def Let_def run_time_Now run_sql_stmt)
next
  case False
  with assms have "appended e (db s) (db s')"
    unfolding appended_def by (auto simp: Write_def Let_def run_time_Now run_sql_stmt insert_audit_def intro!: exI)
  then show ?thesis ..
qed

text \<open>The cap.\<close>

lemma sort_trunc: "sort_key fst [(''_truncated'', a), (''size'', b)] = [(''_truncated'', a), (''size'', b)]"
  by simp

lemma json_truncated:
  "json_Marshal [(''_truncated'', DBool True), (''size'', DInt n)] =
     ''{'' @ [CHR 0x22] @ ''_truncated'' @ [CHR 0x22] @ '':true,'' @ [CHR 0x22] @ ''size'' @ [CHR 0x22] @ '':'' @
     strconv_Itoa n @ ''}''"
  by (simp add: json_Marshal_def sort_trunc json_string_def json_char_def)

lemma capped_details_bound:
  assumes "length (json_Marshal ds) < 2 ^ 63"
  shows "length (json_Marshal (capped_details ds)) \<le> auditDetailsMaxBytes"
proof (cases "ds = [] \<or> length (json_Marshal ds) \<le> auditDetailsMaxBytes")
  case True
  then show ?thesis
    by (auto simp: capped_details_def Let_def auditDetailsMaxBytes_def json_Marshal_def)
next
  case False
  have "length (nat_digits (length (json_Marshal ds))) \<le> 19"
    using assms by (intro length_nat_digits) auto
  with False show ?thesis
    by (simp add: capped_details_def Let_def json_truncated strconv_Itoa_def auditDetailsMaxBytes_def)
qed

end
