(* ===== verification/Audit_Log.thy ===== *)
theory Audit_Log
  imports Store_Audit Http
begin

text \<open>
  \<^verbatim>\<open>internal/audit/log.go\<close>: filling an audit entry from the request that caused it. The auditor the
  service wires is the SQLite store, so \<^verbatim>\<open>a.Write\<close> is \<open>Write\<close>. The warnings about an empty operator
  are log output and not modelled.
\<close>

text \<open>\<^verbatim>\<open>clientIP\<close>: the leftmost \<^verbatim>\<open>X-Forwarded-For\<close> token, else the remote address.\<close>

definition clientIP :: "request \<Rightarrow> string" where
  "clientIP r = (let xff = Header r ''X-Forwarded-For'' in
     if xff \<noteq> [] then strings_TrimSpace (before_sep CHR '','' xff) else RemoteAddr r)"

definition fill_entry :: "request \<Rightarrow> Entry \<Rightarrow> Entry" where
  "fill_entry r e =
    (let e1 = e\<lparr>Ent_IP := (if Ent_IP e = [] then clientIP r else Ent_IP e),
               Ent_UserAgent := (if Ent_UserAgent e = [] then UserAgent r else Ent_UserAgent e)\<rparr>;
         opid = strings_TrimSpace (Ent_OperatorID e)
     in e1\<lparr>Ent_OperatorID := (if opid = [] then (case OperatorFromContext r of
              Some opr \<Rightarrow> if AO_ID opr \<noteq> [] then AO_ID opr else [] | None \<Rightarrow> []) else opid)\<rparr>)"

definition WriteFromRequest :: "request \<Rightarrow> Entry \<Rightarrow> ('z store_scheme, unit) state" where
  "WriteFromRequest r e = Write (fill_entry r e)"

text \<open>An entry as the call sites build it, the other fields zero.\<close>

definition new_entry :: "string \<Rightarrow> string \<Rightarrow> string \<Rightarrow> string \<Rightarrow> (string \<times> detail) list \<Rightarrow> Entry" where
  "new_entry operatorID action targetType targetID details =
    \<lparr>Ent_ID = 0, Ent_Ts = zero_time, Ent_OperatorID = operatorID, Ent_Action = action,
     Ent_TargetType = targetType, Ent_TargetID = targetID, Ent_Details = details, Ent_IP = [],
     Ent_UserAgent = []\<rparr>"

section \<open>Facts\<close>

text \<open>The tables other than the audit log: what an audit write leaves alone.\<close>

definition unaudited :: "tables \<Rightarrow> tables" where
  "unaudited t = t\<lparr>audit_log := [], audit_seq := 0\<rparr>"

abbreviation unaudited_db :: "'z store_scheme \<Rightarrow> tables" where
  "unaudited_db s \<equiv> unaudited (db s)"

lemma fill_entry_sel [simp]:
  "Ent_Action (fill_entry r e) = Ent_Action e" "Ent_TargetID (fill_entry r e) = Ent_TargetID e"
  "Ent_Details (fill_entry r e) = Ent_Details e"
  by (simp_all add: fill_entry_def Let_def)

lemma new_entry_sel [simp]:
  "Ent_Action (new_entry i a tt ti d) = a" "Ent_TargetID (new_entry i a tt ti d) = ti"
  "Ent_Details (new_entry i a tt ti d) = d" "Ent_OperatorID (new_entry i a tt ti d) = i"
  by (simp_all add: new_entry_def)

lemma WriteFromRequest_ok [pres_rules]: "preserves db_ok (WriteFromRequest r e)"
  by (simp add: WriteFromRequest_def Write_ok)

lemma unaudited_Write [keep_rules]: "keeps unaudited_db (Write e)"
  by (rule Write_keeps) (simp_all add: unaudited_def)

lemma unaudited_WriteFromRequest [keep_rules]: "keeps unaudited_db (WriteFromRequest r e)"
  by (simp add: WriteFromRequest_def unaudited_Write)

lemma keeps_unaudited: "keeps db m \<Longrightarrow> keeps unaudited_db m"
  by (simp add: keeps_def)

text \<open>What reading the other tables needs of \<open>unaudited\<close>.\<close>

lemma unaudited_eqD:
  "unaudited t = unaudited t' \<Longrightarrow> accounts t = accounts t'"
  "unaudited t = unaudited t' \<Longrightarrow> operators t = operators t'"
  "unaudited t = unaudited t' \<Longrightarrow> sessions t = sessions t'"
  "unaudited t = unaudited t' \<Longrightarrow> subscription_key t = subscription_key t'"
  "unaudited t = unaudited t' \<Longrightarrow> components t = components t'"
  by (cases t; cases t'; simp add: unaudited_def)+

text \<open>Every audit row already written stays, in place and unchanged.\<close>

definition log_grows :: "tables \<Rightarrow> tables \<Rightarrow> bool" where
  "log_grows t t' \<longleftrightarrow> (\<exists>rs. audit_log t' = audit_log t @ rs)"

lemma log_grows_refl [simp]: "log_grows t t"
  by (simp add: log_grows_def)

lemma log_grows_trans: "log_grows t t' \<Longrightarrow> log_grows t' t'' \<Longrightarrow> log_grows t t''"
  by (auto simp: log_grows_def)

lemma Write_grows: "run_state (Write e) s = (x, s') \<Longrightarrow> log_grows (db s) (db s')"
  by (drule run_Write) (auto simp: log_grows_def appended_def)

end
