(* ===== verification/Store_Sessions.thy ===== *)
theory Store_Sessions
  imports Store_Operators
begin

text \<open>
  Admin sessions, \<^verbatim>\<open>internal/store/sessions.go\<close>. The lemmas: the operations keep the schema
  invariant under every fault schedule and leave the operators alone. How touching moves the idle window is shown in
  \<open>Session_Middleware\<close>.
\<close>

section \<open>Operations\<close>

definition SessionAbsoluteLifetime :: duration where
  "SessionAbsoluteLifetime = 24 * Hour"

definition SessionIdleLifetime :: duration where
  "SessionIdleLifetime = 8 * Hour"

definition generateSessionID :: "('z store_scheme, goerr + string) state" where
  "generateSessionID = do {
     r \<leftarrow> rand_Read 32;
     State_Monad.return (case r of Inl e \<Rightarrow> Inl (Errorf e) | Inr b \<Rightarrow> Inr (hex_EncodeToString b)) }"

definition scanSession :: "session_row \<Rightarrow> Session" where
  "scanSession r = \<lparr>Sess_ID = se_id r, Sess_OperatorID = se_operator_id r,
     Sess_CreatedAt = parse_rfc3339 (se_created_at r), Sess_LastSeenAt = parse_rfc3339 (se_last_seen_at r),
     Sess_ExpiresAt = parse_rfc3339 (se_expires_at r), Sess_IP = null_string (se_ip r),
     Sess_UserAgent = null_string (se_user_agent r)\<rparr>"

definition CreateSession :: "string \<Rightarrow> string \<Rightarrow> string \<Rightarrow> ('z store_scheme, goerr + Session) state" where
  "CreateSession operatorID ip userAgent = do {
     g \<leftarrow> generateSessionID;
     case g of
       Inl e \<Rightarrow> State_Monad.return (Inl (Wrapf ''generate session id'' e))
     | Inr i \<Rightarrow> do {
         now \<leftarrow> time_Now;
         let expires = now + SessionAbsoluteLifetime;
         r \<leftarrow> sql_stmt (insert_session \<lparr>se_id = i, se_operator_id = operatorID, se_created_at = rfc3339 now,
                se_last_seen_at = rfc3339 now, se_expires_at = rfc3339 expires, se_ip = Some ip,
                se_user_agent = Some userAgent\<rparr>);
         State_Monad.return (case r of
           Inl e \<Rightarrow> Inl (classify ''create session'' e
                     \<lparr>UniqueErr = None, ForeignErr = Some ErrOperatorNotFound, CheckErr = None\<rparr>)
         | Inr _ \<Rightarrow> Inr \<lparr>Sess_ID = i, Sess_OperatorID = operatorID, Sess_CreatedAt = now, Sess_LastSeenAt = now,
             Sess_ExpiresAt = expires, Sess_IP = ip, Sess_UserAgent = userAgent\<rparr>) } }"

text \<open>The \<^verbatim>\<open>INNER JOIN\<close> with \<^verbatim>\<open>operators\<close> hides a session whose operator is gone.\<close>

definition GetSession :: "string \<Rightarrow> ('z store_scheme, goerr + Session) state" where
  "GetSession i = do {
     r \<leftarrow> sql_query_row (\<lambda>t. find (\<lambda>q. se_id q = i \<and> se_operator_id q \<in> op_id ` set (operators t)) (sessions t));
     State_Monad.return (case r of
       Inl e \<Rightarrow> if errors_Is e ErrNoRows then Inl (Wrapf ''get session'' (Sentinel ErrSessionNotFound))
               else Inl (Wrapf ''get session'' e)
     | Inr row \<Rightarrow> Inr (scanSession row)) }"

text \<open>Any error of the existence probe, not only \<^verbatim>\<open>sql.ErrNoRows\<close>, is reported as not found.\<close>

definition TouchSession :: "string \<Rightarrow> go_time \<Rightarrow> ('z store_scheme, goerr + unit) state" where
  "TouchSession i now = do {
     let nowStr = rfc3339 now;
     r \<leftarrow> sql_stmt (update_sessions (\<lambda>q. se_id q = i \<and> se_last_seen_at q < nowStr)
                     (\<lambda>q. q\<lparr>se_last_seen_at := nowStr\<rparr>));
     case r of
       Inl e \<Rightarrow> State_Monad.return (Inl (Wrapf ''touch session'' e))
     | Inr n \<Rightarrow> if n = 0 then do {
           p \<leftarrow> sql_query_row (\<lambda>t. find (\<lambda>q. se_id q = i) (sessions t));
           State_Monad.return (case p of
             Inl e \<Rightarrow> Inl (Wrapf ''touch session'' (Sentinel ErrSessionNotFound))
           | Inr _ \<Rightarrow> Inr ()) }
         else State_Monad.return (Inr ()) }"

definition DeleteSession :: "string \<Rightarrow> ('z store_scheme, goerr + unit) state" where
  "DeleteSession i = do {
     r \<leftarrow> sql_stmt (delete_sessions (\<lambda>q. se_id q = i));
     State_Monad.return (case r of Inl e \<Rightarrow> Inl (Wrapf ''delete session'' e) | Inr _ \<Rightarrow> Inr ()) }"

definition DeleteOperatorSessions :: "string \<Rightarrow> ('z store_scheme, goerr + unit) state" where
  "DeleteOperatorSessions operatorID =
    (if operatorID = [] then State_Monad.return (Inl (Errorf ''delete operator sessions: operator id is empty''))
     else do {
       r \<leftarrow> sql_stmt (delete_sessions (\<lambda>q. se_operator_id q = operatorID));
       State_Monad.return (case r of Inl e \<Rightarrow> Inl (Wrapf ''delete operator sessions'' e) | Inr _ \<Rightarrow> Inr ()) })"

section \<open>Facts\<close>

lemma scanSession_sel [simp]:
  "Sess_ID (scanSession r) = se_id r" "Sess_OperatorID (scanSession r) = se_operator_id r"
  "Sess_LastSeenAt (scanSession r) = parse_rfc3339 (se_last_seen_at r)"
  "Sess_ExpiresAt (scanSession r) = parse_rfc3339 (se_expires_at r)"
  by (simp_all add: scanSession_def)

lemma run_GetSession:
  "run_state (GetSession i) s =
    (case fault s (stmts s) of
       Some m \<Rightarrow> Inl (Wrapf ''get session'' (SqlErr m))
     | None \<Rightarrow> (case find (\<lambda>q. se_id q = i \<and> se_operator_id q \<in> op_id ` set (operators (db s))) (sessions (db s)) of
         None \<Rightarrow> Inl (Wrapf ''get session'' (Sentinel ErrSessionNotFound))
       | Some r \<Rightarrow> Inr (scanSession r)),
     s\<lparr>stmts := Suc (stmts s)\<rparr>)"
  by (simp add: GetSession_def run_sql_query_row split: option.splits)

lemma run_DeleteSession:
  "run_state (DeleteSession i) s =
    (case fault s (stmts s) of
       Some m \<Rightarrow> (Inl (Wrapf ''delete session'' (SqlErr m)), s\<lparr>stmts := Suc (stmts s)\<rparr>)
     | None \<Rightarrow> (Inr (), s\<lparr>stmts := Suc (stmts s),
         db := (db s)\<lparr>sessions := filter (\<lambda>q. se_id q \<noteq> i) (sessions (db s))\<rparr>\<rparr>))"
  by (simp add: DeleteSession_def run_sql_stmt delete_sessions_def split: option.splits)

lemma GetSession_keeps [keep_rules]: "keeps db (GetSession i)"
  by (auto simp: GetSession_def intro!: keep_rules)

lemma generateSessionID_keeps [keep_rules]: "keeps db generateSessionID"
  by (auto simp: generateSessionID_def intro!: keep_rules)

lemma CreateSession_ok [pres_rules]: "preserves db_ok (CreateSession o_id ip ua)"
  by (auto simp: CreateSession_def Let_def intro!: pres_rules insert_session_ok
      keeps_preserves[OF generateSessionID_keeps])

lemma TouchSession_ok [pres_rules]: "preserves db_ok (TouchSession i now)"
  by (auto simp: TouchSession_def Let_def intro!: pres_rules update_sessions_ok)

lemma DeleteSession_ok [pres_rules]: "preserves db_ok (DeleteSession i)"
  by (auto simp: DeleteSession_def intro!: pres_rules delete_sessions_ok)

lemma DeleteOperatorSessions_ok [pres_rules]: "preserves db_ok (DeleteOperatorSessions i)"
  by (auto simp: DeleteOperatorSessions_def intro!: pres_rules delete_sessions_ok)

text \<open>The session operations leave the operators alone.\<close>

lemmas keeps_session_stmt = keeps_table_stmt[where F = operators]

lemma operators_TouchSession [keep_rules]: "keeps (\<lambda>s. operators (db s)) (TouchSession i now)"
  by (auto simp: TouchSession_def Let_def update_sessions_def intro!: keep_rules keeps_session_stmt)

lemma operators_DeleteSession [keep_rules]: "keeps (\<lambda>s. operators (db s)) (DeleteSession i)"
  by (auto simp: DeleteSession_def delete_sessions_def intro!: keep_rules keeps_session_stmt)

lemma operators_DeleteOperatorSessions [keep_rules]: "keeps (\<lambda>s. operators (db s)) (DeleteOperatorSessions i)"
  by (auto simp: DeleteOperatorSessions_def delete_sessions_def intro!: keep_rules keeps_session_stmt)

lemma operators_CreateSession [keep_rules]: "keeps (\<lambda>s. operators (db s)) (CreateSession o_id ip ua)"
  by (auto simp: CreateSession_def Let_def insert_session_def generateSessionID_def
      intro!: keep_rules keeps_session_stmt split: if_splits)

end
