(* ===== verification/Guard.thy ===== *)
theory Guard
  imports Audit_Log Store_Sessions
begin

text \<open>
  The interface of a middleware that guards a handler. \<open>core\<close> is the content of the database that
  the admin API administers: all tables but the sessions and the audit log. A guard either
  refuses on its own, giving the same response whatever the wrapped handler, or lets the request
  through to it once, possibly with a changed request; neither way does it touch the core itself.
  From these laws follows, once for every guard, that the core changes behind a guard only if the
  guard let the request through and the wrapped handler changed it.
\<close>

definition core :: "tables \<Rightarrow> tables" where
  "core t = t\<lparr>sessions := [], audit_log := [], audit_seq := 0\<rparr>"

abbreviation core_db :: "'z store_scheme \<Rightarrow> tables" where
  "core_db s \<equiv> core (db s)"

type_synonym 's handler = "request \<Rightarrow> ('s, response) state"

lemma core_sel [simp]:
  "accounts (core t) = accounts t" "operators (core t) = operators t" "components (core t) = components t"
  "subscription_key (core t) = subscription_key t"
  by (simp_all add: core_def)

lemma core_eqD:
  "core t = core t' \<Longrightarrow> accounts t = accounts t'" "core t = core t' \<Longrightarrow> operators t = operators t'"
  "core t = core t' \<Longrightarrow> components t = components t'" "core t = core t' \<Longrightarrow> subscription_key t = subscription_key t'"
  by (metis core_sel)+

lemma keeps_core: "keeps db m \<Longrightarrow> keeps core_db m"
  by (simp add: keeps_def)

lemma core_unaudited: "core (unaudited t) = core t"
  by (simp add: core_def unaudited_def)

lemma keeps_core_unaudited: "keeps unaudited_db m \<Longrightarrow> keeps core_db m"
  unfolding keeps_def by (metis core_unaudited)

lemma core_Write [keep_rules]: "keeps core_db (WriteFromRequest r e)"
  by (rule keeps_core_unaudited) (rule unaudited_WriteFromRequest)

lemma keeps_core_session_stmt:
  "(\<And>t a t'. f t = Inr (a, t') \<Longrightarrow> \<exists>ss. t' = t\<lparr>sessions := ss\<rparr>) \<Longrightarrow> keeps core_db (sql_stmt f)"
  by (fastforce simp: keeps_def run_sql_stmt core_def split: option.splits sum.splits)

lemma core_session_ops [keep_rules]:
  "keeps core_db (TouchSession i now)" "keeps core_db (DeleteSession i)" "keeps core_db (DeleteOperatorSessions i)"
  "keeps core_db (CreateSession i ip ua)"
  unfolding TouchSession_def DeleteSession_def DeleteOperatorSessions_def CreateSession_def generateSessionID_def Let_def
  by (auto intro!: keep_rules keeps_core_session_stmt
      simp: update_sessions_def delete_sessions_def insert_session_def split: if_splits)

lemmas core_reads [keep_rules] =
  keeps_core[OF GetSession_keeps] keeps_core[OF GetOperator_keeps] keeps_core[OF GetOperatorByEmail_keeps]
  keeps_core[OF ListOperators_keeps] keeps_core[OF ListAuditEntries_keeps]

locale guard =
  fixes mw :: "'z store_scheme handler \<Rightarrow> 'z store_scheme handler"
    and lets :: "'z store_scheme \<Rightarrow> request \<Rightarrow> request \<Rightarrow> bool"
  assumes law: "(\<exists>w s'. core_db s' = core_db s \<and> (\<forall>next. run_state (mw next r) s = (w, s'))) \<or>
    (\<exists>r' s1 post. lets s r r' \<and> core_db s1 = core_db s \<and> (\<forall>w s2. core_db (post w s2) = core_db s2) \<and>
       (\<forall>next. run_state (mw next r) s = (case run_state (next r') s1 of (w, s2) \<Rightarrow> (w, post w s2))))"
begin

text \<open>A request the guard does not let through never reaches the handler.\<close>

lemma refused: "(\<nexists>r'. lets s r r') \<Longrightarrow> \<exists>w s'. core_db s' = core_db s \<and> (\<forall>next. run_state (mw next r) s = (w, s'))"
  using law[of s r] by blast

lemma core_change:
  assumes "core_db (snd (run_state (mw next r) s)) \<noteq> core_db s"
  shows "\<exists>r' s1. lets s r r' \<and> core_db s1 = core_db s \<and> core_db (snd (run_state (next r') s1)) \<noteq> core_db s1"
  using law[of s r]
proof
  assume "\<exists>w s'. core_db s' = core_db s \<and> (\<forall>next. run_state (mw next r) s = (w, s'))"
  with assms show ?thesis by (metis snd_conv)
next
  assume "\<exists>r' s1 post. lets s r r' \<and> core_db s1 = core_db s \<and> (\<forall>w s2. core_db (post w s2) = core_db s2) \<and>
       (\<forall>next. run_state (mw next r) s = (case run_state (next r') s1 of (w, s2) \<Rightarrow> (w, post w s2)))"
  then obtain r' s1 post where l: "lets s r r'" "core_db s1 = core_db s" "\<forall>w s2. core_db (post w s2) = core_db s2"
    and run: "run_state (mw next r) s = (case run_state (next r') s1 of (w, s2) \<Rightarrow> (w, post w s2))" by blast
  then have "core_db (snd (run_state (mw next r) s)) = core_db (snd (run_state (next r') s1))"
    by (simp split: prod.splits)
  with assms l show ?thesis by metis
qed

text \<open>A handler that keeps the core keeps it behind the guard.\<close>

lemma core_kept: "(\<And>r'. keeps core_db (next r')) \<Longrightarrow> keeps core_db (mw next r)"
  using core_change[of "next" r] unfolding keeps_def by blast

end

end
