(* ===== verification/Store_Keys.thy ===== *)
theory Store_Keys
  imports Sql_Schema
begin

text \<open>
  Subscription keys in \<^verbatim>\<open>internal/store/sqlite.go\<close> and \<^verbatim>\<open>accounts.go\<close>: scanning a row, key values,
  and the operations of the \<^verbatim>\<open>KeyStore\<close> interface. The lemmas give each operation's result on every
  branch, that each keeps the schema invariant under every fault schedule, and that a row scans exactly
  when its expiry lies in the years 0 to 9999; one that does not makes every listing that meets it fail.
\<close>

section \<open>Rows and key values\<close>

text \<open>The fields of a scanned row, with the expiry that was parsed.\<close>

definition key_of_row :: "key_row \<Rightarrow> go_time option \<Rightarrow> Key" where
  "key_of_row r expires = \<lparr>Key_ID = k_id r, Key_Component = k_component r, Key_Active = (k_active r = 1),
     Key_Label = k_label r, Key_CreatedAt = parse_rfc3339 (k_created_at r), Key_ExpiresAt = expires,
     Key_UsageCount = k_usage_count r, Key_AccountID = k_account_id r\<rparr>"

text \<open>The expiry comes from a client and is stored without a check, so reading it back can fail.\<close>

definition scanKey :: "key_row \<Rightarrow> goerr + Key" where
  "scanKey r = (case k_expires_at r of
       None \<Rightarrow> Inr (key_of_row r None)
     | Some e \<Rightarrow> (case time_Parse (rfc3339_text e) of
         None \<Rightarrow> Inl (Wrapf ''parse expires_at'' (Errorf ''parsing time''))
       | Some t \<Rightarrow> Inr (key_of_row r (Some t))))"

definition generateKeyValue :: "('z store_scheme, goerr + string) state" where
  "generateKeyValue = do {
     r \<leftarrow> rand_Read 32;
     State_Monad.return (case r of Inl e \<Rightarrow> Inl (Errorf e) | Inr b \<Rightarrow> Inr (hex_EncodeToString b)) }"

definition formatNullTime :: "go_time option \<Rightarrow> int option" where
  "formatNullTime t = map_option rfc3339 t"

section \<open>Operations\<close>

definition GetByValue :: "string \<Rightarrow> ('z store_scheme, goerr + Key) state" where
  "GetByValue value = do {
     r \<leftarrow> sql_query_row (\<lambda>t. find (\<lambda>q. k_id q = value) (subscription_key t));
     State_Monad.return (case r of
       Inl e \<Rightarrow> if errors_Is e ErrNoRows then Inl (Wrapf ''get key'' (Sentinel ErrNotFound))
               else Inl (Wrapf ''get key'' e)
     | Inr row \<Rightarrow> (case scanKey row of
         Inl e \<Rightarrow> Inl (Wrapf ''get key'' e)
       | Inr k \<Rightarrow> if \<not> Key_Active k then Inl (Wrapf ''get key'' (Sentinel ErrRevoked)) else Inr k)) }"

definition GetByID :: "string \<Rightarrow> ('z store_scheme, goerr + Key) state" where
  "GetByID i = do {
     r \<leftarrow> sql_query_row (\<lambda>t. find (\<lambda>q. k_id q = i) (subscription_key t));
     State_Monad.return (case r of
       Inl e \<Rightarrow> if errors_Is e ErrNoRows then Inl (Wrapf ''get key'' (Sentinel ErrNotFound))
               else Inl (Wrapf ''get key'' e)
     | Inr row \<Rightarrow> (case scanKey row of Inl e \<Rightarrow> Inl (Wrapf ''get key'' e) | Inr k \<Rightarrow> Inr k)) }"

text \<open>\<^verbatim>\<open>ORDER BY created_at DESC\<close> alone: rows of the same second stay in insertion order.\<close>

definition ListKeys :: "string \<Rightarrow> string \<Rightarrow> int \<Rightarrow> int \<Rightarrow> ('z store_scheme, goerr + Key list) state" where
  "ListKeys componentFilter accountFilter offset limit = do {
     r \<leftarrow> sql_query (\<lambda>t. sql_page limit offset (sort_key (\<lambda>q. - k_created_at q)
            (filter (\<lambda>q. (componentFilter \<noteq> [] \<longrightarrow> k_component q = componentFilter) \<and>
                         (accountFilter \<noteq> [] \<longrightarrow> k_account_id q = accountFilter)) (subscription_key t))));
     State_Monad.return (case r of Inl e \<Rightarrow> Inl (Wrapf ''list keys'' e) | Inr rows \<Rightarrow> scan_rows ''scan key'' scanKey rows) }"

definition RevokeKey :: "string \<Rightarrow> ('z store_scheme, goerr + unit) state" where
  "RevokeKey i = do {
     r \<leftarrow> sql_stmt (update_keys (\<lambda>q. k_id q = i) (\<lambda>q. q\<lparr>k_active := 0\<rparr>));
     State_Monad.return (case r of
       Inl e \<Rightarrow> Inl (Wrapf ''revoke key'' e)
     | Inr n \<Rightarrow> if n = 0 then Inl (Wrapf ''revoke key'' (Sentinel ErrNotFound)) else Inr ()) }"

definition IncrementUsage :: "string \<Rightarrow> ('z store_scheme, goerr + unit) state" where
  "IncrementUsage i = do {
     r \<leftarrow> sql_stmt (update_keys (\<lambda>q. k_id q = i) (\<lambda>q. q\<lparr>k_usage_count := k_usage_count q + 1\<rparr>));
     State_Monad.return (case r of
       Inl e \<Rightarrow> Inl (Wrapf ''increment usage'' e)
     | Inr n \<Rightarrow> if n = 0 then Inl (Wrapf ''increment usage'' (Sentinel ErrNotFound)) else Inr ()) }"

definition CreateKeyForAccount ::
  "string \<Rightarrow> string \<Rightarrow> string \<Rightarrow> go_time option \<Rightarrow> ('z store_scheme, goerr + Key) state" where
  "CreateKeyForAccount accountID component label expiresAt = do {
     g \<leftarrow> generateKeyValue;
     case g of
       Inl e \<Rightarrow> State_Monad.return (Inl (Wrapf ''generate key'' e))
     | Inr i \<Rightarrow> do {
         now \<leftarrow> time_Now;
         r \<leftarrow> sql_stmt (insert_key \<lparr>k_id = i, k_component = component, k_label = label, k_active = 1,
                k_created_at = rfc3339 now, k_expires_at = formatNullTime expiresAt,
                k_usage_count = 0, k_account_id = accountID\<rparr>);
         State_Monad.return (case r of
           Inl e \<Rightarrow> Inl (classifyConstraintError ''create key for account'' e)
         | Inr _ \<Rightarrow> Inr \<lparr>Key_ID = i, Key_Component = component, Key_Active = True, Key_Label = label,
             Key_CreatedAt = now, Key_ExpiresAt = expiresAt, Key_UsageCount = 0,
             Key_AccountID = accountID\<rparr>) } }"

definition CreateKey ::
  "string \<Rightarrow> string \<Rightarrow> string \<Rightarrow> go_time option \<Rightarrow> ('z store_scheme, goerr + Key) state" where
  "CreateKey accountID component label expiresAt = CreateKeyForAccount accountID component label expiresAt"

section \<open>Facts\<close>

lemma key_of_row_sel [simp]:
  "Key_ID (key_of_row r x) = k_id r" "Key_Component (key_of_row r x) = k_component r"
  "Key_Active (key_of_row r x) = (k_active r = 1)" "Key_Label (key_of_row r x) = k_label r"
  "Key_UsageCount (key_of_row r x) = k_usage_count r" "Key_AccountID (key_of_row r x) = k_account_id r"
  "Key_ExpiresAt (key_of_row r x) = x" "Key_CreatedAt (key_of_row r x) = parse_rfc3339 (k_created_at r)"
  by (simp_all add: key_of_row_def)

text \<open>A row whose expiry can be read back, and the key it is read as.\<close>

definition readable :: "key_row \<Rightarrow> bool" where
  "readable r \<longleftrightarrow> (case k_expires_at r of None \<Rightarrow> True | Some e \<Rightarrow> in_years e)"

abbreviation read_key :: "key_row \<Rightarrow> Key" where
  "read_key r \<equiv> key_of_row r (map_option parse_rfc3339 (k_expires_at r))"

abbreviation unreadable_expiry :: goerr where
  "unreadable_expiry \<equiv> Wrapf ''parse expires_at'' (Errorf ''parsing time'')"

lemma scanKey_readable: "scanKey r = (if readable r then Inr (read_key r) else Inl unreadable_expiry)"
  by (simp add: scanKey_def readable_def time_Parse_rfc3339_text split: option.splits)

lemma scanKeys_readable:
  "scan_rows op scanKey rs = (if list_all readable rs then Inr (map read_key rs) else Inl (Wrapf op unreadable_expiry))"
  by (induction rs) (simp_all add: scanKey_readable)

lemma run_generateKeyValue [run_simps]:
  "run_state generateKeyValue s =
    (case entropy_err s (draws s) of Some e \<Rightarrow> Inl (Errorf e)
       | None \<Rightarrow> Inr (hex_EncodeToString (map (entropy s (draws s)) [0..<32])),
     s\<lparr>draws := Suc (draws s)\<rparr>)"
  by (simp add: generateKeyValue_def run_simps split: option.splits)

text \<open>Key values are 64 lower-case hexadecimal digits.\<close>

lemma generateKeyValue_shape:
  "run_state generateKeyValue s = (Inr v, s') \<Longrightarrow> length v = 64 \<and> set v \<subseteq> set hex_digits"
  using set_hex by (auto simp: run_generateKeyValue length_hex split: option.splits)

lemma run_GetByValue:
  "run_state (GetByValue v) s =
    (case fault s (stmts s) of
       Some m \<Rightarrow> Inl (Wrapf ''get key'' (SqlErr m))
     | None \<Rightarrow> (case find (\<lambda>q. k_id q = v) (subscription_key (db s)) of
         None \<Rightarrow> Inl (Wrapf ''get key'' (Sentinel ErrNotFound))
       | Some r \<Rightarrow> if \<not> readable r then Inl (Wrapf ''get key'' unreadable_expiry)
                  else if k_active r = 1 then Inr (read_key r)
                  else Inl (Wrapf ''get key'' (Sentinel ErrRevoked))),
     s\<lparr>stmts := Suc (stmts s)\<rparr>)"
  by (simp add: GetByValue_def run_sql_query_row scanKey_readable split: option.splits)

lemma run_GetByID:
  "run_state (GetByID v) s =
    (case fault s (stmts s) of
       Some m \<Rightarrow> Inl (Wrapf ''get key'' (SqlErr m))
     | None \<Rightarrow> (case find (\<lambda>q. k_id q = v) (subscription_key (db s)) of
         None \<Rightarrow> Inl (Wrapf ''get key'' (Sentinel ErrNotFound))
       | Some r \<Rightarrow> if readable r then Inr (read_key r) else Inl (Wrapf ''get key'' unreadable_expiry)),
     s\<lparr>stmts := Suc (stmts s)\<rparr>)"
  by (simp add: GetByID_def run_sql_query_row scanKey_readable split: option.splits)

lemma count_rows_0: "count_rows p rs = 0 \<longleftrightarrow> (\<forall>r \<in> set rs. \<not> p r)"
  by (simp add: count_rows_def filter_empty_conv)

text \<open>A single-row \<^verbatim>\<open>UPDATE\<close> of the key table by primary key.\<close>

lemma run_update_key:
  "run_state (sql_stmt (update_keys (\<lambda>q. k_id q = i) g)) s =
    (case fault s (stmts s) of
       Some m \<Rightarrow> (Inl (SqlErr m), s\<lparr>stmts := Suc (stmts s)\<rparr>)
     | None \<Rightarrow> (Inr (count_rows (\<lambda>q. k_id q = i) (subscription_key (db s))),
         s\<lparr>stmts := Suc (stmts s),
           db := (db s)\<lparr>subscription_key := update_rows (\<lambda>q. k_id q = i) g (subscription_key (db s))\<rparr>\<rparr>))"
  by (simp add: run_sql_stmt update_keys_def split: option.splits)

lemma run_IncrementUsage:
  "run_state (IncrementUsage i) s =
    (case fault s (stmts s) of
       Some m \<Rightarrow> (Inl (Wrapf ''increment usage'' (SqlErr m)), s\<lparr>stmts := Suc (stmts s)\<rparr>)
     | None \<Rightarrow> (if i \<in> k_id ` set (subscription_key (db s)) then Inr ()
                else Inl (Wrapf ''increment usage'' (Sentinel ErrNotFound)),
         s\<lparr>stmts := Suc (stmts s),
           db := (db s)\<lparr>subscription_key := update_rows (\<lambda>q. k_id q = i)
             (\<lambda>q. q\<lparr>k_usage_count := k_usage_count q + 1\<rparr>) (subscription_key (db s))\<rparr>\<rparr>))"
  by (auto simp: IncrementUsage_def run_update_key count_rows_0 split: option.splits)

lemma run_RevokeKey:
  "run_state (RevokeKey i) s =
    (case fault s (stmts s) of
       Some m \<Rightarrow> (Inl (Wrapf ''revoke key'' (SqlErr m)), s\<lparr>stmts := Suc (stmts s)\<rparr>)
     | None \<Rightarrow> (if i \<in> k_id ` set (subscription_key (db s)) then Inr ()
                else Inl (Wrapf ''revoke key'' (Sentinel ErrNotFound)),
         s\<lparr>stmts := Suc (stmts s),
           db := (db s)\<lparr>subscription_key := update_rows (\<lambda>q. k_id q = i)
             (\<lambda>q. q\<lparr>k_active := 0\<rparr>) (subscription_key (db s))\<rparr>\<rparr>))"
  by (auto simp: RevokeKey_def run_update_key count_rows_0 split: option.splits)

text \<open>The schema invariant, under every fault schedule.\<close>

lemma GetByValue_keeps [keep_rules]: "keeps db (GetByValue v)"
  by (auto simp: GetByValue_def intro!: keep_rules)

lemma GetByID_keeps [keep_rules]: "keeps db (GetByID v)"
  by (auto simp: GetByID_def intro!: keep_rules)

lemma ListKeys_keeps [keep_rules]: "keeps db (ListKeys c a offset limit)"
  by (auto simp: ListKeys_def intro!: keep_rules)

lemma RevokeKey_ok [pres_rules]: "preserves db_ok (RevokeKey i)"
  by (auto simp: RevokeKey_def key_ok_def intro!: pres_rules update_keys_ok)

lemma IncrementUsage_ok [pres_rules]: "preserves db_ok (IncrementUsage i)"
  by (auto simp: IncrementUsage_def key_ok_def intro!: pres_rules update_keys_ok)

lemma generateKeyValue_keeps [keep_rules]: "keeps db generateKeyValue"
  by (auto simp: generateKeyValue_def intro!: keep_rules)

lemma CreateKeyForAccount_ok [pres_rules]: "preserves db_ok (CreateKeyForAccount a c l e)"
  by (auto simp: CreateKeyForAccount_def key_ok_def intro!: pres_rules insert_key_ok
      keeps_preserves[OF generateKeyValue_keeps])

lemma CreateKey_ok [pres_rules]: "preserves db_ok (CreateKey a c l e)"
  by (simp add: CreateKey_def CreateKeyForAccount_ok)

text \<open>Revocation is final for lookups by value, and touches no other key.\<close>

lemma RevokeKey_effect:
  assumes "run_state (RevokeKey i) s = (Inr (), s')" "distinct (map k_id (subscription_key (db s)))"
  shows "\<exists>r. find (\<lambda>q. k_id q = i) (subscription_key (db s')) = Some r \<and> k_active r = 0"
    and "j \<noteq> i \<Longrightarrow> find (\<lambda>q. k_id q = j) (subscription_key (db s')) =
      find (\<lambda>q. k_id q = j) (subscription_key (db s))"
proof -
  have f: "fault s (stmts s) = None" and i: "i \<in> k_id ` set (subscription_key (db s))"
    and s': "subscription_key (db s') = update_rows (\<lambda>q. k_id q = i) (\<lambda>q. q\<lparr>k_active := 0\<rparr>)
      (subscription_key (db s))"
    using assms(1) by (auto simp: run_RevokeKey split: option.splits if_splits)
  obtain r where r: "find (\<lambda>q. k_id q = i) (subscription_key (db s)) = Some r"
    using i by (cases "find (\<lambda>q. k_id q = i) (subscription_key (db s))") (auto simp: find_key_None)
  then show "\<exists>r. find (\<lambda>q. k_id q = i) (subscription_key (db s')) = Some r \<and> k_active r = 0"
    using find_Some_set[OF r] by (simp add: s' update_rows_def find_map_update)
  show "find (\<lambda>q. k_id q = j) (subscription_key (db s')) = find (\<lambda>q. k_id q = j) (subscription_key (db s))"
    if "j \<noteq> i"
    using that unfolding s' update_rows_def
    by (subst find_map_update) (auto simp: option.map_ident_strong dest!: find_Some_set
        intro!: option.map_ident_strong)
qed

end
