(* ===== verification/Store_Accounts.thy ===== *)
theory Store_Accounts
  imports Store_Keys
begin

text \<open>
  Subscriber accounts, \<^verbatim>\<open>internal/store/accounts.go\<close>. The lemmas: every operation keeps the schema
  invariant, the legacy account included, under every fault schedule; a deletion is atomic and revokes exactly the active
  keys of the account.
\<close>

section \<open>Operations\<close>

definition generateAccountID :: "('z store_scheme, goerr + string) state" where
  "generateAccountID = do {
     r \<leftarrow> rand_Read 16;
     State_Monad.return (case r of Inl e \<Rightarrow> Inl (Errorf e) | Inr b \<Rightarrow> Inr (hex_EncodeToString b)) }"

definition scanAccount :: "account_row \<Rightarrow> Account" where
  "scanAccount r = \<lparr>Acc_ID = ac_id r, Acc_Email = ac_email r,
     Acc_OrgName = (case ac_org_name r of None \<Rightarrow> [] | Some v \<Rightarrow> v), Acc_Status = ac_status r,
     Acc_CreatedAt = parse_rfc3339 (ac_created_at r),
     Acc_CreatedByOperatorID = ac_created_by_operator_id r\<rparr>"

definition CreateAccount :: "AccountInput \<Rightarrow> string \<Rightarrow> ('z store_scheme, goerr + Account) state" where
  "CreateAccount inp createdByOperatorID = do {
     g \<leftarrow> generateAccountID;
     case g of
       Inl e \<Rightarrow> State_Monad.return (Inl (Wrapf ''generate account id'' e))
     | Inr i \<Rightarrow> do {
         now \<leftarrow> time_Now;
         r \<leftarrow> sql_stmt (insert_account \<lparr>ac_id = i, ac_email = canonicalEmail (In_Email inp),
                ac_org_name = Some (In_OrgName inp), ac_status = ''active'',
                ac_created_at = rfc3339 now, ac_created_by_operator_id = createdByOperatorID\<rparr>);
         State_Monad.return (case r of
           Inl e \<Rightarrow> Inl (classifyConstraintError ''create account'' e)
         | Inr _ \<Rightarrow> Inr \<lparr>Acc_ID = i, Acc_Email = canonicalEmail (In_Email inp),
             Acc_OrgName = In_OrgName inp, Acc_Status = AccountStatusActive, Acc_CreatedAt = now,
             Acc_CreatedByOperatorID = createdByOperatorID\<rparr>) } }"

definition GetAccount :: "string \<Rightarrow> ('z store_scheme, goerr + Account) state" where
  "GetAccount i = do {
     r \<leftarrow> sql_query_row (\<lambda>t. find (\<lambda>q. ac_id q = i) (accounts t));
     State_Monad.return (case r of
       Inl e \<Rightarrow> if errors_Is e ErrNoRows then Inl (Wrapf ''get account'' (Sentinel ErrAccountNotFound))
               else Inl (Wrapf ''get account'' e)
     | Inr row \<Rightarrow> let a = scanAccount row in
         if Acc_Status a = AccountStatusDeleted then Inl (Wrapf ''get account'' (Sentinel ErrAccountNotFound))
         else Inr a) }"

text \<open>\<^verbatim>\<open>ORDER BY created_at DESC, id DESC\<close>.\<close>

definition ListAccounts :: "AccountStatus \<Rightarrow> int \<Rightarrow> int \<Rightarrow> ('z store_scheme, goerr + Account list) state" where
  "ListAccounts statusFilter offset limit = do {
     r \<leftarrow> sql_query (\<lambda>t. sql_page limit offset (rev (sort_key (\<lambda>q. (ac_created_at q, ac_id q))
            (filter (\<lambda>q. if statusFilter = [] then ac_status q \<noteq> ''deleted''
                         else ac_status q = statusFilter) (accounts t)))));
     State_Monad.return (case r of Inl e \<Rightarrow> Inl (Wrapf ''list accounts'' e) | Inr rows \<Rightarrow> Inr (map scanAccount rows)) }"

text \<open>The \<^verbatim>\<open>SET email = COALESCE(?, email), ...\<close> of \<^verbatim>\<open>UpdateAccount\<close>.\<close>

definition coalesce :: "'a option \<Rightarrow> 'a \<Rightarrow> 'a" where
  "coalesce a b = (case a of None \<Rightarrow> b | Some x \<Rightarrow> x)"

definition apply_account_update :: "AccountUpdate \<Rightarrow> account_row \<Rightarrow> account_row" where
  "apply_account_update upd r = r\<lparr>
     ac_email := coalesce (map_option canonicalEmail (Upd_Email upd)) (ac_email r),
     ac_org_name := (case Upd_OrgName upd of None \<Rightarrow> ac_org_name r | Some v \<Rightarrow> Some v),
     ac_status := coalesce (Upd_Status upd) (ac_status r)\<rparr>"

definition UpdateAccount :: "string \<Rightarrow> AccountUpdate \<Rightarrow> ('z store_scheme, goerr + Account) state" where
  "UpdateAccount i upd =
    (if Upd_Status upd = Some AccountStatusDeleted
       then State_Monad.return (Inl (Wrapf ''update account'' (Sentinel ErrInvalidStatusTransition)))
     else if i = legacyAccountID \<and> Upd_Status upd \<noteq> None \<and> Upd_Status upd \<noteq> Some AccountStatusActive
       then State_Monad.return (Inl (Wrapf ''update account'' (Sentinel ErrLegacyAccountProtected)))
     else if i = legacyAccountID \<and> (Upd_Email upd \<noteq> None \<or> Upd_OrgName upd \<noteq> None)
       then State_Monad.return (Inl (Wrapf ''update account'' (Sentinel ErrLegacyAccountProtected)))
     else do {
       r \<leftarrow> sql_stmt (update_account i (apply_account_update upd));
       State_Monad.return (case row_result r of
         Inl e \<Rightarrow> if errors_Is e ErrNoRows then Inl (Wrapf ''update account'' (Sentinel ErrAccountNotFound))
                 else Inl (classifyConstraintError ''update account'' e)
       | Inr row \<Rightarrow> Inr (scanAccount row)) })"

definition DeleteAccountWithCascade :: "string \<Rightarrow> ('z store_scheme, goerr + int) state" where
  "DeleteAccountWithCascade i =
    (if i = legacyAccountID
       then State_Monad.return (Inl (Wrapf ''delete account'' (Sentinel ErrLegacyAccountProtected)))
     else sql_tx ''begin tx'' ''commit delete'' (do {
       r \<leftarrow> sql_query_row (\<lambda>t. map_option ac_status (find (\<lambda>q. ac_id q = i) (accounts t)));
       case r of
         Inl e \<Rightarrow> State_Monad.return
           (if errors_Is e ErrNoRows then Inl (Wrapf ''delete account'' (Sentinel ErrAccountNotFound))
            else Inl (Wrapf ''delete account lookup'' e))
       | Inr status \<Rightarrow>
           if status = AccountStatusDeleted
             then State_Monad.return (Inl (Wrapf ''delete account'' (Sentinel ErrAccountNotFound)))
           else do {
             n \<leftarrow> sql_stmt (update_keys (\<lambda>q. k_account_id q = i \<and> k_active q = 1) (\<lambda>q. q\<lparr>k_active := 0\<rparr>));
             case n of
               Inl e \<Rightarrow> State_Monad.return (Inl (Wrapf ''cascade revoke keys'' e))
             | Inr revoked \<Rightarrow> do {
                 u \<leftarrow> sql_stmt (update_account i (\<lambda>q. q\<lparr>ac_status := ''deleted''\<rparr>));
                 State_Monad.return (case u of
                   Inl e \<Rightarrow> Inl (Wrapf ''mark account deleted'' e)
                 | Inr _ \<Rightarrow> Inr revoked) } } }))"

definition CountActiveAccountKeys :: "string \<Rightarrow> ('z store_scheme, goerr + int) state" where
  "CountActiveAccountKeys i = do {
     r \<leftarrow> sql_query (\<lambda>t. count_rows (\<lambda>q. k_account_id q = i \<and> k_active q = 1) (subscription_key t));
     State_Monad.return (case r of Inl e \<Rightarrow> Inl (Wrapf ''count active account keys'' e) | Inr n \<Rightarrow> Inr n) }"

definition ListAccountKeys :: "string \<Rightarrow> int \<Rightarrow> int \<Rightarrow> ('z store_scheme, goerr + Key list) state" where
  "ListAccountKeys i offset limit = do {
     r \<leftarrow> sql_query (\<lambda>t. sql_page limit offset (rev (sort_key (\<lambda>q. (k_created_at q, k_id q))
            (filter (\<lambda>q. k_account_id q = i) (subscription_key t)))));
     State_Monad.return (case r of Inl e \<Rightarrow> Inl (Wrapf ''list account keys'' e) | Inr rows \<Rightarrow> scan_rows ''scan account key'' scanKey rows) }"

section \<open>Facts\<close>

lemma scanAccount_sel [simp]:
  "Acc_ID (scanAccount r) = ac_id r" "Acc_Email (scanAccount r) = ac_email r"
  "Acc_Status (scanAccount r) = ac_status r"
  by (simp_all add: scanAccount_def)

lemma apply_account_update_sel [simp]:
  "ac_id (apply_account_update upd r) = ac_id r"
  "ac_status (apply_account_update upd r) = coalesce (Upd_Status upd) (ac_status r)"
  by (simp_all add: apply_account_update_def)

lemma run_GetAccount:
  "run_state (GetAccount i) s =
    (case fault s (stmts s) of
       Some m \<Rightarrow> Inl (Wrapf ''get account'' (SqlErr m))
     | None \<Rightarrow> (case find (\<lambda>q. ac_id q = i) (accounts (db s)) of
         None \<Rightarrow> Inl (Wrapf ''get account'' (Sentinel ErrAccountNotFound))
       | Some r \<Rightarrow> if ac_status r = ''deleted'' then Inl (Wrapf ''get account'' (Sentinel ErrAccountNotFound))
                  else Inr (scanAccount r)),
     s\<lparr>stmts := Suc (stmts s)\<rparr>)"
  by (simp add: GetAccount_def run_sql_query_row status_defs split: option.splits)

lemma GetAccount_keeps [keep_rules]: "keeps db (GetAccount i)"
  by (auto simp: GetAccount_def intro!: keep_rules)

lemma ListAccounts_keeps [keep_rules]: "keeps db (ListAccounts f offset limit)"
  by (auto simp: ListAccounts_def intro!: keep_rules)

lemma CountActiveAccountKeys_keeps [keep_rules]: "keeps db (CountActiveAccountKeys i)"
  by (auto simp: CountActiveAccountKeys_def intro!: keep_rules)

lemma ListAccountKeys_keeps [keep_rules]: "keeps db (ListAccountKeys i offset limit)"
  by (auto simp: ListAccountKeys_def intro!: keep_rules)

lemma generateAccountID_keeps [keep_rules]: "keeps db generateAccountID"
  by (auto simp: generateAccountID_def intro!: keep_rules)

lemma CreateAccount_ok [pres_rules]: "preserves db_ok (CreateAccount inp by_op)"
  by (auto simp: CreateAccount_def intro!: pres_rules insert_account_ok
      keeps_preserves[OF generateAccountID_keeps])

lemma UpdateAccount_ok [pres_rules]: "preserves db_ok (UpdateAccount i upd)"
proof -
  have "stmt_keeps tables_ok (update_account i (apply_account_update upd))"
    if "i = legacyAccountID \<Longrightarrow> Upd_Status upd = None \<or> Upd_Status upd = Some ''active''"
    using that by (intro update_account_ok) (auto simp: coalesce_def)
  then show ?thesis
    by (auto simp: UpdateAccount_def status_defs intro!: pres_rules)
qed

lemma DeleteAccountWithCascade_ok [pres_rules]: "preserves db_ok (DeleteAccountWithCascade i)"
  by (auto simp: DeleteAccountWithCascade_def key_ok_def intro!: pres_rules update_keys_ok update_account_ok)

text \<open>The outcome of a deletion: an error and unchanged tables, or the account marked deleted, all
  its keys inactive, and the number of keys that were active.\<close>

lemma find_update_account:
  "(\<And>r. ac_id (g r) = ac_id r) \<Longrightarrow>
   find (\<lambda>q. ac_id q = j) (update_rows (\<lambda>q. ac_id q = i) g rs) =
     (if j = i then map_option g (find (\<lambda>q. ac_id q = j) rs) else find (\<lambda>q. ac_id q = j) rs)"
  by (induction rs) auto

lemma DeleteAccountWithCascade_atomic:
  "run_state (DeleteAccountWithCascade i) s = (Inl e, s') \<Longrightarrow> db s' = db s"
  by (auto simp: DeleteAccountWithCascade_def dest: sql_tx_atomic split: if_splits)

lemma DeleteAccountWithCascade_success:
  assumes "run_state (DeleteAccountWithCascade i) s = (Inr n, s')"
  shows "\<exists>r. find (\<lambda>q. ac_id q = i) (accounts (db s)) = Some r \<and> ac_status r \<noteq> ''deleted'' \<and>
      i \<noteq> legacyAccountID \<and>
      n = count_rows (\<lambda>q. k_account_id q = i \<and> k_active q = 1) (subscription_key (db s)) \<and>
      db s' = (db s)\<lparr>
        subscription_key := update_rows (\<lambda>q. k_account_id q = i \<and> k_active q = 1) (\<lambda>q. q\<lparr>k_active := 0\<rparr>)
          (subscription_key (db s)),
        accounts := update_rows (\<lambda>q. ac_id q = i) (\<lambda>q. q\<lparr>ac_status := ''deleted''\<rparr>) (accounts (db s))\<rparr>"
  using assms
  by (auto simp: DeleteAccountWithCascade_def run_sql_tx run_sql_query_row run_sql_stmt Let_def
      update_keys_def update_account_def status_defs
      split: if_splits option.splits sum.splits prod.splits)

end
