(* ===== verification/Store_Components.thy ===== *)
theory Store_Components
  imports Store_Keys
begin

text \<open>
  Provisioned components, the \<^verbatim>\<open>ComponentStore\<close> half of \<^verbatim>\<open>internal/store/sqlite.go\<close>. The lemmas:
  every operation keeps the schema invariant; a patch changes one row and only the fields it carries; deleting a
  component with its keys is atomic and revokes exactly its active keys.
\<close>

section \<open>Operations\<close>

definition scanComponent :: "component_row \<Rightarrow> Component" where
  "scanComponent r = \<lparr>Comp_Name = co_name r, Comp_Visibility = co_visibility r,
     Comp_RPMSeries = co_rpm_series r, Comp_RPMOSFamilies = co_rpm_os_families r,
     Comp_RPMArchitectures = co_rpm_architectures r, Comp_CreatedAt = parse_rfc3339 (co_created_at r)\<rparr>"

definition CreateComponent :: "Component \<Rightarrow> ('z store_scheme, goerr + Component) state" where
  "CreateComponent c = do {
     let vis = (if Comp_Visibility c = [] then ''private'' else Comp_Visibility c);
     now \<leftarrow> time_Now;
     r \<leftarrow> sql_stmt (insert_component \<lparr>co_name = Comp_Name c, co_visibility = vis,
            co_rpm_series = Comp_RPMSeries c, co_rpm_os_families = Comp_RPMOSFamilies c,
            co_rpm_architectures = Comp_RPMArchitectures c, co_created_at = rfc3339 now\<rparr>);
     State_Monad.return (case r of
       Inl e \<Rightarrow> if strings_Contains (err_Error e) ''UNIQUE constraint failed''
                 then Inl (Wrapf ''create component'' (Sentinel ErrComponentExists))
               else Inl (Wrapf ''create component'' e)
     | Inr _ \<Rightarrow> Inr (c\<lparr>Comp_Visibility := vis, Comp_CreatedAt := now\<rparr>)) }"

definition GetComponent :: "string \<Rightarrow> ('z store_scheme, goerr + Component) state" where
  "GetComponent name = do {
     r \<leftarrow> sql_query_row (\<lambda>t. find (\<lambda>q. co_name q = name) (components t));
     State_Monad.return (case r of
       Inl e \<Rightarrow> if errors_Is e ErrNoRows then Inl (Wrapf ''get component'' (Sentinel ErrComponentNotFound))
               else Inl (Wrapf ''get component'' e)
     | Inr row \<Rightarrow> Inr (scanComponent row)) }"

definition ListComponents :: "int \<Rightarrow> int \<Rightarrow> ('z store_scheme, goerr + Component list) state" where
  "ListComponents offset limit = do {
     r \<leftarrow> sql_query (\<lambda>t. sql_page limit offset (sort_key co_name (components t)));
     State_Monad.return (case r of Inl e \<Rightarrow> Inl (Wrapf ''list components'' e) | Inr rows \<Rightarrow> Inr (map scanComponent rows)) }"

definition DeleteComponent :: "string \<Rightarrow> ('z store_scheme, goerr + unit) state" where
  "DeleteComponent name = do {
     r \<leftarrow> sql_stmt (delete_component name);
     State_Monad.return (case r of
       Inl e \<Rightarrow> Inl (Wrapf ''delete component'' e)
     | Inr n \<Rightarrow> if n = 0 then Inl (Wrapf ''delete component'' (Sentinel ErrComponentNotFound)) else Inr ()) }"

definition RevokeComponentKeys :: "string \<Rightarrow> ('z store_scheme, goerr + int) state" where
  "RevokeComponentKeys component = do {
     r \<leftarrow> sql_stmt (update_keys (\<lambda>q. k_component q = component \<and> k_active q = 1) (\<lambda>q. q\<lparr>k_active := 0\<rparr>));
     State_Monad.return (case r of Inl e \<Rightarrow> Inl (Wrapf ''revoke component keys'' e) | Inr n \<Rightarrow> Inr n) }"

definition CountActiveComponentKeys :: "string \<Rightarrow> ('z store_scheme, goerr + int) state" where
  "CountActiveComponentKeys component = do {
     r \<leftarrow> sql_query (\<lambda>t. count_rows (\<lambda>q. k_component q = component \<and> k_active q = 1) (subscription_key t));
     State_Monad.return (case r of Inl e \<Rightarrow> Inl (Wrapf ''count component keys'' e) | Inr n \<Rightarrow> Inr n) }"

definition DeleteComponentWithRevoke :: "string \<Rightarrow> ('z store_scheme, goerr + int) state" where
  "DeleteComponentWithRevoke name = sql_tx ''begin tx'' ''commit'' (do {
     r \<leftarrow> sql_stmt (update_keys (\<lambda>q. k_component q = name \<and> k_active q = 1) (\<lambda>q. q\<lparr>k_active := 0\<rparr>));
     case r of
       Inl e \<Rightarrow> State_Monad.return (Inl (Wrapf ''revoke component keys'' e))
     | Inr revoked \<Rightarrow> do {
         d \<leftarrow> sql_stmt (delete_component name);
         State_Monad.return (case d of
           Inl e \<Rightarrow> Inl (Wrapf ''delete component'' e)
         | Inr n \<Rightarrow> if n = 0 then Inl (Wrapf ''delete component'' (Sentinel ErrComponentNotFound))
                   else Inr revoked) } })"

definition nonNil :: "string list option \<Rightarrow> string list option" where
  "nonNil v = (case v of None \<Rightarrow> Some [] | Some xs \<Rightarrow> Some xs)"

text \<open>The record a patch leads to: a nil field of the patch leaves the component's field.\<close>

definition apply_patch :: "ComponentPatch \<Rightarrow> Component \<Rightarrow> Component" where
  "apply_patch p c = c\<lparr>
     Comp_Visibility := (case Patch_Visibility p of None \<Rightarrow> Comp_Visibility c | Some v \<Rightarrow> v),
     Comp_RPMSeries := (case Patch_RPMSeries p of None \<Rightarrow> Comp_RPMSeries c | Some v \<Rightarrow> v),
     Comp_RPMOSFamilies := (case Patch_RPMOSFamilies p of None \<Rightarrow> Comp_RPMOSFamilies c | Some v \<Rightarrow> v),
     Comp_RPMArchitectures := (case Patch_RPMArchitectures p of None \<Rightarrow> Comp_RPMArchitectures c | Some v \<Rightarrow> v)\<rparr>"

definition write_component :: "Component \<Rightarrow> component_row \<Rightarrow> component_row" where
  "write_component c r = r\<lparr>co_visibility := Comp_Visibility c,
     co_rpm_series := nonNil (Comp_RPMSeries c), co_rpm_os_families := nonNil (Comp_RPMOSFamilies c),
     co_rpm_architectures := nonNil (Comp_RPMArchitectures c)\<rparr>"

definition UpdateComponent :: "string \<Rightarrow> ComponentPatch \<Rightarrow> ('z store_scheme, goerr + Component) state" where
  "UpdateComponent name patch = sql_tx ''update component: begin'' ''update component: commit'' (do {
     r \<leftarrow> sql_query_row (\<lambda>t. map_option scanComponent (find (\<lambda>q. co_name q = name) (components t)));
     case r of
       Inl e \<Rightarrow> State_Monad.return
         (if errors_Is e ErrNoRows then Inl (Wrapf ''update component'' (Sentinel ErrComponentNotFound))
          else Inl (Wrapf ''update component'' e))
     | Inr current \<Rightarrow> do {
         u \<leftarrow> sql_stmt (update_component name (write_component (apply_patch patch current)));
         State_Monad.return (case row_result u of
           Inl e \<Rightarrow> Inl (Wrapf ''update component'' e)
         | Inr row \<Rightarrow> Inr (scanComponent row)) } })"

text \<open>The two sets are the domains of the Go maps, whose values are all \<^verbatim>\<open>true\<close>.\<close>

definition LoadComponentSets :: "('z store_scheme, goerr + (string set \<times> string set)) state" where
  "LoadComponentSets = do {
     r \<leftarrow> sql_query (\<lambda>t. map (\<lambda>q. (co_name q, co_visibility q)) (sort_key co_name (components t)));
     State_Monad.return (case r of
       Inl e \<Rightarrow> Inl (Wrapf ''load component sets'' e)
     | Inr rows \<Rightarrow> Inr (fold (\<lambda>(name, vis) (valid, public).
           (insert name valid, if vis = ''public'' then insert name public else public)) rows ({}, {}))) }"

section \<open>Facts\<close>

lemma scanComponent_sel [simp]:
  "Comp_Name (scanComponent r) = co_name r" "Comp_Visibility (scanComponent r) = co_visibility r"
  "Comp_RPMSeries (scanComponent r) = co_rpm_series r"
  by (simp_all add: scanComponent_def)

lemma write_component_sel [simp]:
  "co_name (write_component c r) = co_name r" "co_visibility (write_component c r) = Comp_Visibility c"
  "co_created_at (write_component c r) = co_created_at r"
  by (simp_all add: write_component_def)

lemma run_GetComponent:
  "run_state (GetComponent name) s =
    (case fault s (stmts s) of
       Some m \<Rightarrow> Inl (Wrapf ''get component'' (SqlErr m))
     | None \<Rightarrow> (case find (\<lambda>q. co_name q = name) (components (db s)) of
         None \<Rightarrow> Inl (Wrapf ''get component'' (Sentinel ErrComponentNotFound))
       | Some r \<Rightarrow> Inr (scanComponent r)),
     s\<lparr>stmts := Suc (stmts s)\<rparr>)"
  by (simp add: GetComponent_def run_sql_query_row split: option.splits)

lemma GetComponent_keeps [keep_rules]: "keeps db (GetComponent name)"
  by (auto simp: GetComponent_def intro!: keep_rules)

lemma ListComponents_keeps [keep_rules]: "keeps db (ListComponents offset limit)"
  by (auto simp: ListComponents_def intro!: keep_rules)

lemma CountActiveComponentKeys_keeps [keep_rules]: "keeps db (CountActiveComponentKeys c)"
  by (auto simp: CountActiveComponentKeys_def intro!: keep_rules)

lemma LoadComponentSets_keeps [keep_rules]: "keeps db LoadComponentSets"
  by (auto simp: LoadComponentSets_def intro!: keep_rules)

lemma CreateComponent_ok [pres_rules]: "preserves db_ok (CreateComponent c)"
  by (auto simp: CreateComponent_def Let_def intro!: pres_rules insert_component_ok)

lemma DeleteComponent_ok [pres_rules]: "preserves db_ok (DeleteComponent n)"
  by (auto simp: DeleteComponent_def intro!: pres_rules delete_component_ok)

lemma RevokeComponentKeys_ok [pres_rules]: "preserves db_ok (RevokeComponentKeys c)"
  by (auto simp: RevokeComponentKeys_def key_ok_def intro!: pres_rules update_keys_ok)

lemma DeleteComponentWithRevoke_ok [pres_rules]: "preserves db_ok (DeleteComponentWithRevoke c)"
  by (auto simp: DeleteComponentWithRevoke_def key_ok_def intro!: pres_rules update_keys_ok delete_component_ok)

lemma UpdateComponent_ok [pres_rules]: "preserves db_ok (UpdateComponent n p)"
  by (auto simp: UpdateComponent_def intro!: pres_rules update_component_ok)

text \<open>Transactions: an error leaves the tables as they were.\<close>

lemma DeleteComponentWithRevoke_error:
  "run_state (DeleteComponentWithRevoke n) s = (Inl e, s') \<Longrightarrow> db s' = db s"
  unfolding DeleteComponentWithRevoke_def by (rule sql_tx_atomic)

lemma UpdateComponent_error: "run_state (UpdateComponent n p) s = (Inl e, s') \<Longrightarrow> db s' = db s"
  unfolding UpdateComponent_def by (rule sql_tx_atomic)

lemma DeleteComponentWithRevoke_success:
  assumes "run_state (DeleteComponentWithRevoke n) s = (Inr k, s')"
  shows "n \<in> co_name ` set (components (db s)) \<and>
      k = count_rows (\<lambda>q. k_component q = n \<and> k_active q = 1) (subscription_key (db s)) \<and>
      db s' = (db s)\<lparr>
        subscription_key := update_rows (\<lambda>q. k_component q = n \<and> k_active q = 1) (\<lambda>q. q\<lparr>k_active := 0\<rparr>)
          (subscription_key (db s)),
        components := filter (\<lambda>r. co_name r \<noteq> n) (components (db s))\<rparr>"
  using assms
  by (auto simp: DeleteComponentWithRevoke_def run_sql_tx run_sql_stmt Let_def update_keys_def
      delete_component_def count_rows_0 split: if_splits option.splits sum.splits prod.splits)

lemma UpdateComponent_success:
  assumes "run_state (UpdateComponent n p) s = (Inr c, s')"
  shows "\<exists>r. find (\<lambda>q. co_name q = n) (components (db s)) = Some r \<and>
      visibility_check (Comp_Visibility (apply_patch p (scanComponent r))) \<and>
      c = scanComponent (write_component (apply_patch p (scanComponent r)) r) \<and>
      db s' = (db s)\<lparr>components := update_rows (\<lambda>q. co_name q = n)
        (write_component (apply_patch p (scanComponent r))) (components (db s))\<rparr>"
  using assms
  by (auto simp: UpdateComponent_def run_sql_tx run_sql_query_row run_sql_stmt Let_def row_result_def
      update_component_def split: if_splits option.splits sum.splits prod.splits)

lemma find_update_component:
  "(\<And>r. co_name (g r) = co_name r) \<Longrightarrow>
   find (\<lambda>q. co_name q = j) (update_rows (\<lambda>q. co_name q = n) g rs) =
     (if j = n then map_option g (find (\<lambda>q. co_name q = j) rs) else find (\<lambda>q. co_name q = j) rs)"
  by (induction rs) auto

end
