(* ===== verification/Metrics.thy ===== *)
theory Metrics
  imports Sql_Schema
begin

text \<open>
  The Prometheus instruments of \<^verbatim>\<open>internal/metrics/metrics.go\<close> as state: the labelled counter of
  forward-auth outcomes, the observed durations, and the three component-cache instruments. A
  handler's outcome label can therefore be stated and proved.
\<close>

record metered = store +
  RequestsTotal :: "string \<Rightarrow> nat"
  RequestDuration :: "duration list"
  ComponentCacheRequests :: nat
  ComponentCacheHits :: nat
  ComponentCacheEntries :: nat

definition inc_RequestsTotal :: "string \<Rightarrow> ('z metered_scheme, unit) state" where
  "inc_RequestsTotal lbl = State (\<lambda>s. ((),
     s\<lparr>RequestsTotal := (RequestsTotal s)(lbl := Suc (RequestsTotal s lbl))\<rparr>))"

definition observe_RequestDuration :: "duration \<Rightarrow> ('z metered_scheme, unit) state" where
  "observe_RequestDuration d = State (\<lambda>s. ((), s\<lparr>RequestDuration := RequestDuration s @ [d]\<rparr>))"

definition inc_CacheRequests :: "('z metered_scheme, unit) state" where
  "inc_CacheRequests = State (\<lambda>s. ((), s\<lparr>ComponentCacheRequests := Suc (ComponentCacheRequests s)\<rparr>))"

definition inc_CacheHits :: "('z metered_scheme, unit) state" where
  "inc_CacheHits = State (\<lambda>s. ((), s\<lparr>ComponentCacheHits := Suc (ComponentCacheHits s)\<rparr>))"

definition set_CacheEntries :: "nat \<Rightarrow> ('z metered_scheme, unit) state" where
  "set_CacheEntries n = State (\<lambda>s. ((), s\<lparr>ComponentCacheEntries := n\<rparr>))"

section \<open>Facts\<close>

lemma run_metrics [run_simps]:
  "run_state (inc_RequestsTotal lbl) s =
     ((), s\<lparr>RequestsTotal := (RequestsTotal s)(lbl := Suc (RequestsTotal s lbl))\<rparr>)"
  "run_state (observe_RequestDuration d) s = ((), s\<lparr>RequestDuration := RequestDuration s @ [d]\<rparr>)"
  "run_state inc_CacheRequests s = ((), s\<lparr>ComponentCacheRequests := Suc (ComponentCacheRequests s)\<rparr>)"
  "run_state inc_CacheHits s = ((), s\<lparr>ComponentCacheHits := Suc (ComponentCacheHits s)\<rparr>)"
  "run_state (set_CacheEntries n) s = ((), s\<lparr>ComponentCacheEntries := n\<rparr>)"
  by (simp_all add: inc_RequestsTotal_def observe_RequestDuration_def inc_CacheRequests_def
      inc_CacheHits_def set_CacheEntries_def)

text \<open>No instrument touches the tables.\<close>

lemma keeps_metrics [keep_rules]:
  "keeps db (inc_RequestsTotal lbl)" "keeps db (observe_RequestDuration d)" "keeps db inc_CacheRequests"
  "keeps db inc_CacheHits" "keeps db (set_CacheEntries n)"
  by (simp_all add: keeps_def run_simps)

lemma preserves_metrics [pres_rules]:
  "preserves (\<lambda>s. I (db s)) (inc_RequestsTotal lbl)" "preserves (\<lambda>s. I (db s)) (observe_RequestDuration d)"
  "preserves (\<lambda>s. I (db s)) inc_CacheRequests" "preserves (\<lambda>s. I (db s)) inc_CacheHits"
  "preserves (\<lambda>s. I (db s)) (set_CacheEntries n)"
  by (simp_all add: preserves_def run_simps)

end
