(* ===== verification/Sample_State.thy ===== *)
theory Sample_State
  imports Metrics
begin

text \<open>
  A concrete state on which the hypotheses of the theorems are shown to hold: the legacy account,
  an active and a suspended subscriber with one key each, two admins and a read-only operator with
  one session each for the first admin and the read-only operator, a private and a public component, no scheduled
  database failures, and a clock that starts in November 2023 and advances by a second per reading.
\<close>

definition sample_key :: string where
  "sample_key = replicate 64 CHR ''a''"

definition sample_key2 :: string where
  "sample_key2 = replicate 64 CHR ''b''"

definition sample_account :: "string \<Rightarrow> string \<Rightarrow> string \<Rightarrow> account_row" where
  "sample_account i email st = \<lparr>ac_id = i, ac_email = email, ac_org_name = Some ''Example'', ac_status = st,
     ac_created_at = 1699000000, ac_created_by_operator_id = ''op-1''\<rparr>"

definition sample_operator :: "string \<Rightarrow> string \<Rightarrow> string \<Rightarrow> operator_row" where
  "sample_operator i email role = \<lparr>op_id = i, op_email = email, op_role = role, op_status = ''active'',
     op_allowlisted_at = 1699000000, op_allowlisted_by = Some ''bootstrap'', op_last_login_at = None,
     op_github_username = None, op_microsoft_upn = None, op_first_seen_provider = None\<rparr>"

definition sample_key_row :: "string \<Rightarrow> string \<Rightarrow> key_row" where
  "sample_key_row i account = \<lparr>k_id = i, k_component = ''core'', k_label = ''build farm'', k_active = 1,
     k_created_at = 1699000000, k_expires_at = Some 1699500000, k_usage_count = 7, k_account_id = account\<rparr>"

definition sample_component :: "string \<Rightarrow> string \<Rightarrow> component_row" where
  "sample_component n vis = \<lparr>co_name = n, co_visibility = vis, co_rpm_series = Some [''2024''],
     co_rpm_os_families = Some [''el''], co_rpm_architectures = Some [''x86_64''], co_created_at = 1699000000\<rparr>"

definition sample_session :: "string \<Rightarrow> string \<Rightarrow> session_row" where
  "sample_session i operator_id = \<lparr>se_id = i, se_operator_id = operator_id, se_created_at = 1699990000,
     se_last_seen_at = 1699999000, se_expires_at = 1700076400, se_ip = Some ''192.0.2.1'', se_user_agent = None\<rparr>"

definition sample_tables :: tables where
  "sample_tables = \<lparr>
     accounts = [sample_account ''legacy'' ''legacy@packyard.local'' ''active'',
       sample_account ''acc-1'' ''ops@example.org'' ''active'', sample_account ''acc-2'' ''dev@example.com'' ''suspended''],
     operators = [sample_operator ''op-1'' ''root@example.org'' ''admin'',
       sample_operator ''op-2'' ''second@example.org'' ''admin'',
       sample_operator ''op-3'' ''viewer@example.org'' ''readonly''],
     sessions = [sample_session ''sess-1'' ''op-1'', sample_session ''sess-3'' ''op-3''],
     audit_log = [], audit_seq = 0,
     subscription_key = [sample_key_row sample_key ''acc-1'', sample_key_row sample_key2 ''acc-2''],
     components = [sample_component ''core'' ''private'', sample_component ''docs'' ''public'']\<rparr>"

definition sample :: metered where
  "sample = \<lparr>clock = (\<lambda>n. (1700000000 + int n) * Second), clock_reads = 0,
     entropy = (\<lambda>n i. char_of (n + i)), entropy_err = (\<lambda>_. None), draws = 0, fault = (\<lambda>_. None), stmts = 0,
     db = sample_tables, RequestsTotal = (\<lambda>_. 0), RequestDuration = [], ComponentCacheRequests = 0,
     ComponentCacheHits = 0, ComponentCacheEntries = 0\<rparr>"

lemmas sample_defs = sample_def sample_tables_def sample_account_def sample_operator_def
  sample_key_row_def sample_component_def sample_session_def

lemma sample_keys_distinct [simp]: "sample_key \<noteq> sample_key2" "sample_key2 \<noteq> sample_key"
  by (simp_all add: sample_key_def sample_key2_def)

lemma sample_sel [simp]:
  "fault sample n = None" "stmts sample = 0" "clock_reads sample = 0" "db sample = sample_tables"
  "entropy_err sample n = None" "draws sample = 0" "clock sample n = (1700000000 + int n) * Second"
  by (simp_all add: sample_def)

lemma sample_rows:
  "sessions sample_tables = [sample_session ''sess-1'' ''op-1'', sample_session ''sess-3'' ''op-3'']"
  "operators sample_tables = [sample_operator ''op-1'' ''root@example.org'' ''admin'',
     sample_operator ''op-2'' ''second@example.org'' ''admin'', sample_operator ''op-3'' ''viewer@example.org'' ''readonly'']"
  "accounts sample_tables = [sample_account ''legacy'' ''legacy@packyard.local'' ''active'',
     sample_account ''acc-1'' ''ops@example.org'' ''active'', sample_account ''acc-2'' ''dev@example.com'' ''suspended'']"
  "subscription_key sample_tables = [sample_key_row sample_key ''acc-1'', sample_key_row sample_key2 ''acc-2'']"
  "components sample_tables = [sample_component ''core'' ''private'', sample_component ''docs'' ''public'']"
  "audit_log sample_tables = []" "audit_seq sample_tables = 0"
  by (simp_all add: sample_tables_def)

lemma sample_ok: "tables_ok sample_tables"
  by (simp add: sample_defs tables_ok_def accounts_ok_def operators_ok_def sessions_ok_def keys_ok_def
      components_ok_def audit_ok_def legacy_ok_def account_check_def operator_check_def email_check_def
      account_status_check_def operator_role_check_def operator_status_check_def provider_check_def
      visibility_check_def key_ok_def legacyAccountID_def sql_lower_def ascii_lower_def sql_like_percent
      sql_like_email)

end
