(* ===== verification/Forward_Auth.thy ===== *)
theory Forward_Auth
  imports Store_Accounts Store_Components Http Sample_State
begin

text \<open>
  Subscriber authorisation, \<^verbatim>\<open>internal/handler/forward_auth.go\<close>: the endpoint Traefik asks before it
  serves a package. The component store is the interface \<open>component_source\<close>, since the service
  wires it to the cached store and not to SQLite directly; \<^verbatim>\<open>NewForwardAuthHandler\<close> panics on a nil
  account store, so the \<^verbatim>\<open>h.AccountStore != nil\<close> test always holds.

  The specification is \<open>may_read\<close>: a read method, a served path, and a component that is public or
  for which the presented password is an active key of an active account. The lemmas show that
  200 is answered only then, under every schedule of database failures, and exactly then without
  failures; that every failed lookup answers 503; and that the only table change is the usage
  count of the key that was accepted.
\<close>

section \<open>Paths and credentials\<close>

definition isHex :: "string \<Rightarrow> bool" where
  "isHex s \<longleftrightarrow> list_all (\<lambda>c. (CHR ''0'' \<le> c \<and> c \<le> CHR ''9'') \<or> (CHR ''a'' \<le> c \<and> c \<le> CHR ''f'') \<or>
     (CHR ''A'' \<le> c \<and> c \<le> CHR ''F'')) s"

definition isRegistryPing :: "string \<Rightarrow> bool" where
  "isRegistryPing path \<longleftrightarrow> (let p = strings_TrimSuffix path ''/'' in p = ''/v2'' \<or> p = ''/oci/v2'')"

definition extractComponent :: "string \<Rightarrow> string option" where
  "extractComponent path =
    (let parts = strings_SplitN (strings_TrimPrefix path ''/'') CHR ''/'' 5 in
     if length parts < 2 \<or> parts ! 0 = [] then None
     else
       let named = (if parts ! 0 = ''rpm'' \<or> parts ! 0 = ''deb'' then Some (parts ! 1)
                    else if parts ! 0 = ''oci''
                      then (if length parts < 3 \<or> parts ! 1 \<noteq> ''v2'' then None else Some (parts ! 2))
                    else None)
       in case named of None \<Rightarrow> None | Some c \<Rightarrow> if c = [] then None else Some c)"

section \<open>The handler\<close>

definition answer :: "string \<Rightarrow> nat \<Rightarrow> ('z metered_scheme, response) state" where
  "answer lbl status = do { _ \<leftarrow> inc_RequestsTotal lbl; State_Monad.return (status_only status) }"

text \<open>The account gate, the usage counter and the final 200.\<close>

definition account_gate :: "Key \<Rightarrow> ('z metered_scheme, response) state" where
  "account_gate key = do {
     a \<leftarrow> GetAccount (Key_AccountID key);
     case a of
       Inl e \<Rightarrow> if errors_Is e ErrAccountNotFound then answer ''denied'' 401 else answer ''error'' 503
     | Inr account \<Rightarrow>
         if Acc_Status account \<noteq> AccountStatusActive then answer ''denied'' 401
         else do {
           _ \<leftarrow> IncrementUsage (Key_ID key);
           answer ''allowed'' 200 } }"

text \<open>Credentials for a private component.\<close>

definition check_credentials :: "request \<Rightarrow> string \<Rightarrow> ('z metered_scheme, response) state" where
  "check_credentials r requestedComponent =
    (case BasicAuth r of
       None \<Rightarrow> answer ''denied'' 401
     | Some (_, password) \<Rightarrow>
         if length password \<noteq> 64 \<or> \<not> isHex password then answer ''denied'' 401
         else do {
           k \<leftarrow> GetByValue password;
           case k of
             Inl e \<Rightarrow> if errors_Is e ErrNotFound \<or> errors_Is e ErrRevoked then answer ''denied'' 401
                     else answer ''error'' 503
           | Inr key \<Rightarrow>
               if Key_Component key \<noteq> requestedComponent then answer ''denied'' 401
               else account_gate key })"

definition forwarded_method :: "request \<Rightarrow> string" where
  "forwarded_method r = (if Header r ''X-Forwarded-Method'' = [] then Method r else Header r ''X-Forwarded-Method'')"

definition serve :: "(string \<Rightarrow> ('z metered_scheme, goerr + Component) state) \<Rightarrow> request \<Rightarrow> ('z metered_scheme, response) state" where
  "serve get_component r =
    (if forwarded_method r \<noteq> ''GET'' \<and> forwarded_method r \<noteq> ''HEAD'' then do {
       _ \<leftarrow> inc_RequestsTotal ''denied-method'';
       State_Monad.return (with_header ''Allow'' ''GET, HEAD'' (status_only 405)) }
     else
       let forwardedURI = Header r ''X-Forwarded-Uri'' in
       if isRegistryPing forwardedURI then answer ''denied'' 401
       else (case extractComponent forwardedURI of
           None \<Rightarrow> answer ''denied-path'' 404
         | Some requestedComponent \<Rightarrow> do {
             c \<leftarrow> get_component requestedComponent;
             case c of
               Inl e \<Rightarrow> if errors_Is e ErrComponentNotFound then answer ''denied'' 401 else answer ''error'' 503
             | Inr cmp \<Rightarrow>
                 if Comp_Visibility cmp = ''public'' then answer ''allowed-public'' 200
                 else check_credentials r requestedComponent }))"

text \<open>\<^verbatim>\<open>ServeHTTP\<close>, with the deferred duration observation around it.\<close>

definition ServeHTTP :: "(string \<Rightarrow> ('z metered_scheme, goerr + Component) state) \<Rightarrow> request \<Rightarrow> ('z metered_scheme, response) state" where
  "ServeHTTP get_component r = do {
     start \<leftarrow> time_Now;
     w \<leftarrow> serve get_component r;
     now \<leftarrow> time_Now;
     _ \<leftarrow> observe_RequestDuration (time_Sub now start);
     State_Monad.return w }"

section \<open>Specification\<close>

text \<open>The password is an active key for component \<open>c\<close>, with an expiry the service can read back, whose account is active.\<close>

definition entitled :: "tables \<Rightarrow> string \<Rightarrow> string \<Rightarrow> bool" where
  "entitled t pw c \<longleftrightarrow> (\<exists>k \<in> set (subscription_key t). k_id k = pw \<and> k_active k = 1 \<and> k_component k = c \<and> readable k \<and>
     (\<exists>a \<in> set (accounts t). ac_id a = k_account_id k \<and> ac_status a = ''active''))"

definition is_public :: "tables \<Rightarrow> string \<Rightarrow> bool" where
  "is_public t c \<longleftrightarrow> (\<exists>r \<in> set (components t). co_name r = c \<and> co_visibility r = ''public'')"

definition presents :: "request \<Rightarrow> string \<Rightarrow> bool" where
  "presents r pw \<longleftrightarrow> (\<exists>user. BasicAuth r = Some (user, pw)) \<and> length pw = 64 \<and> isHex pw"

text \<open>The component a read request names, if its method and path are served at all.\<close>

definition reads :: "request \<Rightarrow> string \<Rightarrow> bool" where
  "reads r c \<longleftrightarrow> (forwarded_method r = ''GET'' \<or> forwarded_method r = ''HEAD'') \<and>
     \<not> isRegistryPing (Header r ''X-Forwarded-Uri'') \<and> extractComponent (Header r ''X-Forwarded-Uri'') = Some c"

definition may_read :: "tables \<Rightarrow> request \<Rightarrow> bool" where
  "may_read t r \<longleftrightarrow> (\<exists>c. reads r c \<and> c \<in> co_name ` set (components t) \<and>
     (is_public t c \<or> (\<exists>pw. presents r pw \<and> entitled t pw c)))"

section \<open>Paths\<close>

lemma SplitN_5:
  "strings_SplitN s c 5 =
    (if c \<in> set s then before_sep c s # (let u = after_sep c s in
       if c \<in> set u then before_sep c u # strings_SplitN (after_sep c u) c 3 else [u]) else [s])"
  by (simp add: eval_nat_numeral Let_def)

lemma SplitN_3:
  "strings_SplitN s c 3 =
    (if c \<in> set s then before_sep c s # strings_SplitN (after_sep c s) c 2 else [s])"
  by (simp add: eval_nat_numeral)

text \<open>A path segment: a name without a slash, at the end of the path or before a slash.\<close>

definition segment_of :: "string \<Rightarrow> string \<Rightarrow> bool" where
  "segment_of c p \<longleftrightarrow> c = before_sep CHR ''/'' p"

lemma segment_of_iff:
  "segment_of c p \<longleftrightarrow> CHR ''/'' \<notin> set c \<and> (p = c \<or> (\<exists>rest. p = c @ CHR ''/'' # rest))"
proof
  assume "segment_of c p"
  then have c: "c = before_sep CHR ''/'' p" by (simp add: segment_of_def)
  then have "CHR ''/'' \<notin> set c" by (simp add: sep_notin_before)
  moreover have "p = c \<or> (\<exists>rest. p = c @ CHR ''/'' # rest)"
  proof (cases "CHR ''/'' \<in> set p")
    case True
    with c before_after_sep show ?thesis by metis
  next
    case False
    with c show ?thesis by (simp add: before_sep_absent)
  qed
  ultimately show "CHR ''/'' \<notin> set c \<and> (p = c \<or> (\<exists>rest. p = c @ CHR ''/'' # rest))" ..
next
  assume "CHR ''/'' \<notin> set c \<and> (p = c \<or> (\<exists>rest. p = c @ CHR ''/'' # rest))"
  then show "segment_of c p"
    by (auto simp: segment_of_def before_sep_append before_sep_absent)
qed

definition nonempty :: "string \<Rightarrow> string option" where
  "nonempty s = (if s = [] then None else Some s)"

lemma nonempty_if_Some:
  "(Q \<Longrightarrow> \<not> P) \<Longrightarrow> (if P then nonempty x else if Q then nonempty y else None) = Some c \<longleftrightarrow>
     c \<noteq> [] \<and> (P \<and> c = x \<or> Q \<and> c = y)"
  by (auto simp: nonempty_def)

lemma extractComponent_split:
  assumes "CHR ''/'' \<notin> set a" "strings_TrimPrefix p ''/'' = a @ CHR ''/'' # b"
  shows "extractComponent p =
    (if a = ''rpm'' \<or> a = ''deb'' then nonempty (before_sep CHR ''/'' b)
     else if a = ''oci'' \<and> CHR ''/'' \<in> set b \<and> before_sep CHR ''/'' b = ''v2''
       then nonempty (before_sep CHR ''/'' (after_sep CHR ''/'' b))
     else None)"
  using assms
  by (auto simp: extractComponent_def Let_def SplitN_5 SplitN_3 before_sep_append after_sep_append
      before_sep_absent nonempty_def)

lemma extractComponent_flat: "CHR ''/'' \<notin> set (strings_TrimPrefix p ''/'') \<Longrightarrow> extractComponent p = None"
  by (simp add: extractComponent_def SplitN_5)

lemma extractComponent_iff:
  "extractComponent p = Some c \<longleftrightarrow> c \<noteq> [] \<and>
    (\<exists>q. segment_of c q \<and> (strings_TrimPrefix p ''/'' = ''rpm/'' @ q \<or> strings_TrimPrefix p ''/'' = ''deb/'' @ q \<or>
       strings_TrimPrefix p ''/'' = ''oci/v2/'' @ q))"
  (is "?L \<longleftrightarrow> _ \<and> ?R")
proof (cases "CHR ''/'' \<in> set (strings_TrimPrefix p ''/'')")
  case True
  define s a b where "s = strings_TrimPrefix p ''/''" and "a = before_sep CHR ''/'' s"
    and "b = after_sep CHR ''/'' s"
  have s: "s = a @ CHR ''/'' # b" using True by (simp add: s_def a_def b_def before_after_sep)
  have a: "CHR ''/'' \<notin> set a" by (simp add: a_def sep_notin_before)
  have pre: "s = x @ CHR ''/'' # q \<longleftrightarrow> a = x \<and> b = q" if "CHR ''/'' \<notin> set x" for x q
    using before_sep_append[OF that, of q] after_sep_append[OF that, of q] s by (auto simp: a_def b_def)
  have oci: "b = ''v2/'' @ q \<longleftrightarrow> CHR ''/'' \<in> set b \<and> before_sep CHR ''/'' b = ''v2'' \<and> after_sep CHR ''/'' b = q" for q
  proof
    show "b = ''v2/'' @ q \<Longrightarrow> CHR ''/'' \<in> set b \<and> before_sep CHR ''/'' b = ''v2'' \<and> after_sep CHR ''/'' b = q"
      by (simp add: before_sep_def after_sep_def)
    show "CHR ''/'' \<in> set b \<and> before_sep CHR ''/'' b = ''v2'' \<and> after_sep CHR ''/'' b = q \<Longrightarrow> b = ''v2/'' @ q"
      using before_after_sep[of "CHR ''/''" b] by simp
  qed
  have shape: "s = ''rpm/'' @ q \<longleftrightarrow> a = ''rpm'' \<and> b = q" "s = ''deb/'' @ q \<longleftrightarrow> a = ''deb'' \<and> b = q"
    "s = ''oci/v2/'' @ q \<longleftrightarrow> a = ''oci'' \<and> b = ''v2/'' @ q" for q
    using pre[of "''rpm''" q] pre[of "''deb''" q] pre[of "''oci''" "''v2/'' @ q"] by simp_all
  have R: "?R \<longleftrightarrow> (a = ''rpm'' \<or> a = ''deb'') \<and> c = before_sep CHR ''/'' b \<or>
      (a = ''oci'' \<and> CHR ''/'' \<in> set b \<and> before_sep CHR ''/'' b = ''v2'') \<and>
        c = before_sep CHR ''/'' (after_sep CHR ''/'' b)"
    unfolding s_def[symmetric] shape oci segment_of_def by blast
  have L: "?L \<longleftrightarrow> (if a = ''rpm'' \<or> a = ''deb'' then nonempty (before_sep CHR ''/'' b)
     else if a = ''oci'' \<and> CHR ''/'' \<in> set b \<and> before_sep CHR ''/'' b = ''v2''
       then nonempty (before_sep CHR ''/'' (after_sep CHR ''/'' b)) else None) = Some c"
    by (simp only: extractComponent_split[OF a, of p b, folded s_def, OF s])
  show ?thesis unfolding L R by (rule nonempty_if_Some) auto
next
  case False
  have "CHR ''/'' \<in> set (''rpm/'' @ q)" "CHR ''/'' \<in> set (''deb/'' @ q)" "CHR ''/'' \<in> set (''oci/v2/'' @ q)" for q
    by simp_all
  with False have "\<not> ?R" by metis
  with False show ?thesis by (simp add: extractComponent_flat)
qed

section \<open>Credentials\<close>

lemma run_answer [run_simps]:
  "run_state (answer lbl n) s =
    (status_only n, s\<lparr>RequestsTotal := (RequestsTotal s)(lbl := Suc (RequestsTotal s lbl))\<rparr>)"
  by (simp add: answer_def run_simps)

lemma answer_keeps [keep_rules]: "keeps db (answer lbl n)"
  by (simp add: keeps_def run_answer)

definition count_use :: "string \<Rightarrow> tables \<Rightarrow> tables" where
  "count_use pw t = t\<lparr>subscription_key := update_rows (\<lambda>q. k_id q = pw)
     (\<lambda>q. q\<lparr>k_usage_count := k_usage_count q + 1\<rparr>) (subscription_key t)\<rparr>"

lemma account_gate_cases:
  assumes "run_state (account_gate k) s = (w, s')"
  shows "Status w = 200 \<and> (\<exists>a. find (\<lambda>q. ac_id q = Key_AccountID k) (accounts (db s)) = Some a \<and> ac_status a = ''active'') \<and>
      (db s' = db s \<or> db s' = count_use (Key_ID k) (db s)) \<or>
    Status w \<noteq> 200 \<and> db s' = db s"
  using assms
  by (auto simp: account_gate_def run_GetAccount run_IncrementUsage run_answer status_defs count_use_def
      split: option.splits if_splits)

lemma account_gate_active:
  assumes "fault s (stmts s) = None" "find (\<lambda>q. ac_id q = Key_AccountID k) (accounts (db s)) = Some a" "ac_status a = ''active''"
  shows "Status (fst (run_state (account_gate k) s)) = 200"
  using assms
  by (auto simp: account_gate_def run_GetAccount run_IncrementUsage run_answer status_defs split: option.splits)

text \<open>200 for a private component: the password is an entitled key, and its use is counted at most once.\<close>

lemma check_credentials_200:
  assumes "run_state (check_credentials r c) s = (w, s')" "Status w = 200"
  shows "\<exists>pw. presents r pw \<and> entitled (db s) pw c \<and> (db s' = db s \<or> db s' = count_use pw (db s))"
proof -
  obtain user pw where b: "BasicAuth r = Some (user, pw)" "length pw = 64" "isHex pw"
    using assms by (auto simp: check_credentials_def run_answer split: option.splits prod.splits if_splits)
  obtain k where k: "find (\<lambda>q. k_id q = pw) (subscription_key (db s)) = Some k" "k_active k = 1"
      "k_component k = c" "readable k"
    and gate: "run_state (account_gate (read_key k)) (s\<lparr>stmts := Suc (stmts s)\<rparr>) = (w, s')"
    using assms b
    by (auto simp: check_credentials_def run_GetByValue run_answer split: option.splits prod.splits if_splits)
  from account_gate_cases[OF gate] assms(2) obtain a where
    a: "find (\<lambda>q. ac_id q = k_account_id k) (accounts (db s)) = Some a" "ac_status a = ''active''"
    and d: "db s' = db s \<or> db s' = count_use (k_id k) (db s)"
    by auto
  have "entitled (db s) pw c"
    unfolding entitled_def using find_Some_set[OF k(1)] find_Some_set[OF a(1)] k a by blast
  moreover have "presents r pw" using b by (auto simp: presents_def)
  ultimately show ?thesis using d find_Some_set[OF k(1)] by auto
qed

text \<open>Any other answer leaves the tables as they were.\<close>

lemma answer_triple: "triple (\<lambda>s. db s = t) (answer lbl n) (\<lambda>w s'. Status w \<noteq> 200 \<longrightarrow> db s' = t)"
  by (simp add: triple_def run_answer)

lemma account_gate_denied: "triple (\<lambda>s. db s = t) (account_gate k) (\<lambda>w s'. Status w \<noteq> 200 \<longrightarrow> db s' = t)"
  by (rule tripleI) (metis account_gate_cases prod.collapse)

lemma check_credentials_denied:
  "triple (\<lambda>s. db s = t) (check_credentials r c) (\<lambda>w s'. Status w \<noteq> 200 \<longrightarrow> db s' = t)"
  unfolding check_credentials_def
  by (intro triple_rules triple_bind_keeps keep_rules answer_triple account_gate_denied)

text \<open>Primary keys make the lookups of the handler and the rows of the specification agree.\<close>

lemma entitled_find:
  assumes "entitled t pw c" "tables_ok t"
  obtains k a where "find (\<lambda>q. k_id q = pw) (subscription_key t) = Some k" "k_active k = 1" "k_component k = c" "readable k"
    "find (\<lambda>q. ac_id q = k_account_id k) (accounts t) = Some a" "ac_status a = ''active''"
proof -
  from assms(1) obtain k a where
    k: "k \<in> set (subscription_key t)" "k_id k = pw" "k_active k = 1" "k_component k = c" "readable k"
    and a: "a \<in> set (accounts t)" "ac_id a = k_account_id k" "ac_status a = ''active''"
    unfolding entitled_def by auto
  have "distinct (map k_id (subscription_key t))" "distinct (map ac_id (accounts t))"
    using assms(2) by (simp_all add: tables_ok_def keys_ok_def accounts_ok_def)
  with k a show ?thesis by (intro that[of k a]) (simp_all add: find_key_iff)
qed

lemma check_credentials_complete:
  assumes "presents r pw" "entitled (db s) pw c" "db_ok s"
    and "fault s (stmts s) = None" "fault s (Suc (stmts s)) = None"
  shows "Status (fst (run_state (check_credentials r c) s)) = 200"
proof -
  obtain user where "BasicAuth r = Some (user, pw)" "length pw = 64" "isHex pw"
    using assms(1) by (auto simp: presents_def)
  moreover obtain k a where "find (\<lambda>q. k_id q = pw) (subscription_key (db s)) = Some k" "k_active k = 1"
    "k_component k = c" "readable k" "find (\<lambda>q. ac_id q = k_account_id k) (accounts (db s)) = Some a" "ac_status a = ''active''"
    using assms(2,3) by (rule entitled_find)
  ultimately show ?thesis
    using assms(4,5) by (simp add: check_credentials_def run_GetByValue account_gate_active)
qed

text \<open>A failing key or account lookup answers 503, never 200.\<close>

lemma check_credentials_fault:
  assumes "presents r pw" "fault s (stmts s) \<noteq> None"
  shows "Status (fst (run_state (check_credentials r c) s)) = 503"
  using assms by (auto simp: presents_def check_credentials_def run_GetByValue run_answer)

section \<open>The component source\<close>

text \<open>
  What the handler relies on: a lookup changes no table and no fault schedule, and a component it
  returns is attested, by a relation of the provider's choice. SQLite attests the row of that
  name; the cached store also attests a live cache entry.
\<close>

locale component_source =
  fixes get :: "string \<Rightarrow> ('z metered_scheme, goerr + Component) state"
    and attests :: "'z metered_scheme \<Rightarrow> string \<Rightarrow> Component \<Rightarrow> bool"
  assumes get_db: "keeps db (get n)"
    and get_attests: "run_state (get n) s = (Inr c, s') \<Longrightarrow> attests s n c"
begin

lemma serve_denied: "triple (\<lambda>s. db s = t) (serve get r) (\<lambda>w s'. Status w \<noteq> 200 \<longrightarrow> db s' = t)"
  unfolding serve_def Let_def
  by (intro triple_rules triple_bind_keeps get_db answer_triple check_credentials_denied keeps_metrics)
    simp

text \<open>200 is answered for an attested public component, or for an entitled key.\<close>

lemma serve_200:
  assumes "run_state (serve get r) s = (w, s')" "Status w = 200"
  shows "\<exists>c cmp. reads r c \<and> attests s c cmp \<and>
    (Comp_Visibility cmp = ''public'' \<and> db s' = db s \<or>
     (\<exists>pw. presents r pw \<and> entitled (db s) pw c \<and> (db s' = db s \<or> db s' = count_use pw (db s))))"
proof -
  obtain c where c: "reads r c"
    using assms by (auto simp: serve_def reads_def run_answer run_simps Let_def split: if_splits option.splits)
  obtain res s1 where g: "run_state (get c) s = (res, s1)" by fastforce
  have d: "db s1 = db s" using keepsD[OF get_db, of c s] g by simp
  from c assms g obtain cmp where cmp: "res = Inr cmp"
    and rest: "run_state (if Comp_Visibility cmp = ''public'' then answer ''allowed-public'' 200
      else check_credentials r c) s1 = (w, s')"
    by (auto simp: serve_def reads_def run_answer Let_def split: sum.splits if_splits)
  have "attests s c cmp" using get_attests g cmp by blast
  moreover have "Comp_Visibility cmp = ''public'' \<and> db s' = db s \<or>
     (\<exists>pw. presents r pw \<and> entitled (db s) pw c \<and> (db s' = db s \<or> db s' = count_use pw (db s)))"
    using rest d check_credentials_200[of r c s1 w s'] assms(2)
    by (cases "Comp_Visibility cmp = ''public''") (auto simp: run_answer)
  ultimately show ?thesis using c by blast
qed

text \<open>The same for \<open>ServeHTTP\<close>, which reads the clock before and after.\<close>

lemma ServeHTTP_runs:
  assumes "run_state (ServeHTTP get r) s = (w, s')"
  shows "\<exists>s2. run_state (serve get r) (s\<lparr>clock_reads := Suc (clock_reads s)\<rparr>) = (w, s2) \<and> db s' = db s2"
  using assms by (auto simp: ServeHTTP_def run_simps split: prod.splits)

lemma ServeHTTP_200:
  assumes "run_state (ServeHTTP get r) s = (w, s')" "Status w = 200"
  shows "\<exists>c cmp. reads r c \<and> attests (s\<lparr>clock_reads := Suc (clock_reads s)\<rparr>) c cmp \<and>
    (Comp_Visibility cmp = ''public'' \<and> db s' = db s \<or>
     (\<exists>pw. presents r pw \<and> entitled (db s) pw c \<and> (db s' = db s \<or> db s' = count_use pw (db s))))"
  using ServeHTTP_runs[OF assms(1)] serve_200[OF _ assms(2)] by fastforce

lemma ServeHTTP_denied:
  assumes "run_state (ServeHTTP get r) s = (w, s')" "Status w \<noteq> 200"
  shows "db s' = db s"
  using ServeHTTP_runs[OF assms(1)] tripleD[OF serve_denied] assms(2) by fastforce

end

section \<open>SQLite as the component source\<close>

definition row_attests :: "'z store_scheme \<Rightarrow> string \<Rightarrow> Component \<Rightarrow> bool" where
  "row_attests s n c \<longleftrightarrow> (\<exists>r. find (\<lambda>q. co_name q = n) (components (db s)) = Some r \<and> c = scanComponent r)"

interpretation sqlite: component_source GetComponent row_attests
  by unfold_locales (auto simp: GetComponent_keeps row_attests_def run_GetComponent split: option.splits)

lemma row_attests_component:
  "row_attests s n c \<Longrightarrow> n \<in> co_name ` set (components (db s)) \<and> (Comp_Visibility c = ''public'' \<longrightarrow> is_public (db s) n)"
  by (auto simp: row_attests_def is_public_def dest!: find_Some_set)

text \<open>The request's three lookups and their failures.\<close>

lemma run_serve_reads:
  assumes "reads r c"
  shows "run_state (serve GetComponent r) s =
    (let s1 = s\<lparr>stmts := Suc (stmts s)\<rparr> in
     if fault s (stmts s) \<noteq> None then run_state (answer ''error'' 503) s1
     else case find (\<lambda>q. co_name q = c) (components (db s)) of
         None \<Rightarrow> run_state (answer ''denied'' 401) s1
       | Some q \<Rightarrow> if co_visibility q = ''public'' then run_state (answer ''allowed-public'' 200) s1
                  else run_state (check_credentials r c) s1)"
  using assms by (auto simp: reads_def serve_def run_GetComponent Let_def split: option.splits)

lemma is_public_find:
  assumes "tables_ok t" "find (\<lambda>q. co_name q = c) (components t) = Some q"
  shows "is_public t c \<longleftrightarrow> co_visibility q = ''public''"
proof -
  have "distinct (map co_name (components t))" using assms(1) by (simp add: tables_ok_def components_ok_def)
  with find_Some_set[OF assms(2)] show ?thesis by (auto simp: is_public_def dest: distinct_map_unique)
qed

lemma serve_complete:
  assumes "may_read (db s) r" "db_ok s" "\<And>n. stmts s \<le> n \<Longrightarrow> fault s n = None"
  shows "Status (fst (run_state (serve GetComponent r) s)) = 200"
proof -
  obtain c where c: "reads r c" "c \<in> co_name ` set (components (db s))"
    and ok: "is_public (db s) c \<or> (\<exists>pw. presents r pw \<and> entitled (db s) pw c)"
    using assms(1) by (auto simp: may_read_def)
  obtain q where q: "find (\<lambda>q. co_name q = c) (components (db s)) = Some q"
    using c(2) by (cases "find (\<lambda>q. co_name q = c) (components (db s))") (auto simp: find_key_None)
  show ?thesis
  proof (cases "co_visibility q = ''public''")
    case True
    with c q assms(3) show ?thesis by (simp add: run_serve_reads Let_def run_answer)
  next
    case False
    with ok is_public_find[OF assms(2) q] obtain pw where "presents r pw" "entitled (db s) pw c" by auto
    then have "Status (fst (run_state (check_credentials r c) (s\<lparr>stmts := Suc (stmts s)\<rparr>))) = 200"
      using assms by (intro check_credentials_complete) auto
    with False c q assms(3) show ?thesis by (simp add: run_serve_reads Let_def)
  qed
qed

lemma fst_ServeHTTP:
  "fst (run_state (ServeHTTP get r) s) = fst (run_state (serve get r) (s\<lparr>clock_reads := Suc (clock_reads s)\<rparr>))"
  by (simp add: ServeHTTP_def run_simps split: prod.splits)

lemma account_gate_fault:
  "fault s (stmts s) \<noteq> None \<Longrightarrow> Status (fst (run_state (account_gate k) s)) = 503"
  by (auto simp: account_gate_def run_GetAccount run_answer)

lemma check_credentials_account_fault:
  assumes "presents r pw" "entitled (db s) pw c" "db_ok s"
    and "fault s (stmts s) \<noteq> None \<or> fault s (Suc (stmts s)) \<noteq> None"
  shows "Status (fst (run_state (check_credentials r c) s)) = 503"
proof (cases "fault s (stmts s) = None")
  case True
  obtain user where "BasicAuth r = Some (user, pw)" "length pw = 64" "isHex pw"
    using assms(1) by (auto simp: presents_def)
  moreover obtain k a where "find (\<lambda>q. k_id q = pw) (subscription_key (db s)) = Some k" "k_active k = 1" "k_component k = c" "readable k"
    using assms(2,3) by (rule entitled_find)
  ultimately show ?thesis
    using True assms(4) by (simp add: check_credentials_def run_GetByValue account_gate_fault)
qed (simp add: check_credentials_fault[OF assms(1)])

section \<open>Properties\<close>

text \<open>
  C2: access is granted only by entitlement. Whatever the clock and whichever SQL statements fail,
  if forward-auth answers 200 then the request is a GET or HEAD of a served path whose component is
  provisioned and is either public or unlocked by the presented 64-digit hexadecimal password,
  which is then an active key, with a readable expiry, scoped to that component and owned by an active account.
\<close>

theorem forward_auth_sound:
  assumes "run_state (ServeHTTP GetComponent r) s = (w, s')" "Status w = 200"
  shows "may_read (db s) r"
  using sqlite.ServeHTTP_200[OF assms] by (auto simp: may_read_def dest!: row_attests_component)

definition sample_read :: request where
  "sample_read = \<lparr>Method = ''GET'', URL_Path = ''/auth'', URL_RawPath = [],
     Header = (\<lambda>h. if h = ''X-Forwarded-Uri'' then ''/rpm/core/2024/el-x86_64/repodata/repomd.xml'' else []),
     Query = [], Cookies = [], RemoteAddr = ''10.0.0.1:4711'', URLParam = (\<lambda>_. []),
     BasicAuth = Some (''subscriber'', sample_key), ReqBody = [], ctx_operator = None\<rparr>"

lemma sample_reads: "reads sample_read ''core''"
  by (simp add: reads_def sample_read_def forwarded_method_def isRegistryPing_def extractComponent_def
      strings_TrimPrefix_def strings_HasPrefix_def strings_TrimSuffix_def SplitN_5 SplitN_3 Let_def
      before_sep_def after_sep_def)

lemma sample_presents: "presents sample_read sample_key"
  by (simp add: presents_def sample_read_def sample_key_def isHex_def list_all_length less_eq_char_def)

lemma sample_entitled: "entitled sample_tables sample_key ''core''"
  by (simp add: entitled_def sample_defs readable_def in_years_def)

lemma sample_may_read: "may_read (db sample) sample_read"
  unfolding may_read_def
  using sample_reads sample_presents sample_entitled by (auto simp: sample_defs)

theorem forward_auth_sound_witness:
  "Status (fst (run_state (ServeHTTP GetComponent sample_read) sample)) = 200 \<and> may_read (db sample) sample_read"
proof
  show *: "Status (fst (run_state (ServeHTTP GetComponent sample_read) sample)) = 200"
    unfolding fst_ServeHTTP by (rule serve_complete) (simp_all add: sample_may_read[simplified] sample_ok)
  show "may_read (db sample) sample_read"
    by (rule forward_auth_sound[OF surjective_pairing *])
qed



text \<open>
  C16: fail closed. When the component lookup fails, or the key or account lookup behind a private
  component fails, the answer is 503 and no table changes, even for a request that is entitled.
\<close>

theorem forward_auth_fail_closed:
  assumes "reads r c" "db_ok s" "run_state (ServeHTTP GetComponent r) s = (w, s')"
    and "fault s (stmts s) \<noteq> None \<or>
      c \<in> co_name ` set (components (db s)) \<and> \<not> is_public (db s) c \<and> presents r pw \<and> entitled (db s) pw c \<and>
      (fault s (stmts s + 1) \<noteq> None \<or> fault s (stmts s + 2) \<noteq> None)"
  shows "Status w = 503 \<and> db s' = db s"
proof -
  have "Status w = Status (fst (run_state (serve GetComponent r) (s\<lparr>clock_reads := Suc (clock_reads s)\<rparr>)))"
    using assms(3) fst_ServeHTTP[of GetComponent r s] by simp
  also have "\<dots> = 503"
  proof (cases "fault s (stmts s) = None")
    case True
    with assms(4) have c: "c \<in> co_name ` set (components (db s))" "\<not> is_public (db s) c"
      and k: "presents r pw" "entitled (db s) pw c"
      and f: "fault s (Suc (stmts s)) \<noteq> None \<or> fault s (Suc (Suc (stmts s))) \<noteq> None" by auto
    obtain q where q: "find (\<lambda>q. co_name q = c) (components (db s)) = Some q"
      using c(1) by (cases "find (\<lambda>q. co_name q = c) (components (db s))") (auto simp: find_key_None)
    with c(2) is_public_find[OF assms(2) q] have "co_visibility q \<noteq> ''public''" by simp
    with True q show ?thesis
      using assms(2) k f by (simp add: run_serve_reads[OF assms(1)] Let_def check_credentials_account_fault)
  qed (auto simp: run_serve_reads[OF assms(1)] Let_def run_answer)
  finally show ?thesis using sqlite.ServeHTTP_denied[OF assms(3)] by simp
qed

definition sample_outage :: metered where
  "sample_outage = sample\<lparr>fault := (\<lambda>n. if n = 2 then Some ''database is locked'' else None)\<rparr>"

theorem forward_auth_fail_closed_witness:
  "Status (fst (run_state (ServeHTTP GetComponent sample_read) sample_outage)) = 503"
proof -
  have "db sample_outage = sample_tables" "stmts sample_outage = 0" "fault sample_outage (Suc (Suc 0)) \<noteq> None"
    by (simp_all add: sample_outage_def)
  moreover have "\<not> is_public sample_tables ''core''" "''core'' \<in> co_name ` set (components sample_tables)"
    by (simp_all add: is_public_def sample_defs)
  ultimately show ?thesis
    using forward_auth_fail_closed[OF sample_reads _ surjective_pairing, of sample_outage sample_key]
      sample_presents sample_entitled sample_ok by auto
qed

text \<open>
  the only effect on the tables is the usage counter. Every answer but 200 leaves all tables
  unchanged; a 200 changes at most the usage count of the one key that was presented and is
  entitled to the component, by one.
\<close>

lemma forward_auth_effect:
  assumes "run_state (ServeHTTP GetComponent r) s = (w, s')"
  shows "db s' = db s \<or>
    Status w = 200 \<and> (\<exists>pw c. presents r pw \<and> reads r c \<and> entitled (db s) pw c \<and> db s' = count_use pw (db s))"
proof (cases "Status w = 200")
  case True
  with sqlite.ServeHTTP_200[OF assms] show ?thesis by blast
next
  case False
  with sqlite.ServeHTTP_denied[OF assms] show ?thesis by simp
qed

lemma forward_auth_effect_witness:
  "\<exists>w s'. run_state (ServeHTTP GetComponent sample_read) sample = (w, s') \<and>
     (db s' = sample_tables \<or> Status w = 200 \<and> (\<exists>pw c. presents sample_read pw \<and> reads sample_read c \<and>
        entitled sample_tables pw c \<and> db s' = count_use pw sample_tables))"
proof -
  obtain w s' where "run_state (ServeHTTP GetComponent sample_read) sample = (w, s')" by fastforce
  with forward_auth_effect[OF this] show ?thesis by simp
qed

text \<open>
  C34: key expiry is not enforced. A key whose \<^verbatim>\<open>expires_at\<close> lies before every clock reading (and in the years
  0 to 9999, so that it can be read back) is still accepted: the answer to a request with it is 200.
\<close>

theorem forward_auth_ignores_expiry:
  assumes "db_ok s" "\<forall>n \<ge> stmts s. fault s n = None" "reads r c" "c \<in> co_name ` set (components (db s))"
    and "presents r pw" "k \<in> set (subscription_key (db s))" "k_id k = pw" "k_active k = 1" "k_component k = c"
    and "a \<in> set (accounts (db s))" "ac_id a = k_account_id k" "ac_status a = ''active''"
    and "k_expires_at k = Some e" "in_years e" "\<forall>n. parse_rfc3339 e < clock s n"
  shows "Status (fst (run_state (ServeHTTP GetComponent r) s)) = 200"
proof -
  have "entitled (db s) pw c" unfolding entitled_def readable_def using assms by fastforce
  with assms have "may_read (db s) r" by (auto simp: may_read_def)
  with assms show ?thesis unfolding fst_ServeHTTP by (intro serve_complete) auto
qed

theorem forward_auth_ignores_expiry_witness:
  "Status (fst (run_state (ServeHTTP GetComponent sample_read) sample)) = 200"
  by (rule forward_auth_ignores_expiry[where c = "''core''" and pw = sample_key and
        k = "sample_key_row sample_key ''acc-1''" and a = "sample_account ''acc-1'' ''ops@example.org'' ''active''"
        and e = 1699500000])
    (simp_all add: sample_ok sample_reads sample_presents,
     simp_all add: sample_defs parse_rfc3339_def Second_def in_years_def)


end
