(* ===== verification/Cached_Components.thy ===== *)
theory Cached_Components
  imports Forward_Auth "HOL-Library.AList"
begin

text \<open>
  The public-component cache, \<^verbatim>\<open>internal/store/cached_components.go\<close>, which \<^verbatim>\<open>main.go\<close> puts between
  forward-auth and SQLite. The Go maps are association lists with distinct keys. A stored
  component is a value, so the deep copies of \<^verbatim>\<open>cloneComponent\<close> are the value itself. The
  per-name generation is a \<^verbatim>\<open>uint64\<close> and is modelled by \<open>nat\<close>: it could only come round after
  \<open>2^64\<close> writes of one name during one lookup, which \<^verbatim>\<open>lookupTimeout\<close> bounds to five seconds. That
  timeout, like every driver error, is an error of the inner lookup.

  First the operations one at a time; then the interleaving of lookups, writes and evictions of
  concurrent requests as a step relation, with the invariant that the generation guard is there
  for: outside a write that has not evicted yet, a cache entry is the current, public row.
\<close>

record cachedComponent =
  cc_comp :: Component
  cc_expiresAt :: go_time

record cached = metered +
  ttl :: duration
  entries :: "(string \<times> cachedComponent) list"
  gen :: "string \<Rightarrow> nat"

section \<open>Operations\<close>

definition enabled :: "'z cached_scheme \<Rightarrow> bool" where
  "enabled s \<longleftrightarrow> 0 < ttl s"

definition cache_Len :: "'z cached_scheme \<Rightarrow> nat" where
  "cache_Len s = length (entries s)"

definition cloneComponent :: "Component \<Rightarrow> Component" where
  "cloneComponent src = src\<lparr>Comp_RPMSeries := Comp_RPMSeries src, Comp_RPMOSFamilies := Comp_RPMOSFamilies src,
     Comp_RPMArchitectures := Comp_RPMArchitectures src\<rparr>"

definition set_entries :: "(string \<times> cachedComponent) list \<Rightarrow> ('z cached_scheme, unit) state" where
  "set_entries es = State (\<lambda>s. ((), s\<lparr>entries := es\<rparr>))"

definition bump_gen :: "string \<Rightarrow> ('z cached_scheme, unit) state" where
  "bump_gen name = State (\<lambda>s. ((), s\<lparr>gen := (gen s)(name := Suc (gen s name))\<rparr>))"

definition generation :: "string \<Rightarrow> ('z cached_scheme, nat) state" where
  "generation name = do { s \<leftarrow> State_Monad.get; State_Monad.return (gen s name) }"

text \<open>The second, write-locked half of \<^verbatim>\<open>lookup\<close>: drop the entry found expired if it is still there.\<close>

definition drop_expired :: "string \<Rightarrow> go_time \<Rightarrow> ('z cached_scheme, unit) state" where
  "drop_expired name expiresAt = do {
     s \<leftarrow> State_Monad.get;
     case map_of (entries s) name of
       Some cur \<Rightarrow> if cc_expiresAt cur = expiresAt then do {
           _ \<leftarrow> set_entries (AList.delete name (entries s));
           set_CacheEntries (length (AList.delete name (entries s))) }
         else State_Monad.return ()
     | None \<Rightarrow> State_Monad.return () }"

definition cache_lookup :: "string \<Rightarrow> ('z cached_scheme, Component option) state" where
  "cache_lookup name = do {
     s \<leftarrow> State_Monad.get;
     case map_of (entries s) name of
       None \<Rightarrow> State_Monad.return None
     | Some e \<Rightarrow> do {
         now \<leftarrow> time_Now;
         if now < cc_expiresAt e then State_Monad.return (Some (cloneComponent (cc_comp e)))
         else do { _ \<leftarrow> drop_expired name (cc_expiresAt e); State_Monad.return None } } }"

definition cache_insert :: "string \<Rightarrow> Component \<Rightarrow> nat \<Rightarrow> ('z cached_scheme, unit) state" where
  "cache_insert name c g = do {
     s \<leftarrow> State_Monad.get;
     if gen s name \<noteq> g then State_Monad.return ()
     else do {
       now \<leftarrow> time_Now;
       let es = AList.update name \<lparr>cc_comp = cloneComponent c, cc_expiresAt = now + ttl s\<rparr> (entries s);
       _ \<leftarrow> set_entries es;
       set_CacheEntries (length es) } }"

definition cache_evict :: "string \<Rightarrow> ('z cached_scheme, unit) state" where
  "cache_evict name = do {
     s \<leftarrow> State_Monad.get;
     let es = AList.delete name (entries s);
     _ \<leftarrow> set_entries es;
     _ \<leftarrow> bump_gen name;
     set_CacheEntries (length es) }"

text \<open>The function \<^verbatim>\<open>GetComponent\<close> runs through \<^verbatim>\<open>singleflight\<close>, up to and after the inner lookup.\<close>

definition finish_lookup :: "string \<Rightarrow> nat \<Rightarrow> goerr + Component \<Rightarrow> ('z cached_scheme, goerr + Component) state" where
  "finish_lookup name g r = (case r of
       Inl e \<Rightarrow> State_Monad.return (Inl e)
     | Inr c \<Rightarrow> do {
         _ \<leftarrow> (if Comp_Visibility c = ''public'' then cache_insert name c g else State_Monad.return ());
         State_Monad.return (Inr c) })"

definition shared_lookup :: "string \<Rightarrow> ('z cached_scheme, goerr + Component) state" where
  "shared_lookup name = do {
     g \<leftarrow> generation name;
     r \<leftarrow> GetComponent name;
     finish_lookup name g r }"

definition Cached_GetComponent :: "string \<Rightarrow> ('z cached_scheme, goerr + Component) state" where
  "Cached_GetComponent name = do {
     _ \<leftarrow> inc_CacheRequests;
     s \<leftarrow> State_Monad.get;
     if \<not> enabled s then GetComponent name
     else do {
       hit \<leftarrow> cache_lookup name;
       case hit of
         Some c \<Rightarrow> do { _ \<leftarrow> inc_CacheHits; State_Monad.return (Inr c) }
       | None \<Rightarrow> do {
           r \<leftarrow> shared_lookup name;
           State_Monad.return (case r of Inl e \<Rightarrow> Inl e | Inr c \<Rightarrow> Inr (cloneComponent c)) } } }"

text \<open>A write passes through and evicts the name when it succeeded.\<close>

definition evict_on_success :: "string \<Rightarrow> goerr + 'a \<Rightarrow> ('z cached_scheme, goerr + 'a) state" where
  "evict_on_success name r = do {
     s \<leftarrow> State_Monad.get;
     _ \<leftarrow> (if isl r \<or> \<not> enabled s then State_Monad.return () else cache_evict name);
     State_Monad.return r }"

definition Cached_UpdateComponent :: "string \<Rightarrow> ComponentPatch \<Rightarrow> ('z cached_scheme, goerr + Component) state" where
  "Cached_UpdateComponent name patch = do { r \<leftarrow> UpdateComponent name patch; evict_on_success name r }"

definition Cached_DeleteComponent :: "string \<Rightarrow> ('z cached_scheme, goerr + unit) state" where
  "Cached_DeleteComponent name = do { r \<leftarrow> DeleteComponent name; evict_on_success name r }"

definition Cached_DeleteComponentWithRevoke :: "string \<Rightarrow> ('z cached_scheme, goerr + int) state" where
  "Cached_DeleteComponentWithRevoke name = do { r \<leftarrow> DeleteComponentWithRevoke name; evict_on_success name r }"

section \<open>Runs\<close>

lemma cloneComponent_id [simp]: "cloneComponent c = c"
  by (simp add: cloneComponent_def)

lemma run_set_entries [run_simps]: "run_state (set_entries es) s = ((), s\<lparr>entries := es\<rparr>)"
  by (simp add: set_entries_def)

lemma run_bump_gen [run_simps]: "run_state (bump_gen n) s = ((), s\<lparr>gen := (gen s)(n := Suc (gen s n))\<rparr>)"
  by (simp add: bump_gen_def)

lemma run_generation [run_simps]: "run_state (generation n) s = (gen s n, s)"
  by (simp add: generation_def run_simps)

lemma run_drop_expired:
  "run_state (drop_expired n x) s = ((),
     case map_of (entries s) n of
       Some cur \<Rightarrow> if cc_expiresAt cur = x then s\<lparr>entries := AList.delete n (entries s),
           ComponentCacheEntries := length (AList.delete n (entries s))\<rparr> else s
     | None \<Rightarrow> s)"
  by (simp add: drop_expired_def run_simps split: option.split)

lemma run_cache_insert:
  "run_state (cache_insert n c g) s = ((),
     if gen s n \<noteq> g then s
     else let es = AList.update n \<lparr>cc_comp = c, cc_expiresAt = clock s (clock_reads s) + ttl s\<rparr> (entries s)
       in s\<lparr>clock_reads := Suc (clock_reads s), entries := es, ComponentCacheEntries := length es\<rparr>)"
  by (simp add: cache_insert_def run_simps Let_def)

lemma run_cache_evict:
  "run_state (cache_evict n) s = ((), let es = AList.delete n (entries s) in
     s\<lparr>entries := es, gen := (gen s)(n := Suc (gen s n)), ComponentCacheEntries := length es\<rparr>)"
  by (simp add: cache_evict_def run_simps Let_def)

lemma run_cache_lookup:
  "run_state (cache_lookup n) s = (case map_of (entries s) n of
       None \<Rightarrow> (None, s)
     | Some e \<Rightarrow> let s1 = s\<lparr>clock_reads := Suc (clock_reads s)\<rparr> in
         if clock s (clock_reads s) < cc_expiresAt e then (Some (cc_comp e), s1)
         else (None, s1\<lparr>entries := AList.delete n (entries s), ComponentCacheEntries := length (AList.delete n (entries s))\<rparr>))"
  by (simp add: cache_lookup_def run_simps run_drop_expired Let_def split: option.split)

lemma fst_finish_lookup [simp]: "fst (run_state (finish_lookup n g r) s) = r"
  by (simp add: finish_lookup_def run_simps run_cache_insert split: sum.split)

text \<open>No cache operation touches the tables.\<close>

lemma keeps_cache_db [keep_rules]:
  "keeps db (set_entries es)" "keeps db (bump_gen n)" "keeps db (generation n)" "keeps db (drop_expired n x)"
  "keeps db (cache_lookup n)" "keeps db (cache_insert n c g)" "keeps db (cache_evict n)"
  by (simp_all add: keeps_def run_simps run_drop_expired run_cache_lookup run_cache_insert run_cache_evict Let_def
      split: option.split)

lemma finish_lookup_keeps [keep_rules]: "keeps db (finish_lookup n g r)"
  unfolding finish_lookup_def by (intro keep_rules)

lemma Cached_GetComponent_keeps [keep_rules]: "keeps db (Cached_GetComponent n)"
  unfolding Cached_GetComponent_def shared_lookup_def by (intro keep_rules)

section \<open>The cached store as a component source\<close>

definition live_entry :: "'z cached_scheme \<Rightarrow> string \<Rightarrow> Component \<Rightarrow> bool" where
  "live_entry s n c \<longleftrightarrow> enabled s \<and> (\<exists>e. map_of (entries s) n = Some e \<and> clock s (clock_reads s) < cc_expiresAt e \<and> c = cc_comp e)"

definition cache_attests :: "'z cached_scheme \<Rightarrow> string \<Rightarrow> Component \<Rightarrow> bool" where
  "cache_attests s n c \<longleftrightarrow> row_attests s n c \<or> live_entry s n c"

text \<open>A hit is a live entry; everything else is the inner lookup's answer.\<close>

lemma fst_Cached_GetComponent:
  "fst (run_state (Cached_GetComponent n) s) =
    (case map_of (entries s) n of
       Some e \<Rightarrow> if enabled s \<and> clock s (clock_reads s) < cc_expiresAt e then Inr (cc_comp e)
                else fst (run_state (GetComponent n) s)
     | None \<Rightarrow> fst (run_state (GetComponent n) s))"
  by (simp add: Cached_GetComponent_def shared_lookup_def enabled_def run_simps run_cache_lookup run_GetComponent
      Let_def finish_lookup_def run_cache_insert split: option.splits sum.splits)

interpretation cache: component_source Cached_GetComponent cache_attests
proof
  show "keeps db (Cached_GetComponent n)" for n by (rule Cached_GetComponent_keeps)
  show "cache_attests s n c" if "run_state (Cached_GetComponent n) s = (Inr c, s')" for n s c s'
  proof -
    have "fst (run_state (Cached_GetComponent n) s) = Inr c" using that by simp
    then show ?thesis unfolding fst_Cached_GetComponent cache_attests_def live_entry_def
      using sqlite.get_attests[of n s c "snd (run_state (GetComponent n) s)"]
      by (auto split: option.splits if_splits simp: prod_eq_iff)
  qed
qed

section \<open>Coherence\<close>

definition current :: "tables \<Rightarrow> string \<Rightarrow> Component \<Rightarrow> bool" where
  "current t n c \<longleftrightarrow> (\<exists>r. find (\<lambda>q. co_name q = n) (components t) = Some r \<and> c = scanComponent r)"

text \<open>Every entry is the current row of its name, and public.\<close>

definition coherent :: "'z cached_scheme \<Rightarrow> bool" where
  "coherent s \<longleftrightarrow> (\<forall>n e. map_of (entries s) n = Some e \<longrightarrow>
     current (db s) n (cc_comp e) \<and> Comp_Visibility (cc_comp e) = ''public'')"

lemma coherent_attests: "coherent s \<Longrightarrow> cache_attests s n c \<Longrightarrow> row_attests s n c"
  by (auto simp: coherent_def cache_attests_def live_entry_def current_def row_attests_def)

lemma map_of_AList_update: "map_of (AList.update k v al) k' = (if k' = k then Some v else map_of al k')"
  by (simp add: update_conv')

lemma map_of_AList_delete: "map_of (AList.delete k al) k' = (if k' = k then None else map_of al k')"
  by (simp add: delete_conv')

lemmas cache_map_simps = map_of_AList_update map_of_AList_delete

section \<open>Interleaving of concurrent requests\<close>

text \<open>
  Requests run concurrently. Each SQL transaction and each mutex-protected section is one step;
  between the steps of one request, steps of others can happen. \<^verbatim>\<open>singleflight\<close> allows one lookup
  per name: it starts, captures the generation, reads the store, and finishes by inserting. A write
  that committed is pending until its eviction runs. The rest of the service, which writes no
  component, is the step \<open>other\<close>.
\<close>

datatype flight = Begun | Captured nat | HasRead nat "goerr + Component"

datatype component_write = WUpdate ComponentPatch | WDelete | WDeleteRevoke

definition run_write :: "component_write \<Rightarrow> string \<Rightarrow> ('z store_scheme, bool) state" where
  "run_write wr n = (case wr of
       WUpdate p \<Rightarrow> do { r \<leftarrow> UpdateComponent n p; State_Monad.return (\<not> isl r) }
     | WDelete \<Rightarrow> do { r \<leftarrow> DeleteComponent n; State_Monad.return (\<not> isl r) }
     | WDeleteRevoke \<Rightarrow> do { r \<leftarrow> DeleteComponentWithRevoke n; State_Monad.return (\<not> isl r) })"

record world =
  sys :: cached
  flights :: "string \<Rightarrow> flight option"
  pending :: "string list"

definition cache_part :: "'z cached_scheme \<Rightarrow> duration \<times> (string \<times> cachedComponent) list \<times> (string \<Rightarrow> nat)" where
  "cache_part s = (ttl s, entries s, gen s)"

inductive step :: "world \<Rightarrow> world \<Rightarrow> bool" where
  st_start: "flights w n = None \<Longrightarrow> step w (w\<lparr>flights := (flights w)(n := Some Begun)\<rparr>)"
| st_capture: "flights w n = Some Begun \<Longrightarrow>
    step w (w\<lparr>flights := (flights w)(n := Some (Captured (gen (sys w) n)))\<rparr>)"
| st_read: "flights w n = Some (Captured g) \<Longrightarrow> run_state (GetComponent n) (sys w) = (r, s') \<Longrightarrow>
    step w (w\<lparr>sys := s', flights := (flights w)(n := Some (HasRead g r))\<rparr>)"
| st_finish: "flights w n = Some (HasRead g r) \<Longrightarrow> run_state (finish_lookup n g r) (sys w) = (x, s') \<Longrightarrow>
    step w (w\<lparr>sys := s', flights := (flights w)(n := None)\<rparr>)"
| st_expire: "run_state (drop_expired n x) (sys w) = (u, s') \<Longrightarrow> step w (w\<lparr>sys := s'\<rparr>)"
| st_write: "run_state (run_write wr n) (sys w) = (ok, s') \<Longrightarrow>
    step w (w\<lparr>sys := s', pending := (if ok then n # pending w else pending w)\<rparr>)"
| st_evict: "n \<in> set (pending w) \<Longrightarrow> run_state (cache_evict n) (sys w) = (u, s') \<Longrightarrow>
    step w (w\<lparr>sys := s', pending := remove1 n (pending w)\<rparr>)"
| st_create: "run_state (CreateComponent c) (sys w) = (r, s') \<Longrightarrow> step w (w\<lparr>sys := s'\<rparr>)"
| st_other: "components (db s') = components (db (sys w)) \<Longrightarrow> cache_part s' = cache_part (sys w) \<Longrightarrow>
    step w (w\<lparr>sys := s'\<rparr>)"

inductive_cases stepE: "step w w'"

inductive reachable :: "world \<Rightarrow> world \<Rightarrow> bool" where
  reach_refl: "reachable w w"
| reach_step: "reachable w w' \<Longrightarrow> step w' w'' \<Longrightarrow> reachable w w''"

subsection \<open>What the store operations do to rows and to the cache\<close>

lemma keeps_ext_stmt:
  "(\<And>s n t. f (s\<lparr>stmts := n, db := t\<rparr>) = f s) \<Longrightarrow> (\<And>s n. f (s\<lparr>stmts := n\<rparr>) = f s) \<Longrightarrow> keeps f (sql_stmt g)"
  by (auto simp: keeps_def run_sql_stmt split: option.splits sum.splits)

lemma keeps_ext_tx:
  assumes "keeps f body" "\<And>s t. f (s\<lparr>db := t\<rparr>) = f s" "\<And>s n. f (s\<lparr>stmts := n\<rparr>) = f s"
  shows "keeps f (sql_tx a b body)"
proof (rule keepsI)
  fix s
  have "f (snd (run_state body (s\<lparr>stmts := Suc (stmts s)\<rparr>))) = f s"
    using keepsD[OF assms(1)] assms(3) by metis
  then show "f (snd (run_state (sql_tx a b body) s)) = f s"
    by (auto simp: run_sql_tx Let_def assms(2,3) split: option.splits prod.splits sum.splits)
qed

lemma cache_part_upd [simp]:
  "cache_part (s\<lparr>db := t\<rparr>) = cache_part s" "cache_part (s\<lparr>stmts := n\<rparr>) = cache_part s"
  "cache_part (s\<lparr>clock_reads := n\<rparr>) = cache_part s"
  by (simp_all add: cache_part_def)

lemma cache_part_run_write: "keeps cache_part (run_write wr n)"
  unfolding run_write_def UpdateComponent_def DeleteComponent_def DeleteComponentWithRevoke_def
  by (cases wr) (auto intro!: keep_rules keeps_ext_stmt keeps_ext_tx)

lemma cache_part_CreateComponent: "keeps cache_part (CreateComponent c)"
  unfolding CreateComponent_def Let_def by (auto intro!: keep_rules keeps_ext_stmt)

lemma cache_part_GetComponent: "keeps cache_part (GetComponent n)"
  unfolding GetComponent_def by (auto intro!: keep_rules)

text \<open>A failed write changes no row; a successful one changes only rows of its name.\<close>

lemma find_filter_other:
  "j \<noteq> n \<Longrightarrow> find (\<lambda>q. co_name q = j) (filter (\<lambda>r. co_name r \<noteq> n) rs) = find (\<lambda>q. co_name q = j) rs"
  by (induction rs) auto

lemma run_write_rows:
  assumes "run_state (run_write wr n) s = (ok, s')" "\<not> ok \<or> j \<noteq> n"
  shows "find (\<lambda>q. co_name q = j) (components (db s')) = find (\<lambda>q. co_name q = j) (components (db s))"
proof (cases wr)
  case (WUpdate p)
  then obtain r where r: "run_state (UpdateComponent n p) s = (r, s')" and ok: "ok = (\<not> isl r)"
    using assms(1) by (auto simp: run_write_def run_simps split: prod.splits)
  show ?thesis
  proof (cases r)
    case (Inl e)
    with r show ?thesis by (simp add: UpdateComponent_error)
  next
    case (Inr c)
    with r UpdateComponent_success[of n p s c s'] ok assms(2) show ?thesis
      by (auto simp: find_update_component)
  qed
next
  case WDelete
  have same: "filter (\<lambda>r. co_name r \<noteq> n) rs = rs" if "\<forall>r \<in> set rs. co_name r \<noteq> n" for rs
    using that by (simp add: filter_id_conv)
  show ?thesis
    using assms WDelete find_filter_other[of j n "components (db s)"]
    by (auto simp: run_write_def DeleteComponent_def run_simps run_sql_stmt delete_component_def count_rows_0 same
        split: option.splits if_splits)
next
  case WDeleteRevoke
  then obtain r where r: "run_state (DeleteComponentWithRevoke n) s = (r, s')" and ok: "ok = (\<not> isl r)"
    using assms(1) by (auto simp: run_write_def run_simps split: prod.splits)
  show ?thesis
  proof (cases r)
    case (Inl e)
    with r show ?thesis by (simp add: DeleteComponentWithRevoke_error)
  next
    case (Inr k)
    with r DeleteComponentWithRevoke_success[of n s k s'] ok assms(2) show ?thesis
      by (auto simp: find_filter_other)
  qed
qed

lemma CreateComponent_rows:
  assumes "run_state (CreateComponent c) s = (r, s')" "find (\<lambda>q. co_name q = j) (components (db s)) = Some q"
  shows "find (\<lambda>q. co_name q = j) (components (db s')) = Some q"
proof -
  have "find P (xs @ ys) = (case find P xs of None \<Rightarrow> find P ys | Some x \<Rightarrow> Some x)" for P and xs ys :: "component_row list"
    by (induction xs) auto
  with assms show ?thesis
    by (auto simp: CreateComponent_def Let_def run_simps run_sql_stmt insert_component_def split: option.splits if_splits)
qed

subsection \<open>The invariant\<close>

definition settled :: "world \<Rightarrow> string \<Rightarrow> bool" where
  "settled w n \<longleftrightarrow>
     (\<forall>e. map_of (entries (sys w)) n = Some e \<longrightarrow>
        current (db (sys w)) n (cc_comp e) \<and> Comp_Visibility (cc_comp e) = ''public'') \<and>
     (\<forall>c. flights w n = Some (HasRead (gen (sys w) n) (Inr c)) \<longrightarrow> current (db (sys w)) n c)"

fun flight_gen :: "flight \<Rightarrow> nat option" where
  "flight_gen Begun = None"
| "flight_gen (Captured g) = Some g"
| "flight_gen (HasRead g r) = Some g"

definition world_inv :: "world \<Rightarrow> bool" where
  "world_inv w \<longleftrightarrow> (\<forall>n. n \<notin> set (pending w) \<longrightarrow> settled w n) \<and>
     (\<forall>n f g. flights w n = Some f \<longrightarrow> flight_gen f = Some g \<longrightarrow> g \<le> gen (sys w) n)"

lemma current_mono:
  "current t n c \<Longrightarrow> (\<And>r. find (\<lambda>q. co_name q = n) (components t) = Some r \<Longrightarrow>
     find (\<lambda>q. co_name q = n) (components t') = Some r) \<Longrightarrow> current t' n c"
  by (auto simp: current_def)

text \<open>Steps that leave entries and generations alone and every current row of a quiet name in place.\<close>

lemma inv_sys_change:
  assumes "world_inv w" "cache_part s' = cache_part (sys w)" "set (pending w) \<subseteq> set ps"
    and "\<And>n r. n \<notin> set ps \<Longrightarrow> find (\<lambda>q. co_name q = n) (components (db (sys w))) = Some r \<Longrightarrow>
      find (\<lambda>q. co_name q = n) (components (db s')) = Some r"
  shows "world_inv (w\<lparr>sys := s', pending := ps\<rparr>)"
proof -
  have "entries s' = entries (sys w)" "gen s' = gen (sys w)"
    using assms(2) by (simp_all add: cache_part_def)
  moreover have "current (db s') n c" if "n \<notin> set ps" "current (db (sys w)) n c" for n c
    using that assms(4) by (auto intro: current_mono)
  ultimately show ?thesis
    using assms(1,3) by (auto simp: world_inv_def settled_def subset_iff)
qed

text \<open>Each kind of step keeps the invariant.\<close>

lemma inv_flight:
  assumes "world_inv w" "\<And>g. flight_gen f = Some g \<Longrightarrow> g \<le> gen (sys w) n" "\<And>g r. f \<noteq> HasRead g r"
  shows "world_inv (w\<lparr>flights := (flights w)(n := Some f)\<rparr>)"
  using assms by (auto simp: world_inv_def settled_def)

lemma inv_read:
  assumes "world_inv w" "flights w n = Some (Captured g)" "run_state (GetComponent n) (sys w) = (r, s')"
  shows "world_inv (w\<lparr>sys := s', flights := (flights w)(n := Some (HasRead g r))\<rparr>)"
proof -
  have d: "db s' = db (sys w)" using keepsD[OF GetComponent_keeps, of n "sys w"] assms(3) by simp
  have c: "entries s' = entries (sys w)" "gen s' = gen (sys w)"
    using keepsD[OF cache_part_GetComponent, of n "sys w"] assms(3) by (simp_all add: cache_part_def)
  have "current (db s') n cmp" if "r = Inr cmp" for cmp
    using assms(3) that d by (auto simp: current_def run_GetComponent split: option.splits)
  with d c assms(1,2) show ?thesis by (auto simp: world_inv_def settled_def)
qed

lemma inv_finish:
  assumes "world_inv w" "flights w n = Some (HasRead g r)" "run_state (finish_lookup n g r) (sys w) = (x, s')"
  shows "world_inv (w\<lparr>sys := s', flights := (flights w)(n := None)\<rparr>)"
proof (cases "\<exists>c. r = Inr c \<and> Comp_Visibility c = ''public'' \<and> gen (sys w) n = g")
  case True
  then obtain c where c: "r = Inr c" "Comp_Visibility c = ''public''" "gen (sys w) n = g" by auto
  then have e: "entries s' = AList.update n \<lparr>cc_comp = c, cc_expiresAt = clock (sys w) (clock_reads (sys w)) + ttl (sys w)\<rparr>
      (entries (sys w))" "gen s' = gen (sys w)" "db s' = db (sys w)"
    using assms(3) by (auto simp: finish_lookup_def run_simps run_cache_insert Let_def)
  have "current (db (sys w)) n c" if "n \<notin> set (pending w)"
    using that assms(1,2) c by (auto simp: world_inv_def settled_def)
  with e assms(1) c show ?thesis
    by (auto simp: world_inv_def settled_def cache_map_simps split: if_splits)
next
  case False
  then have "s' = sys w"
    using assms(3) by (auto simp: finish_lookup_def run_simps run_cache_insert split: sum.splits if_splits)
  with assms(1) show ?thesis by (auto simp: world_inv_def settled_def)
qed

lemma inv_expire:
  assumes "world_inv w" "run_state (drop_expired n x) (sys w) = (u, s')"
  shows "world_inv (w\<lparr>sys := s'\<rparr>)"
proof -
  have "gen s' = gen (sys w)" "db s' = db (sys w)"
    "\<And>m e. map_of (entries s') m = Some e \<Longrightarrow> map_of (entries (sys w)) m = Some e"
    using assms(2) by (auto simp: run_drop_expired cache_map_simps split: option.splits if_splits)
  with assms(1) show ?thesis unfolding world_inv_def settled_def by simp
qed

lemma inv_evict:
  assumes "world_inv w" "run_state (cache_evict n) (sys w) = (u, s')"
  shows "world_inv (w\<lparr>sys := s', pending := remove1 n (pending w)\<rparr>)"
proof -
  have s': "gen s' = (gen (sys w))(n := Suc (gen (sys w) n))" "db s' = db (sys w)"
    "\<And>m. map_of (entries s') m = (if m = n then None else map_of (entries (sys w)) m)"
    using assms(2) by (auto simp: run_cache_evict Let_def cache_map_simps)
  have "settled (w\<lparr>sys := s', pending := remove1 n (pending w)\<rparr>) m" if "m \<notin> set (remove1 n (pending w))" for m
  proof (cases "m = n")
    case True
    have "flights w n \<noteq> Some (HasRead (Suc (gen (sys w) n)) r)" for r
      using assms(1) by (fastforce simp: world_inv_def)
    with True s' show ?thesis by (simp add: settled_def)
  next
    case False
    with that have "m \<notin> set (pending w)" by (simp add: in_set_remove1)
    with False s' assms(1) show ?thesis by (simp add: world_inv_def settled_def)
  qed
  moreover have "g \<le> gen s' m" if "flights w m = Some f" "flight_gen f = Some g" for m f g
    using that s' assms(1) by (auto simp: world_inv_def intro: le_SucI)
  ultimately show ?thesis by (simp add: world_inv_def)
qed

lemma inv_quiet_change:
  assumes "world_inv w" "cache_part s' = cache_part (sys w)"
    and "\<And>n r. find (\<lambda>q. co_name q = n) (components (db (sys w))) = Some r \<Longrightarrow>
      find (\<lambda>q. co_name q = n) (components (db s')) = Some r"
  shows "world_inv (w\<lparr>sys := s'\<rparr>)"
  using inv_sys_change[OF assms(1,2), of "pending w"] assms(3) by simp

lemma step_inv:
  assumes "step w w'" "world_inv w"
  shows "world_inv w'"
  using assms
proof (induction rule: step.induct)
  case (st_write wr n w ok s')
  then show ?case
    using keepsD[OF cache_part_run_write, of wr n "sys w"] run_write_rows[OF st_write(1)]
    by (intro inv_sys_change) (auto split: if_splits)
next
  case (st_create c w r s')
  then show ?case
    using keepsD[OF cache_part_CreateComponent, of c "sys w"] CreateComponent_rows[OF st_create(1)]
    by (intro inv_quiet_change) auto
next
  case (st_other s' w)
  then show ?case by (intro inv_quiet_change) auto
qed (auto intro: inv_flight inv_read inv_finish inv_expire inv_evict)

lemma reachable_inv: "reachable w w' \<Longrightarrow> world_inv w \<Longrightarrow> world_inv w'"
  by (induction rule: reachable.induct) (auto intro: step_inv)

text \<open>The start: an empty cache, no lookup and no write under way.\<close>

definition initial :: "world \<Rightarrow> bool" where
  "initial w \<longleftrightarrow> entries (sys w) = [] \<and> flights w = (\<lambda>_. None) \<and> pending w = []"

lemma initial_inv: "initial w \<Longrightarrow> world_inv w"
  by (simp add: initial_def world_inv_def settled_def)

text \<open>A hit answers without the database, so it survives an outage.\<close>

lemma serve_hit:
  assumes "reads r c" "live_entry (s\<lparr>clock_reads := Suc (clock_reads s)\<rparr>) c cmp" "Comp_Visibility cmp = ''public''"
  shows "Status (fst (run_state (ServeHTTP Cached_GetComponent r) s)) = 200"
proof -
  let ?s = "s\<lparr>clock_reads := Suc (clock_reads s)\<rparr>"
  have "fst (run_state (Cached_GetComponent c) ?s) = Inr cmp"
    using assms(2) by (auto simp: fst_Cached_GetComponent live_entry_def enabled_def)
  then obtain s2 where "run_state (Cached_GetComponent c) ?s = (Inr cmp, s2)"
    by (metis prod.collapse)
  with assms(1,3) show ?thesis
    unfolding fst_ServeHTTP by (auto simp: reads_def serve_def Let_def run_answer)
qed

section \<open>Properties\<close>

definition sample_cached :: cached where
  "sample_cached = metered.extend sample (cached.fields (30 * Second) [] (\<lambda>_. 0))"

lemma sample_cached_sel [simp]:
  "db sample_cached = sample_tables" "entries sample_cached = []" "ttl sample_cached = 30 * Second"
  "gen sample_cached = (\<lambda>_. 0)" "fault sample_cached n = None" "stmts sample_cached = 0" "clock_reads sample_cached = 0"
  "clock sample_cached n = (1700000000 + int n) * Second" "entropy_err sample_cached n = None" "draws sample_cached = 0"
  by (simp_all add: sample_cached_def metered.defs cached.defs sample_def)

definition sample_world :: world where
  "sample_world = \<lparr>sys = sample_cached, flights = (\<lambda>_. None), pending = []\<rparr>"

lemma sample_world_initial: "initial sample_world"
  by (simp add: initial_def sample_world_def)

text \<open>A lookup of the public sample component, step by step.\<close>

lemma sample_cache_filled:
  "\<exists>w e. reachable sample_world w \<and> pending w = [] \<and> map_of (entries (sys w)) ''docs'' = Some e"
proof -
  let ?d = "''docs''"
  define c where "c = scanComponent (sample_component ?d ''public'')"
  define s1 where "s1 = sample_cached\<lparr>stmts := 1\<rparr>"
  define w1 where "w1 = sample_world\<lparr>flights := (\<lambda>_. None)(?d := Some Begun)\<rparr>"
  define w2 where "w2 = sample_world\<lparr>flights := (\<lambda>_. None)(?d := Some (Captured 0))\<rparr>"
  define w3 where "w3 = sample_world\<lparr>sys := s1, flights := (\<lambda>_. None)(?d := Some (HasRead 0 (Inr c)))\<rparr>"
  define s4 where "s4 = snd (run_state (finish_lookup ?d 0 (Inr c)) s1)"
  have "step sample_world w1"
    using st_start[of sample_world ?d] by (simp add: w1_def sample_world_def)
  moreover have "step w1 w2"
    using st_capture[of w1 ?d] by (simp add: w1_def w2_def sample_world_def)
  moreover have "run_state (GetComponent ?d) (sys w2) = (Inr c, s1)"
    by (simp add: run_GetComponent w2_def sample_world_def s1_def c_def sample_tables_def sample_component_def)
  then have "step w2 w3"
    using st_read[of w2 ?d 0 "Inr c" s1] by (simp add: w2_def w3_def)
  moreover have "run_state (finish_lookup ?d 0 (Inr c)) (sys w3) = (Inr c, s4)"
    using fst_finish_lookup[of ?d 0 "Inr c" s1] by (simp add: w3_def s4_def prod_eq_iff)
  then have "step w3 (w3\<lparr>sys := s4, flights := (flights w3)(?d := None)\<rparr>)"
    by (intro st_finish) (auto simp: w3_def)
  ultimately have "reachable sample_world (w3\<lparr>sys := s4, flights := (flights w3)(?d := None)\<rparr>)"
    using reach_step[OF reach_step[OF reach_step[OF reach_step[OF reach_refl]]]] by metis
  moreover have "\<exists>e. map_of (entries s4) ?d = Some e"
    by (simp add: s4_def s1_def c_def finish_lookup_def run_simps run_cache_insert Let_def sample_component_def
        cache_map_simps)
  ultimately show ?thesis
    by (intro exI[of _ "w3\<lparr>sys := s4, flights := (flights w3)(?d := None)\<rparr>"]) (auto simp: w3_def sample_world_def)
qed



text \<open>
  forward-auth behind the cache, as the service wires it, is as sound as without it. In every
  reachable state with no write waiting for its eviction, an answer 200 means that the tables of
  that moment grant the read.
\<close>

lemma forward_auth_cached_sound:
  assumes "initial w0" "reachable w0 w1" "pending w1 = []"
    and "run_state (ServeHTTP Cached_GetComponent r) (sys w1) = (w, s')" "Status w = 200"
  shows "may_read (db (sys w1)) r"
proof -
  have "world_inv w1" using assms(1,2) by (simp add: initial_inv reachable_inv)
  with assms(3) have "coherent (sys w1)" by (auto simp: world_inv_def settled_def coherent_def)
  then have "coherent ((sys w1)\<lparr>clock_reads := Suc (clock_reads (sys w1))\<rparr>)" by (simp add: coherent_def)
  with cache.ServeHTTP_200[OF assms(4,5)] show ?thesis
    by (fastforce simp: may_read_def dest: coherent_attests row_attests_component)
qed

lemma forward_auth_cached_sound_witness:
  "\<exists>w. reachable sample_world w \<and> pending w = [] \<and> map_of (entries (sys w)) ''docs'' \<noteq> None \<and>
     (Status (fst (run_state (ServeHTTP Cached_GetComponent sample_read) (sys w))) = 200 \<longrightarrow> may_read (db (sys w)) sample_read)"
proof -
  obtain w e where w: "reachable sample_world w" "pending w = []" "map_of (entries (sys w)) ''docs'' = Some e"
    using sample_cache_filled by blast
  then show ?thesis
    using forward_auth_cached_sound[OF sample_world_initial w(1,2) surjective_pairing, of sample_read] by auto
qed

text \<open>
  Public reads survive a database outage. While a name has a live entry, a read of it is
  answered 200 even if every SQL statement fails, and it changes no table.
\<close>

lemma cache_survives_outage:
  assumes "reads r c" "0 < ttl s" "map_of (entries s) c = Some e" "clock s (Suc (clock_reads s)) < cc_expiresAt e"
    and "Comp_Visibility (cc_comp e) = ''public''" "\<forall>n. fault s n \<noteq> None"
    and "run_state (ServeHTTP Cached_GetComponent r) s = (w, s')"
  shows "Status w = 200 \<and> db s' = db s"
proof
  have "Status (fst (run_state (ServeHTTP Cached_GetComponent r) s)) = 200"
    using assms by (intro serve_hit) (auto simp: live_entry_def enabled_def)
  with assms(7) show ok: "Status w = 200" by simp
  have "db (snd (run_state (serve Cached_GetComponent r) (s\<lparr>clock_reads := Suc (clock_reads s)\<rparr>))) = db s"
  proof -
    let ?s = "s\<lparr>clock_reads := Suc (clock_reads s)\<rparr>"
    have "fst (run_state (Cached_GetComponent c) ?s) = Inr (cc_comp e)"
      using assms by (auto simp: fst_Cached_GetComponent enabled_def)
    then obtain s2 where s2: "run_state (Cached_GetComponent c) ?s = (Inr (cc_comp e), s2)" by (metis prod.collapse)
    then have "db s2 = db s" using keepsD[OF Cached_GetComponent_keeps, of c ?s] by simp
    with s2 assms(1,5) show ?thesis by (auto simp: reads_def serve_def Let_def run_answer)
  qed
  with cache.ServeHTTP_runs[OF assms(7)] show "db s' = db s" by (metis snd_conv)
qed

definition sample_cached_outage :: cached where
  "sample_cached_outage = sample_cached\<lparr>fault := (\<lambda>_. Some ''disk I/O error''),
     entries := [(''docs'', \<lparr>cc_comp = scanComponent (sample_component ''docs'' ''public''),
       cc_expiresAt = 1700000030 * Second\<rparr>)]\<rparr>"

definition sample_docs_read :: request where
  "sample_docs_read = sample_read\<lparr>Header := (\<lambda>h. if h = ''X-Forwarded-Uri'' then ''/deb/docs/2024'' else []), BasicAuth := None\<rparr>"

lemma sample_docs_reads: "reads sample_docs_read ''docs''"
  by (simp add: reads_def sample_docs_read_def sample_read_def forwarded_method_def isRegistryPing_def
      extractComponent_def strings_TrimPrefix_def strings_HasPrefix_def strings_TrimSuffix_def SplitN_5 SplitN_3
      Let_def before_sep_def after_sep_def)

lemma cache_survives_outage_witness:
  "Status (fst (run_state (ServeHTTP Cached_GetComponent sample_docs_read) sample_cached_outage)) = 200"
  using cache_survives_outage[OF sample_docs_reads, of sample_cached_outage, OF _ _ _ _ _ surjective_pairing]
  by (simp add: sample_cached_outage_def Second_def scanComponent_def sample_component_def)

text \<open>
  A TTL of zero or less switches the cache off. Each operation then acts as the inner store's,
  the request counter apart, and no entry is made or evicted.
\<close>

lemma cache_disabled_passes_through:
  assumes "ttl s \<le> 0"
  shows "run_state (Cached_GetComponent n) s =
      run_state (GetComponent n) (s\<lparr>ComponentCacheRequests := Suc (ComponentCacheRequests s)\<rparr>) \<and>
    run_state (Cached_UpdateComponent n p) s = run_state (UpdateComponent n p) s \<and>
    run_state (Cached_DeleteComponent n) s = run_state (DeleteComponent n) s \<and>
    run_state (Cached_DeleteComponentWithRevoke n) s = run_state (DeleteComponentWithRevoke n) s"
proof (intro conjI)
  have off: "run_state (evict_on_success n r) s' = (r, s')" if "cache_part s' = cache_part s" for s' r
    using that assms by (auto simp: evict_on_success_def enabled_def cache_part_def run_simps)
  have w: "cache_part s' = cache_part s" if "run_state (run_write wr n) s = (ok, s')" for wr ok s'
    using keepsD[OF cache_part_run_write, of wr n s] that by simp
  show "run_state (Cached_GetComponent n) s =
      run_state (GetComponent n) (s\<lparr>ComponentCacheRequests := Suc (ComponentCacheRequests s)\<rparr>)"
    using assms by (simp add: Cached_GetComponent_def enabled_def run_simps)
  show "run_state (Cached_UpdateComponent n p) s = run_state (UpdateComponent n p) s"
    using w[of "WUpdate p"] by (auto simp: Cached_UpdateComponent_def run_write_def run_simps off split: prod.splits)
  show "run_state (Cached_DeleteComponent n) s = run_state (DeleteComponent n) s"
    using w[of WDelete] by (auto simp: Cached_DeleteComponent_def run_write_def run_simps off split: prod.splits)
  show "run_state (Cached_DeleteComponentWithRevoke n) s = run_state (DeleteComponentWithRevoke n) s"
    using w[of WDeleteRevoke] by (auto simp: Cached_DeleteComponentWithRevoke_def run_write_def run_simps off split: prod.splits)
qed

lemma cache_disabled_passes_through_witness:
  "run_state (Cached_DeleteComponent ''docs'') (sample_cached\<lparr>ttl := 0\<rparr>) = run_state (DeleteComponent ''docs'') (sample_cached\<lparr>ttl := 0\<rparr>)"
  using cache_disabled_passes_through[of "sample_cached\<lparr>ttl := 0\<rparr>"] by simp

end
