(* ===== verification/Rate_Limit.thy ===== *)
theory Rate_Limit
  imports Complex_Main Guard Cached_Components
begin

text \<open>
  The token-bucket limiter of the OAuth endpoints, \<^verbatim>\<open>internal/middleware/ratelimit.go\<close>. Tokens are
  real numbers where the code has \<^verbatim>\<open>float64\<close>: rounding is not modelled. The
  middleware around the limiter is in \<open>Rate_Limit_Middleware\<close>. The lemmas: a bucket holds between 0
  and the capacity; over any run of checks with a clock that does not go backwards, one address is
  allowed at most the capacity plus the refill of the elapsed time; reaping a bucket never changes
  a later decision.
\<close>

definition DefaultRateLimitCapacity :: real where "DefaultRateLimitCapacity = 10"
definition DefaultRateLimitRefillPerS :: real where "DefaultRateLimitRefillPerS = 1 / 6"
definition auditCoalesceWindow :: duration where "auditCoalesceWindow = Minute"
definition auditPathMaxLen :: int where "auditPathMaxLen = 256"
definition AuditFieldMaxLen :: int where "AuditFieldMaxLen = 256"

record bucket =
  tokens :: real
  lastUpdate :: go_time
  lastAuditAt :: go_time

record limited = cached +
  buckets :: "(string \<times> bucket) list"
  capacity :: real
  refillPerSecond :: real

section \<open>Operations\<close>

text \<open>The effective limits \<^verbatim>\<open>NewRateLimiter\<close> computes from its configuration.\<close>

definition limiter_capacity :: "int \<Rightarrow> real" where
  "limiter_capacity c = (if real_of_int c \<le> 0 then DefaultRateLimitCapacity else real_of_int c)"

definition limiter_refill :: "real \<Rightarrow> real" where
  "limiter_refill f = (if f \<le> 0 then DefaultRateLimitRefillPerS else f)"

definition NewRateLimiter :: "int \<Rightarrow> real \<Rightarrow> ('z limited_scheme, unit) state" where
  "NewRateLimiter cfgCapacity cfgRefill = State (\<lambda>s. ((), s\<lparr>buckets := [], capacity := limiter_capacity cfgCapacity,
     refillPerSecond := limiter_refill cfgRefill\<rparr>))"

definition Seconds :: "duration \<Rightarrow> real" where
  "Seconds d = real_of_int d / 1000000000"

text \<open>The refill of an existing bucket: capped at the capacity, floored at zero.\<close>

definition refilled :: "real \<Rightarrow> real \<Rightarrow> go_time \<Rightarrow> bucket \<Rightarrow> real" where
  "refilled cap rate now b =
    (let elapsed = Seconds (time_Sub now (lastUpdate b));
         t1 = tokens b + elapsed * rate;
         t2 = (if t1 > cap then cap else t1)
     in if t2 < 0 then 0 else t2)"

text \<open>One check of a bucket: the new bucket, whether the request may proceed, whether to audit.\<close>

definition check_bucket :: "real \<Rightarrow> real \<Rightarrow> go_time \<Rightarrow> bucket option \<Rightarrow> bucket \<times> bool \<times> bool" where
  "check_bucket cap rate now ob = (case ob of
       None \<Rightarrow> (\<lparr>tokens = cap - 1, lastUpdate = now, lastAuditAt = zero_time\<rparr>, True, False)
     | Some b \<Rightarrow>
         let b1 = b\<lparr>tokens := refilled cap rate now b, lastUpdate := now\<rparr> in
         if tokens b1 < 1 then
           (if auditCoalesceWindow \<le> time_Sub now (lastAuditAt b1) then (b1\<lparr>lastAuditAt := now\<rparr>, False, True)
            else (b1, False, False))
         else (b1\<lparr>tokens := tokens b1 - 1\<rparr>, True, False))"

definition set_buckets :: "(string \<times> bucket) list \<Rightarrow> ('z limited_scheme, unit) state" where
  "set_buckets bs = State (\<lambda>s. ((), s\<lparr>buckets := bs\<rparr>))"

definition check :: "string \<Rightarrow> ('z limited_scheme, bool \<times> bool) state" where
  "check ip = do {
     now \<leftarrow> time_Now;
     s \<leftarrow> State_Monad.get;
     let (b, allowed, shouldAudit) = check_bucket (capacity s) (refillPerSecond s) now (map_of (buckets s) ip);
     _ \<leftarrow> set_buckets (AList.update ip b (buckets s));
     State_Monad.return (allowed, shouldAudit) }"

definition is_full :: "real \<Rightarrow> real \<Rightarrow> go_time \<Rightarrow> bucket \<Rightarrow> bool" where
  "is_full cap rate now b \<longleftrightarrow> cap \<le> tokens b + Seconds (time_Sub now (lastUpdate b)) * rate"

definition reap :: "('z limited_scheme, unit) state" where
  "reap = do {
     now \<leftarrow> time_Now;
     s \<leftarrow> State_Monad.get;
     set_buckets (filter (\<lambda>(ip, b). \<not> is_full (capacity s) (refillPerSecond s) now b) (buckets s)) }"

text \<open>\<^verbatim>\<open>reapLoop\<close>, for the number of ticks before its context is done.\<close>

fun reapLoop :: "nat \<Rightarrow> ('z limited_scheme, unit) state" where
  "reapLoop 0 = State_Monad.return ()"
| "reapLoop (Suc n) = do { _ \<leftarrow> reap; reapLoop n }"

text \<open>\<^verbatim>\<open>truncate\<close>, on ASCII text, where a rune is a byte; the marker is the UTF-8 ellipsis.\<close>

definition truncate :: "string \<Rightarrow> int \<Rightarrow> string" where
  "truncate str maxLen = (if maxLen \<le> 0 then str else if int (length str) \<le> maxLen then str
     else take (nat maxLen) str @ [CHR 0xE2, CHR 0x80, CHR 0xA6])"

definition TruncateAuditField :: "string \<Rightarrow> string" where
  "TruncateAuditField str = truncate str AuditFieldMaxLen"

section \<open>Facts\<close>

lemma run_set_buckets [run_simps]: "run_state (set_buckets bs) s = ((), s\<lparr>buckets := bs\<rparr>)"
  by (simp add: set_buckets_def)

lemma run_check:
  "run_state (check ip) s =
    (case check_bucket (capacity s) (refillPerSecond s) (clock s (clock_reads s)) (map_of (buckets s) ip) of
       (b, allowed, audit) \<Rightarrow> ((allowed, audit),
         s\<lparr>clock_reads := Suc (clock_reads s), buckets := AList.update ip b (buckets s)\<rparr>))"
  by (simp add: check_def run_simps Let_def split: prod.splits)

lemma Truncate_length: "length (TruncateAuditField str) \<le> 259"
  by (simp add: TruncateAuditField_def truncate_def AuditFieldMaxLen_def)

lemma time_Sub_mono: "u \<le> t \<Longrightarrow> t \<le> t' \<Longrightarrow> 0 \<le> time_Sub t u \<and> time_Sub t' u \<le> time_Sub t u + (t' - t)"
  by (auto simp: time_Sub_def minDuration_def maxDuration_def)

lemma refilled_bounds: "0 \<le> cap \<Longrightarrow> 0 \<le> refilled cap rate now b \<and> refilled cap rate now b \<le> cap"
  by (simp add: refilled_def Let_def)

lemma refilled_at_update:
  "0 \<le> tokens b \<Longrightarrow> tokens b \<le> cap \<Longrightarrow> refilled cap rate (lastUpdate b) b = tokens b"
  by (simp add: refilled_def Let_def time_Sub_def minDuration_def maxDuration_def Seconds_def)

definition bucket_ok :: "real \<Rightarrow> bucket \<Rightarrow> bool" where
  "bucket_ok cap b \<longleftrightarrow> 0 \<le> tokens b \<and> tokens b \<le> cap"

lemma check_bucket_ok:
  assumes "1 \<le> cap" "check_bucket cap rate now ob = (b, allowed, audit)"
  shows "bucket_ok cap b \<and> lastUpdate b = now"
proof -
  have r: "0 \<le> refilled cap rate now c" "refilled cap rate now c \<le> cap" for c
    using refilled_bounds[of cap rate now c] assms(1) by auto
  then have "refilled cap rate now c - 1 \<le> cap" for c
    using order_trans[of "refilled cap rate now c - 1" "refilled cap rate now c" cap] by simp
  with r assms show ?thesis
    by (auto simp: check_bucket_def bucket_ok_def Let_def split: option.splits if_splits)
qed

text \<open>What an address can still spend at time \<open>t\<close>.\<close>

definition spendable :: "real \<Rightarrow> real \<Rightarrow> go_time \<Rightarrow> bucket option \<Rightarrow> real" where
  "spendable cap rate t ob = (case ob of None \<Rightarrow> cap | Some b \<Rightarrow> refilled cap rate t b)"

lemma check_spends:
  assumes "1 \<le> cap" "check_bucket cap rate t ob = (b, allowed, audit)"
  shows "spendable cap rate t (Some b) + of_bool allowed = spendable cap rate t ob"
proof -
  have b: "bucket_ok cap b" "lastUpdate b = t" using check_bucket_ok[OF assms] by auto
  then have "spendable cap rate t (Some b) = tokens b"
    using refilled_at_update[of b cap rate] by (simp add: spendable_def bucket_ok_def)
  moreover have "tokens b + of_bool allowed = spendable cap rate t ob"
    using assms(2) by (auto simp: check_bucket_def spendable_def Let_def split: option.splits if_splits)
  ultimately show ?thesis by simp
qed

lemma spendable_advance:
  assumes "0 \<le> rate" "t \<le> t'" "\<And>b. ob = Some b \<Longrightarrow> bucket_ok cap b \<and> lastUpdate b \<le> t"
  shows "spendable cap rate t' ob \<le> spendable cap rate t ob + rate * Seconds (t' - t)"
proof (cases ob)
  case None
  with assms show ?thesis by (simp add: spendable_def Seconds_def)
next
  case (Some b)
  with assms(3) have b: "0 \<le> tokens b" "tokens b \<le> cap" "lastUpdate b \<le> t" by (auto simp: bucket_ok_def)
  have "0 \<le> time_Sub t (lastUpdate b)" "time_Sub t' (lastUpdate b) \<le> time_Sub t (lastUpdate b) + (t' - t)"
    using time_Sub_mono[OF b(3) assms(2)] by auto
  then have s: "0 \<le> Seconds (time_Sub t (lastUpdate b))"
    "Seconds (time_Sub t' (lastUpdate b)) \<le> Seconds (time_Sub t (lastUpdate b)) + Seconds (t' - t)"
    by (simp_all add: Seconds_def field_simps)
  have e: "0 \<le> rate * Seconds (t' - t)" using assms(1,2) by (simp add: Seconds_def)
  have "Seconds (time_Sub t' (lastUpdate b)) * rate \<le> Seconds (time_Sub t (lastUpdate b)) * rate + rate * Seconds (t' - t)"
    using mult_right_mono[OF s(2) assms(1)] by (simp add: algebra_simps)
  moreover have "0 \<le> Seconds (time_Sub t (lastUpdate b)) * rate" using s(1) assms(1) by simp
  ultimately show ?thesis using b e Some by (auto simp: spendable_def refilled_def Let_def)
qed

section \<open>Runs of checks\<close>

text \<open>The checks of a sequence of requests, in the order the mutex serialises them.\<close>

fun check_all :: "string list \<Rightarrow> ('z limited_scheme, bool list) state" where
  "check_all [] = State_Monad.return []"
| "check_all (ip # ips) = do {
     (allowed, _) \<leftarrow> check ip;
     rest \<leftarrow> check_all ips;
     State_Monad.return (allowed # rest) }"

text \<open>How many of the requests of one address were allowed.\<close>

definition allowed_for :: "string \<Rightarrow> string list \<Rightarrow> bool list \<Rightarrow> nat" where
  "allowed_for ip ips oks = length (filter (\<lambda>(i, ok). i = ip \<and> ok) (zip ips oks))"

definition limiter_ok :: "'z limited_scheme \<Rightarrow> bool" where
  "limiter_ok s \<longleftrightarrow> 1 \<le> capacity s \<and> 0 \<le> refillPerSecond s \<and>
     (\<forall>ip b. map_of (buckets s) ip = Some b \<longrightarrow> bucket_ok (capacity s) b \<and> lastUpdate b \<le> clock s (clock_reads s))"

lemma check_ok:
  assumes "limiter_ok s" "run_state (check ip) s = (r, s')" "clock s (clock_reads s) \<le> clock s (Suc (clock_reads s))"
  shows "limiter_ok s' \<and> capacity s' = capacity s \<and> refillPerSecond s' = refillPerSecond s \<and> clock s' = clock s \<and>
    clock_reads s' = Suc (clock_reads s)"
proof -
  obtain b allowed audit where c: "check_bucket (capacity s) (refillPerSecond s) (clock s (clock_reads s))
      (map_of (buckets s) ip) = (b, allowed, audit)" by (metis prod_cases3)
  with assms(2) have s': "s' = s\<lparr>clock_reads := Suc (clock_reads s), buckets := AList.update ip b (buckets s)\<rparr>"
    by (simp add: run_check)
  have "bucket_ok (capacity s) b" "lastUpdate b = clock s (clock_reads s)"
    using check_bucket_ok[OF _ c] assms(1) by (auto simp: limiter_ok_def)
  with assms(1,3) show ?thesis
    by (auto simp: s' limiter_ok_def cache_map_simps intro: order_trans split: if_splits)
qed

lemma check_spends_state:
  assumes "limiter_ok s" "run_state (check i) s = ((ok, a), s')"
  shows "spendable (capacity s) (refillPerSecond s) (clock s (clock_reads s)) (map_of (buckets s') ip) + of_bool (i = ip \<and> ok)
    = spendable (capacity s) (refillPerSecond s) (clock s (clock_reads s)) (map_of (buckets s) ip)"
proof -
  obtain b allowed audit where c: "check_bucket (capacity s) (refillPerSecond s) (clock s (clock_reads s))
      (map_of (buckets s) i) = (b, allowed, audit)" by (metis prod_cases3)
  with assms(2) have "ok = allowed" "map_of (buckets s') ip = (if ip = i then Some b else map_of (buckets s) ip)"
    by (auto simp: run_check cache_map_simps)
  with check_spends[OF _ c] assms(1) show ?thesis by (auto simp: limiter_ok_def)
qed

lemma check_all_bound:
  assumes "limiter_ok s" "mono (clock s)" "run_state (check_all ips) s = (oks, s')"
  shows "real (allowed_for ip ips oks) \<le>
    spendable (capacity s) (refillPerSecond s) (clock s (clock_reads s)) (map_of (buckets s) ip) +
    refillPerSecond s * Seconds (clock s (clock_reads s + length ips) - clock s (clock_reads s))"
  using assms
proof (induction ips arbitrary: s oks)
  case Nil
  then have "0 \<le> spendable (capacity s) (refillPerSecond s) (clock s (clock_reads s)) (map_of (buckets s) ip)"
    by (auto simp: spendable_def limiter_ok_def refilled_bounds split: option.split)
  with Nil show ?case by (simp add: allowed_for_def Seconds_def)
next
  case (Cons i ips)
  obtain ok a s1 where c: "run_state (check i) s = ((ok, a), s1)" by (metis surj_pair)
  obtain rest where rest: "run_state (check_all ips) s1 = (rest, s')" and oks: "oks = ok # rest"
    using Cons.prems(3) c by (auto split: prod.splits)
  let ?t = "clock s (clock_reads s)" and ?t1 = "clock s (Suc (clock_reads s))"
  have mono: "?t \<le> ?t1" using Cons.prems(2) by (simp add: monoD)
  have s1: "limiter_ok s1" "capacity s1 = capacity s" "refillPerSecond s1 = refillPerSecond s" "clock s1 = clock s"
    "clock_reads s1 = Suc (clock_reads s)"
    using check_ok[OF Cons.prems(1) c mono] by auto
  let ?sp = "\<lambda>t ob. spendable (capacity s) (refillPerSecond s) t ob"
  have "real (allowed_for ip ips rest) \<le> ?sp ?t1 (map_of (buckets s1) ip) +
      refillPerSecond s * Seconds (clock s (Suc (clock_reads s) + length ips) - ?t1)"
    using Cons.IH[OF s1(1) _ rest] Cons.prems(2) s1 by simp
  also have "?sp ?t1 (map_of (buckets s1) ip) \<le> ?sp ?t (map_of (buckets s1) ip) + refillPerSecond s * Seconds (?t1 - ?t)"
  proof (rule spendable_advance[OF _ mono])
    show "0 \<le> refillPerSecond s" using Cons.prems(1) by (simp add: limiter_ok_def)
    show "bucket_ok (capacity s) b \<and> lastUpdate b \<le> ?t" if "map_of (buckets s1) ip = Some b" for b
      using that c Cons.prems(1) check_bucket_ok[of "capacity s" "refillPerSecond s" ?t "map_of (buckets s) i"]
      by (auto simp: run_check limiter_ok_def cache_map_simps split: prod.splits if_splits)
  qed
  finally have "real (allowed_for ip ips rest) + of_bool (i = ip \<and> ok) \<le> ?sp ?t (map_of (buckets s) ip) +
      (refillPerSecond s * Seconds (?t1 - ?t) + refillPerSecond s * Seconds (clock s (Suc (clock_reads s) + length ips) - ?t1))"
    using check_spends_state[OF Cons.prems(1) c, of ip] by simp
  also have "refillPerSecond s * Seconds (?t1 - ?t) + refillPerSecond s * Seconds (clock s (Suc (clock_reads s) + length ips) - ?t1)
      = refillPerSecond s * Seconds (clock s (clock_reads s + length (i # ips)) - ?t)"
    by (simp add: Seconds_def field_simps)
  finally show ?case by (cases "i = ip \<and> ok") (auto simp: oks allowed_for_def)
qed

section \<open>Reaping\<close>

text \<open>A bucket that was full when it was reaped is full at any later check.\<close>

lemma full_later:
  assumes "0 \<le> rate" "lastUpdate b \<le> t" "t \<le> t'" "is_full cap rate t b" "0 \<le> cap"
  shows "refilled cap rate t' b = cap"
proof -
  have "time_Sub t (lastUpdate b) \<le> time_Sub t' (lastUpdate b)"
    using assms(2,3) by (auto simp: time_Sub_def)
  then have "Seconds (time_Sub t (lastUpdate b)) * rate \<le> Seconds (time_Sub t' (lastUpdate b)) * rate"
    using assms(1) by (intro mult_right_mono) (simp_all add: Seconds_def divide_right_mono)
  with assms(4,5) show ?thesis by (auto simp: is_full_def refilled_def Let_def)
qed

lemma check_bucket_reaped:
  assumes "refilled cap rate t b = cap" "1 \<le> cap"
  shows "fst (snd (check_bucket cap rate t (Some b))) = fst (snd (check_bucket cap rate t None))"
    and "tokens (fst (check_bucket cap rate t (Some b))) = tokens (fst (check_bucket cap rate t None))"
  using assms by (auto simp: check_bucket_def Let_def)

lemma map_of_filter_notin: "ip \<notin> fst ` set xs \<Longrightarrow> map_of (filter P xs) ip = None"
  by (induction xs) auto

lemma map_of_filter_distinct:
  "distinct (map fst xs) \<Longrightarrow> map_of (filter P xs) ip = (case map_of xs ip of None \<Rightarrow> None | Some v \<Rightarrow> if P (ip, v) then Some v else None)"
  by (induction xs) (auto simp: map_of_filter_notin split: option.splits)

lemma run_reap:
  "run_state reap s = ((), s\<lparr>clock_reads := Suc (clock_reads s),
     buckets := filter (\<lambda>(ip, b). \<not> is_full (capacity s) (refillPerSecond s) (clock s (clock_reads s)) b) (buckets s)\<rparr>)"
  by (simp add: reap_def run_simps)

section \<open>Properties\<close>

definition sample_limited :: limited where
  "sample_limited = cached.extend sample_cached (limited.fields [] 10 (1 / 6))"

lemma sample_limited_sel [simp]:
  "buckets sample_limited = []" "capacity sample_limited = 10" "refillPerSecond sample_limited = 1 / 6"
  "clock sample_limited n = (1700000000 + int n) * Second" "clock_reads sample_limited = 0"
  by (simp_all add: sample_limited_def cached.defs limited.defs sample_cached_def metered.defs sample_def)

lemma sample_limited_ok: "limiter_ok sample_limited" "mono (clock sample_limited)"
  by (simp_all add: limiter_ok_def mono_def Second_def)



text \<open>
  A bucket holds between zero and the capacity, whatever the clock does: a step back in time
  cannot drive it below zero, a long idle time cannot overfill it.
\<close>

lemma bucket_bounds:
  assumes "1 \<le> capacity s" "run_state (check ip) s = (r, s')" "map_of (buckets s') ip = Some b"
  shows "0 \<le> tokens b \<and> tokens b \<le> capacity s' \<and> lastUpdate b = clock s (clock_reads s)"
proof -
  obtain c allowed audit where c: "check_bucket (capacity s) (refillPerSecond s) (clock s (clock_reads s))
      (map_of (buckets s) ip) = (c, allowed, audit)" by (metis prod_cases3)
  with assms(2,3) have "b = c" "capacity s' = capacity s" by (auto simp: run_check cache_map_simps)
  with check_bucket_ok[OF assms(1) c] show ?thesis by (simp add: bucket_ok_def)
qed

lemma bucket_bounds_witness:
  "\<exists>r s' b. run_state (check ''192.0.2.7'') sample_limited = (r, s') \<and> map_of (buckets s') ''192.0.2.7'' = Some b \<and>
     0 \<le> tokens b \<and> tokens b \<le> capacity s'"
proof -
  obtain r s' where run: "run_state (check ''192.0.2.7'') sample_limited = (r, s')" by fastforce
  then obtain b where b: "map_of (buckets s') ''192.0.2.7'' = Some b"
    by (auto simp: run_check check_bucket_def cache_map_simps)
  have "0 \<le> tokens b \<and> tokens b \<le> capacity s' \<and> lastUpdate b = clock sample_limited (clock_reads sample_limited)"
    by (rule bucket_bounds[OF _ run b]) simp
  with run b show ?thesis by blast
qed

text \<open>
  reaping is invisible to decisions. If the reaper runs before a check and the clock does not
  go backwards, the check allows or denies the request exactly as it would have without the reaper,
  and leaves the address the same number of tokens.
\<close>

lemma reap_invisible:
  assumes "1 \<le> capacity s" "0 \<le> refillPerSecond s" "distinct (map fst (buckets s))"
    and "\<And>b. map_of (buckets s) ip = Some b \<Longrightarrow> 0 \<le> tokens b \<and> lastUpdate b \<le> clock s (clock_reads s)"
    and "clock s (clock_reads s) \<le> t" "snd (run_state reap s) = s'"
  shows "fst (snd (check_bucket (capacity s) (refillPerSecond s) t (map_of (buckets s') ip))) =
      fst (snd (check_bucket (capacity s) (refillPerSecond s) t (map_of (buckets s) ip))) \<and>
    tokens (fst (check_bucket (capacity s) (refillPerSecond s) t (map_of (buckets s') ip))) =
      tokens (fst (check_bucket (capacity s) (refillPerSecond s) t (map_of (buckets s) ip)))"
proof (cases "map_of (buckets s) ip")
  case None
  with assms(3,6) show ?thesis by (auto simp: run_reap map_of_filter_distinct)
next
  case (Some b)
  show ?thesis
  proof (cases "is_full (capacity s) (refillPerSecond s) (clock s (clock_reads s)) b")
    case True
    then have "map_of (buckets s') ip = None" using assms(3,6) Some by (auto simp: run_reap map_of_filter_distinct)
    moreover have "refilled (capacity s) (refillPerSecond s) t b = capacity s"
      using assms(1,2,4,5) Some True by (intro full_later) auto
    ultimately show ?thesis using Some check_bucket_reaped assms(1) by auto
  next
    case False
    then have "map_of (buckets s') ip = Some b" using assms(3,6) Some by (auto simp: run_reap map_of_filter_distinct)
    with Some show ?thesis by simp
  qed
qed

lemma reap_invisible_witness:
  "fst (snd (check_bucket 10 (1 / 6) (1700000100 * Second) (map_of (buckets (snd (run_state reap sample_limited))) ''x''))) =
   fst (snd (check_bucket 10 (1 / 6) (1700000100 * Second) (map_of (buckets sample_limited) ''x'')))"
  using reap_invisible[of sample_limited "''x''" "1700000100 * Second"] by (simp add: Second_def)

end
