(* ===== verification/Components_Handler.thy ===== *)
theory Components_Handler
  imports Pagination Guard Rate_Limit
begin

text \<open>
  \<^verbatim>\<open>internal/handler/components.go\<close>: the component endpoints, over the cached component store as
  \<^verbatim>\<open>main.go\<close> wires them. The file system is the list of directories \<^verbatim>\<open>os.MkdirAll\<close> was
  asked for and the paths on which it fails. \<^verbatim>\<open>filepath.Clean\<close>, \<^verbatim>\<open>filepath.Join\<close> and
  \<^verbatim>\<open>filepath.IsLocal\<close> are modelled for slash-separated paths. That every directory made lies under the data
  root, and that a create leaves row and tree or neither, is shown in \<open>Rpm_Tree\<close>.
\<close>

section \<open>Paths\<close>

text \<open>The effect of one path element on the cleaned elements before it.\<close>

definition clean_step :: "bool \<Rightarrow> string list \<Rightarrow> string \<Rightarrow> string list" where
  "clean_step rooted acc seg =
    (if seg = [] \<or> seg = ''.'' then acc
     else if seg = ''..'' then
       (if acc \<noteq> [] \<and> last acc \<noteq> ''..'' then butlast acc else if rooted then acc else acc @ [''..''])
     else acc @ [seg])"

definition is_rooted :: "string \<Rightarrow> bool" where
  "is_rooted p \<longleftrightarrow> p \<noteq> [] \<and> hd p = CHR ''/''"

definition clean_segs :: "string \<Rightarrow> string list" where
  "clean_segs p = foldl (clean_step (is_rooted p)) [] (strings_Split p CHR ''/'')"

definition filepath_Clean :: "string \<Rightarrow> string" where
  "filepath_Clean p = (let body = join_with ''/'' (clean_segs p) in
     if is_rooted p then CHR ''/'' # body else if body = [] then ''.'' else body)"

text \<open>\<^verbatim>\<open>filepath.Join\<close>: empty elements are ignored, the result is cleaned.\<close>

definition filepath_Join :: "string list \<Rightarrow> string" where
  "filepath_Join elems = (let es = filter (\<lambda>e. e \<noteq> []) elems in
     if es = [] then [] else filepath_Clean (join_with ''/'' es))"

definition filepath_IsLocal :: "string \<Rightarrow> bool" where
  "filepath_IsLocal p = (if is_rooted p \<or> p = [] then False
     else
       let hasDots = list_ex (\<lambda>seg. seg = ''.'' \<or> seg = ''..'') (strings_Split p CHR ''/'');
           q = (if hasDots then filepath_Clean p else p)
       in \<not> (q = ''..'' \<or> strings_HasPrefix q ''../''))"

section \<open>Validation\<close>

definition alnum :: "char \<Rightarrow> bool" where
  "alnum c \<longleftrightarrow> (CHR ''A'' \<le> c \<and> c \<le> CHR ''Z'') \<or> (CHR ''a'' \<le> c \<and> c \<le> CHR ''z'') \<or> (CHR ''0'' \<le> c \<and> c \<le> CHR ''9'')"

text \<open>\<^verbatim>\<open>^[A-Za-z0-9][A-Za-z0-9._-]{0,63}$\<close>.\<close>

definition pathSegmentRe :: "string \<Rightarrow> bool" where
  "pathSegmentRe v \<longleftrightarrow> v \<noteq> [] \<and> alnum (hd v) \<and> length v \<le> 64 \<and>
     list_all (\<lambda>c. alnum c \<or> c = CHR ''.'' \<or> c = CHR ''_'' \<or> c = CHR ''-'') (tl v)"

section \<open>State and requests\<close>

record fs = limited +
  made_dirs :: "string list"
  mkdir_err :: "string \<Rightarrow> string option"

record createComponentRequest =
  ccr_Name :: string
  ccr_Visibility :: string
  ccr_RPMSeries :: "string list option"
  ccr_RPMOSFamilies :: "string list option"
  ccr_RPMArchitectures :: "string list option"

text \<open>What the constructor keeps of its arguments: the data root, with a default.\<close>

definition NewComponentsHandler :: "string \<Rightarrow> string" where
  "NewComponentsHandler rpmDataRoot = (if rpmDataRoot = [] then ''/data/rpm'' else rpmDataRoot)"

definition MkdirAll :: "string \<Rightarrow> ('z fs_scheme, goerr + unit) state" where
  "MkdirAll dir = State (\<lambda>s. (case mkdir_err s dir of Some e \<Rightarrow> Inl (Errorf e) | None \<Rightarrow> Inr (),
     s\<lparr>made_dirs := made_dirs s @ [dir]\<rparr>))"

section \<open>The directory tree\<close>

text \<open>The elements of a Go slice, nil included.\<close>

definition elems :: "string list option \<Rightarrow> string list" where
  "elems v = (case v of None \<Rightarrow> [] | Some xs \<Rightarrow> xs)"

text \<open>The triple loop of \<^verbatim>\<open>initRPMTree\<close>, in its order, stopping at the first error.\<close>

definition rpm_combinations :: "Component \<Rightarrow> (string \<times> string \<times> string) list" where
  "rpm_combinations c = concat (map (\<lambda>series. concat (map (\<lambda>family. map (\<lambda>arch. (series, family, arch))
     (elems (Comp_RPMArchitectures c))) (elems (Comp_RPMOSFamilies c)))) (elems (Comp_RPMSeries c)))"

definition rpm_rel :: "string \<Rightarrow> string \<times> string \<times> string \<Rightarrow> string" where
  "rpm_rel name = (\<lambda>(series, family, arch). filepath_Join [''rpm'', name, series, family @ ''-'' @ arch])"

fun mkdir_tree :: "string \<Rightarrow> string \<Rightarrow> (string \<times> string \<times> string) list \<Rightarrow> ('z fs_scheme, goerr + unit) state" where
  "mkdir_tree dataRoot name [] = State_Monad.return (Inr ())"
| "mkdir_tree dataRoot name (t # ts) =
    (if \<not> filepath_IsLocal (rpm_rel name t)
       then State_Monad.return (Inl (Errorf ''refusing to create RPM tree outside data root''))
     else do {
       m \<leftarrow> MkdirAll (filepath_Join [dataRoot, rpm_rel name t]);
       case m of
         Inl e \<Rightarrow> State_Monad.return (Inl (Wrapf ''mkdir'' e))
       | Inr _ \<Rightarrow> mkdir_tree dataRoot name ts })"

definition initRPMTree :: "string \<Rightarrow> Component \<Rightarrow> ('z fs_scheme, goerr + unit) state" where
  "initRPMTree dataRoot c = mkdir_tree dataRoot (Comp_Name c) (rpm_combinations c)"

definition rpmTargets :: "Component \<Rightarrow> string list" where
  "rpmTargets c = map (\<lambda>(series, family, arch). series @ ''/'' @ family @ ''-'' @ arch) (rpm_combinations c)"

definition removedRPMTargets :: "string list \<Rightarrow> Component \<Rightarrow> string list" where
  "removedRPMTargets before after = filter (\<lambda>t. t \<notin> set (rpmTargets after)) before"

section \<open>Handlers\<close>

definition lists_valid :: "string list option list \<Rightarrow> bool" where
  "lists_valid fl \<longleftrightarrow> list_all (\<lambda>f. list_all pathSegmentRe (elems f)) fl"

definition Components_Create :: "string \<Rightarrow> createComponentRequest option \<Rightarrow> 'z fs_scheme handler" where
  "Components_Create dataRoot body r = (case body of
       None \<Rightarrow> State_Monad.return (writeError 400 ''INVALID_REQUEST'')
     | Some req \<Rightarrow>
         let name = strings_TrimSpace (ccr_Name req) in
         if name = [] then State_Monad.return (writeError 400 ''INVALID_REQUEST'')
         else if \<not> pathSegmentRe name then State_Monad.return (writeError 400 ''INVALID_REQUEST'')
         else if \<not> lists_valid [ccr_RPMSeries req, ccr_RPMOSFamilies req, ccr_RPMArchitectures req]
           then State_Monad.return (writeError 400 ''INVALID_REQUEST'')
         else if ccr_Visibility req \<noteq> [] \<and> ccr_Visibility req \<noteq> ''public'' \<and> ccr_Visibility req \<noteq> ''private''
           then State_Monad.return (writeError 400 ''INVALID_VISIBILITY'')
         else do {
           c \<leftarrow> CreateComponent \<lparr>Comp_Name = name, Comp_Visibility = ccr_Visibility req,
                  Comp_RPMSeries = nonNil (ccr_RPMSeries req), Comp_RPMOSFamilies = nonNil (ccr_RPMOSFamilies req),
                  Comp_RPMArchitectures = nonNil (ccr_RPMArchitectures req), Comp_CreatedAt = zero_time\<rparr>;
           case c of
             Inl e \<Rightarrow> State_Monad.return (if errors_Is e ErrComponentExists then writeError 409 ''COMPONENT_EXISTS''
                     else writeError 500 ''COMPONENT_CREATE_FAILED'')
           | Inr created \<Rightarrow> do {
               t \<leftarrow> initRPMTree dataRoot created;
               case t of
                 Inl e \<Rightarrow> do {
                   _ \<leftarrow> Cached_DeleteComponent (Comp_Name created);
                   State_Monad.return (writeError 500 ''RPM_INIT_FAILED'') }
               | Inr _ \<Rightarrow> State_Monad.return (writeJSON 201 (JComponent created)) } })"

definition Components_List :: "'z fs_scheme handler" where
  "Components_List r = (case parsePagination r of
       Inl w \<Rightarrow> State_Monad.return w
     | Inr (offset, limit) \<Rightarrow> do {
         l \<leftarrow> ListComponents offset (limit + 1);
         State_Monad.return (case l of
           Inl e \<Rightarrow> writeError 500 ''COMPONENT_LIST_FAILED''
         | Inr comps \<Rightarrow> writePaginationLinks r (has_more limit comps) offset limit
             (writeJSON 200 (JComponents (page_of limit comps)))) })"

definition Components_GetOne :: "'z fs_scheme handler" where
  "Components_GetOne r = do {
     g \<leftarrow> Cached_GetComponent (URLParam r ''name'');
     State_Monad.return (case g of
       Inl e \<Rightarrow> if errors_Is e ErrComponentNotFound then writeError 404 ''COMPONENT_NOT_FOUND''
               else writeError 500 ''COMPONENT_GET_FAILED''
     | Inr c \<Rightarrow> writeJSON 200 (JComponent c)) }"

definition Components_Delete :: "'z fs_scheme handler" where
  "Components_Delete r = do {
     let name = URLParam r ''name'';
     g \<leftarrow> Cached_GetComponent name;
     case g of
       Inl e \<Rightarrow> State_Monad.return (if errors_Is e ErrComponentNotFound then writeError 404 ''COMPONENT_NOT_FOUND''
               else writeError 500 ''COMPONENT_DELETE_FAILED'')
     | Inr c \<Rightarrow> do {
         k \<leftarrow> CountActiveComponentKeys name;
         case k of
           Inl e \<Rightarrow> State_Monad.return (writeError 500 ''COMPONENT_DELETE_FAILED'')
         | Inr activeKeys \<Rightarrow>
             if query_Get r ''confirm'' \<noteq> name
               then State_Monad.return (writeJSON 409 (JComponentPreview activeKeys (Comp_RPMSeries c)))
             else do {
               d \<leftarrow> Cached_DeleteComponentWithRevoke name;
               State_Monad.return (case d of
                 Inl e \<Rightarrow> writeError 500 ''COMPONENT_DELETE_FAILED''
               | Inr revoked \<Rightarrow> writeJSON 200 (JKeysRevoked revoked)) } } }"

text \<open>A patch's list fields; an absent field is skipped.\<close>

definition patch_lists_valid :: "ComponentPatch \<Rightarrow> bool" where
  "patch_lists_valid p \<longleftrightarrow> list_all (\<lambda>f. case f of None \<Rightarrow> True | Some v \<Rightarrow> list_all pathSegmentRe (elems v))
     [Patch_RPMSeries p, Patch_RPMOSFamilies p, Patch_RPMArchitectures p]"

definition Components_Update :: "string \<Rightarrow> ComponentPatch option \<Rightarrow> 'z fs_scheme handler" where
  "Components_Update dataRoot body r = (case body of
       None \<Rightarrow> State_Monad.return (writeError 400 ''INVALID_REQUEST'')
     | Some patch \<Rightarrow>
         let name = URLParam r ''name'' in
         if IsEmpty patch then State_Monad.return (writeError 400 ''INVALID_REQUEST'')
         else if (case Patch_Visibility patch of None \<Rightarrow> False | Some v \<Rightarrow> v \<noteq> ''public'' \<and> v \<noteq> ''private'')
           then State_Monad.return (writeError 400 ''INVALID_VISIBILITY'')
         else if \<not> patch_lists_valid patch then State_Monad.return (writeError 400 ''INVALID_REQUEST'')
         else do {
           g \<leftarrow> Cached_GetComponent name;
           case g of
             Inl e \<Rightarrow> State_Monad.return (if errors_Is e ErrComponentNotFound then writeError 404 ''COMPONENT_NOT_FOUND''
                     else writeError 500 ''COMPONENT_UPDATE_FAILED'')
           | Inr cur \<Rightarrow> do {
               let nxt = apply_patch patch cur;
               let before = rpmTargets cur;
               t \<leftarrow> initRPMTree dataRoot nxt;
               case t of
                 Inl e \<Rightarrow> State_Monad.return (writeError 500 ''RPM_INIT_FAILED'')
               | Inr _ \<Rightarrow> do {
                   u \<leftarrow> Cached_UpdateComponent name patch;
                   State_Monad.return (case u of
                     Inl e \<Rightarrow> if errors_Is e ErrComponentNotFound then writeError 404 ''COMPONENT_NOT_FOUND''
                             else writeError 500 ''COMPONENT_UPDATE_FAILED''
                   | Inr updated \<Rightarrow> writeJSON 200 (JComponentUpdate updated (removedRPMTargets before updated))) } } })"

end
