(* ===== verification/Rpm_Tree.thy ===== *)
theory Rpm_Tree
  imports Components_Handler
begin

text \<open>
  The RPM directory trees of \<^verbatim>\<open>components.go\<close> stay under the data root, whatever names and lists a component
  has: facts on \<^verbatim>\<open>filepath.Clean\<close>, \<^verbatim>\<open>Join\<close> and \<^verbatim>\<open>IsLocal\<close> first, then the loops and the two handlers
  that run them. The proof does not use the validation of the request body, only the \<^verbatim>\<open>IsLocal\<close> check.
\<close>

section \<open>Clean paths\<close>

definition render :: "bool \<Rightarrow> string list \<Rightarrow> string" where
  "render rooted segs = (let body = join_with ''/'' segs in if rooted then CHR ''/'' # body else if body = [] then ''.'' else body)"

lemma Clean_render: "filepath_Clean p = render (is_rooted p) (clean_segs p)"
  by (simp add: filepath_Clean_def render_def Let_def)

text \<open>The lists \<open>clean_step\<close> builds: parent references only in front and only on a relative path,
  then proper names.\<close>

definition proper :: "string \<Rightarrow> bool" where
  "proper seg \<longleftrightarrow> seg \<noteq> [] \<and> seg \<noteq> ''.'' \<and> seg \<noteq> ''..'' \<and> CHR ''/'' \<notin> set seg"

definition cleaned :: "bool \<Rightarrow> string list \<Rightarrow> bool" where
  "cleaned rooted acc \<longleftrightarrow> (\<exists>n xs. acc = replicate n ''..'' @ xs \<and> list_all proper xs \<and> (rooted \<longrightarrow> n = 0))"

lemma cleaned_drop: "cleaned r acc \<Longrightarrow> acc \<noteq> [] \<Longrightarrow> last acc \<noteq> ''..'' \<Longrightarrow> cleaned r (butlast acc)"
proof -
  assume c: "cleaned r acc" "acc \<noteq> []" "last acc \<noteq> ''..''"
  then obtain n xs where a: "acc = replicate n ''..'' @ xs" "list_all proper xs" "r \<longrightarrow> n = 0" by (auto simp: cleaned_def)
  have "xs \<noteq> []" using c a by (auto simp: last_replicate split: if_splits)
  then have "butlast acc = replicate n ''..'' @ butlast xs" using a by (simp add: butlast_append)
  then show ?thesis unfolding cleaned_def using a(2,3) by (metis in_set_butlastD list_all_iff)
qed

lemma cleaned_parent: "cleaned r acc \<Longrightarrow> \<not> r \<Longrightarrow> acc = [] \<or> last acc = ''..'' \<Longrightarrow> cleaned r (acc @ [''..''])"
proof -
  assume c: "cleaned r acc" "\<not> r" "acc = [] \<or> last acc = ''..''"
  then obtain n xs where a: "acc = replicate n ''..'' @ xs" "list_all proper xs" by (auto simp: cleaned_def)
  have "xs = []"
  proof (rule ccontr)
    assume "xs \<noteq> []"
    then have "last acc = last xs" "proper (last xs)" using a by (auto simp: list_all_iff)
    then show False using c(3) a \<open>xs \<noteq> []\<close> by (auto simp: proper_def)
  qed
  then have "acc @ [''..''] = replicate (Suc n) ''..'' @ []" using a by (simp add: replicate_append_same)
  then show ?thesis unfolding cleaned_def using c(2) by (intro exI[of _ "Suc n"] exI[of _ "[]"]) simp
qed

lemma cleaned_name: "cleaned r acc \<Longrightarrow> list_all proper xs \<Longrightarrow> cleaned r (acc @ xs)"
proof -
  assume "cleaned r acc" "list_all proper xs"
  then obtain n ys where "acc @ xs = replicate n ''..'' @ (ys @ xs)" "list_all proper (ys @ xs)" "r \<longrightarrow> n = 0"
    by (auto simp: cleaned_def)
  then show ?thesis unfolding cleaned_def by blast
qed

lemma cleaned_step: "cleaned r acc \<Longrightarrow> CHR ''/'' \<notin> set seg \<Longrightarrow> cleaned r (clean_step r acc seg)"
  using cleaned_drop[of r acc] cleaned_parent[of r acc] cleaned_name[of r acc "[seg]"]
  by (auto simp: clean_step_def proper_def)

lemma cleaned_fold:
  "cleaned r acc \<Longrightarrow> (\<And>seg. seg \<in> set segs \<Longrightarrow> CHR ''/'' \<notin> set seg) \<Longrightarrow> cleaned r (foldl (clean_step r) acc segs)"
  by (induction segs arbitrary: acc) (auto intro: cleaned_step)

lemma fold_proper: "list_all proper xs \<Longrightarrow> foldl (clean_step r) acc xs = acc @ xs"
  by (induction xs arbitrary: acc) (auto simp: clean_step_def proper_def)

lemma fold_parents: "acc = replicate m ''..'' \<Longrightarrow> foldl (clean_step False) acc (replicate n ''..'') = replicate (m + n) ''..''"
proof (induction n arbitrary: acc m)
  case (Suc n)
  have "clean_step False acc ''..'' = replicate (Suc m) ''..''"
    using Suc.prems by (cases m) (auto simp: clean_step_def replicate_append_same)
  then show ?case using Suc.IH[of _ "Suc m"] by simp
qed simp

lemma fold_cleaned: "cleaned r acc \<Longrightarrow> foldl (clean_step r) [] acc = acc"
  by (cases r) (auto simp: cleaned_def fold_proper fold_parents[of "[]" 0, simplified])

section \<open>Splitting at slashes\<close>

lemma Split_not_Nil [simp]: "strings_Split s c \<noteq> []"
  by (cases s) (auto split: list.splits)

lemma Split_no_sep: "seg \<in> set (strings_Split s c) \<Longrightarrow> c \<notin> set seg"
proof (induction s arbitrary: seg)
  case (Cons d ds)
  show ?case
  proof (cases "d = c")
    case False
    obtain x xs where x: "strings_Split ds c = x # xs" by (cases "strings_Split ds c") auto
    then show ?thesis using Cons False by auto
  qed (use Cons in auto)
qed simp

lemma Split_absent: "c \<notin> set s \<Longrightarrow> strings_Split s c = [s]"
  by (induction s) auto

lemma Split_append: "strings_Split (a @ c # b) c = strings_Split a c @ strings_Split b c"
proof (induction a)
  case (Cons d ds)
  obtain x xs where "strings_Split ds c = x # xs" by (cases "strings_Split ds c") auto
  then show ?case using Cons by simp
qed simp

lemma Split_join:
  "segs \<noteq> [] \<Longrightarrow> \<forall>seg \<in> set segs. CHR ''/'' \<notin> set seg \<Longrightarrow> strings_Split (join_with ''/'' segs) CHR ''/'' = segs"
  by (induction "''/''" segs rule: join_with.induct) (simp_all add: Split_absent Split_append)

lemma cleaned_segs: "cleaned (is_rooted p) (clean_segs p)"
  unfolding clean_segs_def by (rule cleaned_fold) (auto simp: cleaned_def Split_no_sep)

lemma cleaned_slash_free: "cleaned r segs \<Longrightarrow> seg \<in> set segs \<Longrightarrow> CHR ''/'' \<notin> set seg \<and> seg \<noteq> []"
  unfolding cleaned_def list_all_iff proper_def by (elim exE conjE) (simp; fastforce)

lemma join_empty: "sep \<noteq> [] \<Longrightarrow> (join_with sep segs = []) = (segs = [] \<or> segs = [[]])"
  by (cases "(sep, segs)" rule: join_with.cases) auto

lemma hd_join: "segs \<noteq> [] \<Longrightarrow> hd segs \<noteq> [] \<Longrightarrow> hd (join_with sep segs) = hd (hd segs)"
  by (cases "(sep, segs)" rule: join_with.cases) auto

lemma rooted_render:
  assumes "cleaned r segs"
  shows "is_rooted (render r segs) = r"
proof (cases "segs = []")
  case False
  have h: "hd segs \<noteq> []" "CHR ''/'' \<notin> set (hd segs)" using assms False cleaned_slash_free[of r segs "hd segs"] by auto
  then have "hd (hd segs) \<noteq> CHR ''/''" by (cases "hd segs") auto
  then show ?thesis using hd_join[OF False h(1)] False h(1) by (auto simp: render_def is_rooted_def join_empty Let_def)
qed (simp add: render_def is_rooted_def)

text \<open>A cleaned list of names survives printing and cleaning again.\<close>

lemma segs_render:
  assumes "cleaned r segs"
  shows "clean_segs (render r segs) = segs"
proof (cases "segs = []")
  case True
  then show ?thesis by (cases r) (simp_all add: render_def clean_segs_def is_rooted_def clean_step_def)
next
  case False
  have ne: "join_with ''/'' segs \<noteq> []" using False cleaned_slash_free[OF assms] by (auto simp: join_empty)
  have sp: "strings_Split (join_with ''/'' segs) CHR ''/'' = segs"
    using False cleaned_slash_free[OF assms] by (intro Split_join) auto
  have "foldl (clean_step r) [] (strings_Split (render r segs) CHR ''/'') = segs"
    using sp fold_cleaned[OF assms] ne by (cases r) (simp_all add: render_def Let_def clean_step_def)
  then show ?thesis using rooted_render[OF assms] by (simp add: clean_segs_def)
qed

corollary Clean_idempotent: "filepath_Clean (filepath_Clean p) = filepath_Clean p"
  by (simp add: Clean_render rooted_render segs_render cleaned_segs)

section \<open>Local paths under a root\<close>

text \<open>A clean local path names no parent directory.\<close>

lemma local_segs:
  assumes "filepath_IsLocal p" "filepath_Clean p = p"
  shows "list_all proper (clean_segs p)" "\<not> is_rooted p"
proof -
  show nr: "\<not> is_rooted p" using assms(1) by (auto simp: filepath_IsLocal_def)
  have up: "\<not> (p = ''..'' \<or> strings_HasPrefix p ''../'')" "p \<noteq> []"
    using assms by (auto simp: filepath_IsLocal_def Let_def split: if_splits)
  obtain n xs where s: "clean_segs p = replicate n ''..'' @ xs" "list_all proper xs"
    using cleaned_segs[of p] by (auto simp: cleaned_def)
  have pr: "p = render False (clean_segs p)" using assms(2) nr by (simp add: Clean_render)
  have "n = 0"
  proof (cases n)
    case (Suc m)
    then have "clean_segs p = ''..'' # (replicate m ''..'' @ xs)" using s by simp
    then have "p = ''..'' \<or> strings_HasPrefix p ''../''"
      using pr by (cases "replicate m ''..'' @ xs") (simp_all add: render_def Let_def strings_HasPrefix_def)
    then show ?thesis using up by simp
  qed
  then show "list_all proper (clean_segs p)" using s by simp
qed

text \<open>\<open>dir\<close> is a clean path whose elements are those of \<open>dataRoot\<close> followed by proper names: the
  lexical form of lying inside \<open>dataRoot\<close>.\<close>

definition beneath :: "string \<Rightarrow> string \<Rightarrow> bool" where
  "beneath dataRoot dir \<longleftrightarrow> is_rooted dir = is_rooted dataRoot \<and> filepath_Clean dir = dir \<and>
     take (length (clean_segs dataRoot)) (clean_segs dir) = clean_segs dataRoot \<and>
     list_all proper (drop (length (clean_segs dataRoot)) (clean_segs dir))"

lemma render_beneath: "list_all proper segs \<Longrightarrow> beneath dataRoot (render (is_rooted dataRoot) (clean_segs dataRoot @ segs))"
  by (simp add: beneath_def rooted_render segs_render cleaned_name cleaned_segs Clean_render)

lemma fold_clean_path:
  assumes "filepath_Clean p = p" "list_all proper (clean_segs p)" "\<not> is_rooted p" "p \<noteq> []"
  shows "foldl (clean_step r) acc (strings_Split p CHR ''/'') = acc @ clean_segs p"
proof -
  have pr: "p = render False (clean_segs p)" using assms(1,3) by (simp add: Clean_render)
  show ?thesis
  proof (cases "clean_segs p = []")
    case True
    then have "p = ''.''" using pr by (simp add: render_def)
    then show ?thesis by (simp add: clean_step_def clean_segs_def)
  next
    case False
    have "join_with ''/'' (clean_segs p) \<noteq> []" using False assms(2) by (auto simp: join_empty proper_def)
    then have "p = join_with ''/'' (clean_segs p)" using pr by (auto simp: render_def Let_def)
    then have "strings_Split p CHR ''/'' = clean_segs p"
      using Split_join[OF False] assms(2) by (metis list_all_iff proper_def)
    then show ?thesis using fold_proper[OF assms(2)] by simp
  qed
qed

lemma Join_beneath:
  assumes "filepath_IsLocal p" "filepath_Clean p = p"
  shows "beneath dataRoot (filepath_Join [dataRoot, p])"
proof -
  have l: "list_all proper (clean_segs p)" "\<not> is_rooted p" "p \<noteq> []"
    using local_segs[OF assms] assms(1) by (auto simp: filepath_IsLocal_def)
  show ?thesis
  proof (cases "dataRoot = []")
    case True
    have "filepath_Join [dataRoot, p] = render False (clean_segs p)"
      using True l by (simp add: filepath_Join_def Clean_render)
    then show ?thesis using render_beneath[OF l(1), of dataRoot] True
      by (simp add: is_rooted_def clean_segs_def clean_step_def)
  next
    case False
    have r: "is_rooted (dataRoot @ ''/'' @ p) = is_rooted dataRoot" using False by (simp add: is_rooted_def)
    have "clean_segs (dataRoot @ ''/'' @ p) = clean_segs dataRoot @ clean_segs p"
      using r fold_clean_path[OF assms(2) l(1) l(2) l(3)]
      by (simp add: clean_segs_def[of dataRoot] clean_segs_def[of "dataRoot @ CHR ''/'' # p"] Split_append)
    then have "filepath_Join [dataRoot, p] = render (is_rooted dataRoot) (clean_segs dataRoot @ clean_segs p)"
      using False l r by (simp add: filepath_Join_def Clean_render)
    then show ?thesis using render_beneath[OF l(1)] by simp
  qed
qed

section \<open>The loop\<close>

definition rpm_dir :: "string \<Rightarrow> string \<Rightarrow> string \<times> string \<times> string \<Rightarrow> string" where
  "rpm_dir dataRoot name t = filepath_Join [dataRoot, rpm_rel name t]"

lemma rpm_rel_clean: "filepath_Clean (rpm_rel name t) = rpm_rel name t"
  by (cases t) (simp add: rpm_rel_def filepath_Join_def Clean_idempotent Let_def)

text \<open>The directories the loop makes: those of a prefix of the combinations, all local; the whole list
  when it reports no error.\<close>

lemma mkdir_tree_run:
  "\<exists>us vs. ts = us @ vs \<and> (\<forall>t \<in> set us. filepath_IsLocal (rpm_rel name t)) \<and>
     snd (run_state (mkdir_tree dataRoot name ts) s) = s\<lparr>made_dirs := made_dirs s @ map (rpm_dir dataRoot name) us\<rparr> \<and>
     (\<not> isl (fst (run_state (mkdir_tree dataRoot name ts) s)) \<longrightarrow> vs = [])"
proof (induction ts arbitrary: s)
  case Nil
  then show ?case by simp
next
  case (Cons t ts)
  let ?dir = "filepath_Join [dataRoot, rpm_rel name t]"
  let ?s1 = "s\<lparr>made_dirs := made_dirs s @ [?dir]\<rparr>"
  consider (far) "\<not> filepath_IsLocal (rpm_rel name t)" | (fails) e where "filepath_IsLocal (rpm_rel name t)" "mkdir_err s ?dir = Some e"
    | (goes) "filepath_IsLocal (rpm_rel name t)" "mkdir_err s ?dir = None" by fastforce
  then show ?case
  proof cases
    case far
    then show ?thesis by (intro exI[of _ "[]"] exI[of _ "t # ts"]) simp
  next
    case fails
    then show ?thesis
      by (intro exI[of _ "[t]"] exI[of _ ts]) (simp add: MkdirAll_def run_simps rpm_dir_def)
  next
    case goes
    obtain us vs where "ts = us @ vs" "\<forall>t \<in> set us. filepath_IsLocal (rpm_rel name t)"
      "snd (run_state (mkdir_tree dataRoot name ts) ?s1) = ?s1\<lparr>made_dirs := made_dirs ?s1 @ map (rpm_dir dataRoot name) us\<rparr>"
      "\<not> isl (fst (run_state (mkdir_tree dataRoot name ts) ?s1)) \<longrightarrow> vs = []"
      using Cons[of ?s1] by blast
    then show ?thesis using goes
      by (intro exI[of _ "t # us"] exI[of _ vs]) (simp add: MkdirAll_def run_simps rpm_dir_def)
  qed
qed

definition confined :: "string \<Rightarrow> 'z fs_scheme \<Rightarrow> bool" where
  "confined dataRoot s \<longleftrightarrow> list_all (beneath dataRoot) (made_dirs s)"

lemma initRPMTree_confined: "preserves (confined dataRoot) (initRPMTree dataRoot c)"
proof (rule preservesI)
  fix s :: "'a fs_scheme"
  assume "confined dataRoot s"
  moreover obtain us where "\<forall>t \<in> set us. filepath_IsLocal (rpm_rel (Comp_Name c) t)"
    "snd (run_state (initRPMTree dataRoot c) s) = s\<lparr>made_dirs := made_dirs s @ map (rpm_dir dataRoot (Comp_Name c)) us\<rparr>"
    using mkdir_tree_run[of "rpm_combinations c" "Comp_Name c" dataRoot s] unfolding initRPMTree_def by blast
  ultimately show "confined dataRoot (snd (run_state (initRPMTree dataRoot c) s))"
    by (auto simp: confined_def list_all_iff rpm_dir_def Join_beneath rpm_rel_clean)
qed

section \<open>The handlers\<close>

lemma keeps_dirs_parts [keep_rules]:
  "keeps made_dirs time_Now" "keeps made_dirs inc_CacheRequests" "keeps made_dirs inc_CacheHits"
  "keeps made_dirs (set_CacheEntries n)" "keeps made_dirs (set_entries es)" "keeps made_dirs (bump_gen name)"
  "keeps made_dirs (sql_stmt f)"
  by (simp_all add: keeps_def run_simps time_Now_def keeps_ext_stmt[unfolded keeps_def])

lemma keeps_dirs_query [keep_rules]: "keeps made_dirs (sql_query q)" "keeps made_dirs (sql_query_row q')"
  by (simp_all add: sql_query_def sql_query_row_def keep_rules)

lemma component_store_keeps_dirs:
  "keeps made_dirs (CreateComponent c)" "keeps made_dirs (Cached_GetComponent name)"
  "keeps made_dirs (Cached_UpdateComponent name patch)" "keeps made_dirs (Cached_DeleteComponent name)"
  unfolding CreateComponent_def Cached_GetComponent_def Cached_UpdateComponent_def Cached_DeleteComponent_def
    UpdateComponent_def DeleteComponent_def evict_on_success_def cache_evict_def cache_lookup_def drop_expired_def
    shared_lookup_def finish_lookup_def generation_def cache_insert_def GetComponent_def
  by (intro keep_rules keeps_ext_tx; simp)+

lemma confined_keeps: "keeps made_dirs m \<Longrightarrow> preserves (confined dataRoot) m"
  using keeps_preserves[of made_dirs m "list_all (beneath dataRoot)"] by (simp add: preserves_def confined_def)

lemmas component_store_confined = component_store_keeps_dirs[THEN confined_keeps]

text \<open>The outcome of the tree step, for the handlers.\<close>

lemma initRPMTree_outcome:
  assumes "run_state (initRPMTree dataRoot c) s = (e, s')"
  shows "db s' = db s" "fault s' = fault s"
    "\<not> isl e \<Longrightarrow> made_dirs s' = made_dirs s @ map (rpm_dir dataRoot (Comp_Name c)) (rpm_combinations c)"
  using mkdir_tree_run[of "rpm_combinations c" "Comp_Name c" dataRoot s] assms unfolding initRPMTree_def by auto

lemma CreateComponent_outcome:
  assumes "run_state (CreateComponent c) s = (e, s')"
  shows "fault s' = fault s" "made_dirs s' = made_dirs s"
    "isl e \<Longrightarrow> components (db s') = components (db s)"
    "e = Inr d \<Longrightarrow> Comp_Name d \<notin> co_name ` set (components (db s)) \<and>
       (\<exists>row. components (db s') = components (db s) @ [row] \<and> co_name row = Comp_Name d \<and>
          co_visibility row = Comp_Visibility d)"
  using assms by (auto simp: CreateComponent_def Let_def run_simps run_sql_stmt insert_component_def time_Now_def
      split: option.splits if_splits)

lemma Cached_DeleteComponent_components:
  assumes "\<And>n. fault s n = None"
  shows "components (db (snd (run_state (Cached_DeleteComponent name) s))) = filter (\<lambda>q. co_name q \<noteq> name) (components (db s))"
  using assms by (auto simp: Cached_DeleteComponent_def DeleteComponent_def evict_on_success_def cache_evict_def run_simps
      run_sql_stmt delete_component_def Let_def split: option.splits if_splits)

text \<open>The part of the create handler behind the validation.\<close>

definition create_with_tree :: "string \<Rightarrow> Component \<Rightarrow> ('z fs_scheme, response) state" where
  "create_with_tree dataRoot c = do {
     x \<leftarrow> CreateComponent c;
     case x of
       Inl e \<Rightarrow> State_Monad.return (if errors_Is e ErrComponentExists then writeError 409 ''COMPONENT_EXISTS''
               else writeError 500 ''COMPONENT_CREATE_FAILED'')
     | Inr created \<Rightarrow> do {
         t \<leftarrow> initRPMTree dataRoot created;
         case t of
           Inl e \<Rightarrow> do {
             _ \<leftarrow> Cached_DeleteComponent (Comp_Name created);
             State_Monad.return (writeError 500 ''RPM_INIT_FAILED'') }
         | Inr _ \<Rightarrow> State_Monad.return (writeJSON 201 (JComponent created)) } }"

lemma Create_cases:
  "(\<exists>code. Components_Create dataRoot body r = State_Monad.return (writeError 400 code)) \<or>
   (\<exists>c. Components_Create dataRoot body r = create_with_tree dataRoot c)"
  by (auto simp: Components_Create_def create_with_tree_def[abs_def] Let_def split: option.split)

definition all_or_nothing :: "string \<Rightarrow> 'z fs_scheme \<Rightarrow> response \<Rightarrow> 'z fs_scheme \<Rightarrow> bool" where
  "all_or_nothing dataRoot s w s' \<longleftrightarrow> (if Status w = 201
    then \<exists>row c. Body w = JComponent c \<and> components (db s') = components (db s) @ [row] \<and> co_name row = Comp_Name c \<and>
      made_dirs s' = made_dirs s @ map (rpm_dir dataRoot (Comp_Name c)) (rpm_combinations c)
    else components (db s') = components (db s))"

lemma create_with_tree_all_or_nothing:
  assumes "\<And>n. fault s n = None" "run_state (create_with_tree dataRoot c) s = (w, s')"
  shows "all_or_nothing dataRoot s w s'"
proof -
  obtain e s1 where cr: "run_state (CreateComponent c) s = (e, s1)" by fastforce
  note o1 = CreateComponent_outcome[OF cr]
  show ?thesis
  proof (cases e)
    case (Inl e')
    then show ?thesis using o1(3) assms(2) cr
      by (auto simp: create_with_tree_def all_or_nothing_def run_simps writeError_def split: if_splits)
  next
    case (Inr d)
    obtain e2 s2 where t: "run_state (initRPMTree dataRoot d) s1 = (e2, s2)" by fastforce
    note o2 = initRPMTree_outcome[OF t]
    obtain row where row: "components (db s1) = components (db s) @ [row]" "co_name row = Comp_Name d"
      "Comp_Name d \<notin> co_name ` set (components (db s))" using o1(4)[OF Inr] by blast
    have fl: "\<And>n. fault s2 n = None" using assms(1) o1(1) o2(2) by simp
    have gone: "filter (\<lambda>q. co_name q \<noteq> Comp_Name d) (components (db s)) = components (db s)"
      using row(3) by (metis (mono_tags, lifting) filter_True image_eqI)
    show ?thesis
    proof (cases e2)
      case (Inl x)
      then show ?thesis
        using Cached_DeleteComponent_components[OF fl, of "Comp_Name d"] assms(2) cr t Inr row o2(1) gone
        by (auto simp: create_with_tree_def all_or_nothing_def run_simps writeError_def split: prod.splits)
    next
      case (Inr x)
      then show ?thesis using assms(2) cr t \<open>e = Inr d\<close> row o1(2) o2
        by (auto simp: create_with_tree_def all_or_nothing_def run_simps writeJSON_def)
    qed
  qed
qed

text \<open>C32: the handlers that create and change a component make directories under the data root
  only, for every request, every row the component table holds and every failure. The validation of names
  in the request body is not needed for this: the check of the joined path alone gives it.\<close>

theorem rpm_tree_confined:
  fixes s :: "'z fs_scheme"
  assumes "list_all (beneath dataRoot) (made_dirs s)"
  shows "list_all (beneath dataRoot) (made_dirs (snd (run_state (Components_Create dataRoot body r) s))) \<and>
    list_all (beneath dataRoot) (made_dirs (snd (run_state (Components_Update dataRoot patch r) s)))"
proof -
  have "preserves (confined dataRoot) (Components_Create dataRoot body r :: ('z fs_scheme, response) state)"
    "preserves (confined dataRoot) (Components_Update dataRoot patch r :: ('z fs_scheme, response) state)"
    unfolding Components_Create_def Components_Update_def
    by (intro pres_rules component_store_confined initRPMTree_confined)+
  then show ?thesis using assms by (auto simp: preserves_def confined_def)
qed

text \<open>C33: while the database answers, creating a component is all or nothing: the answer 201 comes with one new row and
  the directory of every combination of series, family and architecture; every other answer leaves the
  component table as it was, also when making a directory failed half way.\<close>

theorem component_create_all_or_nothing:
  fixes s :: "'z fs_scheme"
  assumes "\<And>n. fault s n = None" "run_state (Components_Create dataRoot body r) s = (w, s')"
  shows "if Status w = 201
    then \<exists>row c. Body w = JComponent c \<and> components (db s') = components (db s) @ [row] \<and> co_name row = Comp_Name c \<and>
      made_dirs s' = made_dirs s @ map (rpm_dir dataRoot (Comp_Name c)) (rpm_combinations c)
    else components (db s') = components (db s)"
proof -
  have "all_or_nothing dataRoot s w s'"
  proof (rule disjE[OF Create_cases[of dataRoot body r, where 'a = 'z]]; elim exE)
    fix code
    assume "Components_Create dataRoot body r = (State_Monad.return (writeError 400 code) :: ('z fs_scheme, response) state)"
    then show ?thesis using assms(2) by (auto simp: all_or_nothing_def writeError_def)
  next
    fix c
    assume "Components_Create dataRoot body r = (create_with_tree dataRoot c :: ('z fs_scheme, response) state)"
    then show ?thesis using assms create_with_tree_all_or_nothing by metis
  qed
  then show ?thesis by (simp add: all_or_nothing_def)
qed

definition sample_fs :: fs where
  "sample_fs = limited.extend sample_limited (fs.fields [] (\<lambda>dir. if dir = ''/srv/packages/rpm/core2/2025/el9-arm64'' then Some ''disk full'' else None))"

definition sample_new_component :: createComponentRequest where
  "sample_new_component = \<lparr>ccr_Name = ''core2'', ccr_Visibility = [], ccr_RPMSeries = Some [''2025''],
     ccr_RPMOSFamilies = Some [''el9''], ccr_RPMArchitectures = Some [''x86_64'', ''arm64'']\<rparr>"

lemma sample_fs_sel: "made_dirs sample_fs = []" "fault sample_fs n = None" "components (db sample_fs) = components sample_tables"
  by (simp_all add: sample_fs_def fs.defs limited.defs sample_limited_def cached.defs sample_cached_def metered.defs sample_def)

theorem rpm_tree_confined_witness:
  "list_all (beneath ''/srv/packages'') (made_dirs sample_fs) \<and>
   list_all (beneath ''/srv/packages'')
     (made_dirs (snd (run_state (Components_Create ''/srv/packages'' (Some sample_new_component) sample_read) sample_fs)))"
  using rpm_tree_confined[of "''/srv/packages''" sample_fs "Some sample_new_component"] by (simp add: sample_fs_sel)

theorem component_create_all_or_nothing_witness:
  "\<exists>w s'. run_state (Components_Create ''/srv/packages'' (Some sample_new_component) sample_read) sample_fs = (w, s') \<and>
     (if Status w = 201 then length (components (db s')) = 3 else components (db s') = components sample_tables)"
proof -
  obtain w s' where run: "run_state (Components_Create ''/srv/packages'' (Some sample_new_component) sample_read) sample_fs = (w, s')"
    by fastforce
  show ?thesis using run component_create_all_or_nothing[OF _ run] by (intro exI[of _ w] exI[of _ s']) (auto simp: sample_fs_sel sample_rows)
qed

end
