(* ===== verification/Pkce.thy ===== *)
theory Pkce
  imports Http "HOL-Library.Word"
begin

text \<open>
  \<^verbatim>\<open>PKCECodeChallenge\<close> of \<^verbatim>\<open>internal/auth/state.go\<close>, with the \<^verbatim>\<open>crypto/sha256\<close> and \<^verbatim>\<open>encoding/base64\<close> it calls
  (FIPS 180-4 and RFC 4648) on 32-bit words. The lemma: every challenge is 43 characters of the
  URL-safe alphabet, so it can stand in a URL without escaping.
\<close>

unbundle bit_operations_syntax

section \<open>SHA-256\<close>

type_synonym w32 = "32 word"

text \<open>
  The constants of the standard are defined by it as the first 32 bits of the fractional parts of
  the cube roots (round constants) and square roots (initial registers) of the first primes. An
  integer root is found bit by bit: the largest \<open>r\<close> with \<open>r ^ k \<le> n\<close>.
\<close>

fun int_root :: "nat \<Rightarrow> nat \<Rightarrow> nat \<Rightarrow> nat \<Rightarrow> nat" where
  "int_root k n 0 acc = acc"
| "int_root k n (Suc b) acc = int_root k n b (if (acc + 2 ^ b) ^ k \<le> n then acc + 2 ^ b else acc)"

definition root_fraction :: "nat \<Rightarrow> nat \<Rightarrow> w32" where
  "root_fraction k p = of_nat (int_root k (p * 2 ^ (32 * k)) 40 0)"

definition sha_primes :: "nat list" where
  "sha_primes = filter (\<lambda>p. list_all (\<lambda>d. p mod d \<noteq> 0) [2..<p]) [2..<312]"

definition sha_K :: "w32 list" where
  "sha_K = map (root_fraction 3) sha_primes"

definition rotr :: "nat \<Rightarrow> w32 \<Rightarrow> w32" where
  "rotr n x = drop_bit n x OR push_bit (32 - n) x"

text \<open>The message with the bit 1, zeros up to 56 modulo 64 bytes, and its bit length in 8 bytes.\<close>

definition be_bytes :: "nat \<Rightarrow> int \<Rightarrow> int list" where
  "be_bytes k n = map (\<lambda>i. n div 256 ^ (k - 1 - i) mod 256) [0..<k]"

definition sha_pad :: "string \<Rightarrow> int list" where
  "sha_pad m = (let n = length m in
     map of_char m @ 128 # replicate ((119 - n mod 64) mod 64) 0 @ be_bytes 8 (8 * int n mod 2 ^ 64))"

fun chunks :: "nat \<Rightarrow> nat \<Rightarrow> 'a list \<Rightarrow> 'a list list" where
  "chunks 0 k xs = []"
| "chunks (Suc n) k xs = take k xs # chunks n k (drop k xs)"

definition be_word :: "int list \<Rightarrow> w32" where
  "be_word bs = of_int (foldl (\<lambda>a b. 256 * a + b) 0 bs)"

fun sha_schedule :: "nat \<Rightarrow> w32 list \<Rightarrow> w32 list" where
  "sha_schedule 0 w = w"
| "sha_schedule (Suc n) w =
    (let t = length w; v1 = w ! (t - 2); v2 = w ! (t - 15);
         t1 = rotr 17 v1 XOR rotr 19 v1 XOR drop_bit 10 v1;
         t2 = rotr 7 v2 XOR rotr 18 v2 XOR drop_bit 3 v2
     in sha_schedule n (w @ [t1 + w ! (t - 7) + t2 + w ! (t - 16)]))"

type_synonym sha_regs = "w32 \<times> w32 \<times> w32 \<times> w32 \<times> w32 \<times> w32 \<times> w32 \<times> w32"

definition sha_round :: "sha_regs \<Rightarrow> w32 \<times> w32 \<Rightarrow> sha_regs" where
  "sha_round r kw = (case r of (a, b, c, d, e, f, g, h) \<Rightarrow>
     let t1 = h + (rotr 6 e XOR rotr 11 e XOR rotr 25 e) + ((e AND f) XOR (NOT e AND g)) + fst kw + snd kw;
         t2 = (rotr 2 a XOR rotr 13 a XOR rotr 22 a) + ((a AND b) XOR (a AND c) XOR (b AND c))
     in (t1 + t2, a, b, c, d + t1, e, f, g))"

definition sha_block :: "sha_regs \<Rightarrow> int list \<Rightarrow> sha_regs" where
  "sha_block r p =
    (let w = sha_schedule 48 (map be_word (chunks 16 4 p)) in
     case (r, foldl sha_round r (zip sha_K w)) of
       ((a, b, c, d, e, f, g, h), (a', b', c', d', e', f', g', h')) \<Rightarrow>
         (a + a', b + b', c + c', d + d', e + e', f + f', g + g', h + h'))"

definition sha_init :: sha_regs where
  "sha_init = (root_fraction 2 2, root_fraction 2 3, root_fraction 2 5, root_fraction 2 7,
     root_fraction 2 11, root_fraction 2 13, root_fraction 2 17, root_fraction 2 19)"

definition regs_bytes :: "sha_regs \<Rightarrow> int list" where
  "regs_bytes r = (case r of (a, b, c, d, e, f, g, h) \<Rightarrow>
     concat (map (\<lambda>x. be_bytes 4 (uint x)) [a, b, c, d, e, f, g, h]))"

definition sha256_Sum256 :: "string \<Rightarrow> int list" where
  "sha256_Sum256 m = (let p = sha_pad m in regs_bytes (foldl sha_block sha_init (chunks (length p div 64) 64 p)))"

section \<open>Base64, URL-safe and unpadded\<close>

definition base64url :: string where
  "base64url = ''ABCDEFGHIJKLMNOPQRSTUVWXYZabcdefghijklmnopqrstuvwxyz0123456789-_''"

definition b64_char :: "int \<Rightarrow> char" where
  "b64_char n = base64url ! nat (n mod 64)"

fun RawURLEncoding :: "int list \<Rightarrow> string" where
  "RawURLEncoding (a # b # c # bs) =
     (let v = a * 65536 + b * 256 + c in
      [b64_char (v div 262144), b64_char (v div 4096), b64_char (v div 64), b64_char v] @ RawURLEncoding bs)"
| "RawURLEncoding [a, b] = (let v = a * 65536 + b * 256 in [b64_char (v div 262144), b64_char (v div 4096), b64_char (v div 64)])"
| "RawURLEncoding [a] = (let v = a * 65536 in [b64_char (v div 262144), b64_char (v div 4096)])"
| "RawURLEncoding [] = []"

definition PKCECodeChallenge :: "string \<Rightarrow> string" where
  "PKCECodeChallenge verifier = RawURLEncoding (sha256_Sum256 verifier)"

section \<open>Facts\<close>

lemma length_sha256: "length (sha256_Sum256 m) = 32"
  by (simp add: sha256_Sum256_def regs_bytes_def be_bytes_def Let_def split: prod.split)

lemma length_RawURLEncoding: "length (RawURLEncoding bs) = (4 * length bs + 2) div 3"
  by (induction bs rule: RawURLEncoding.induct) (auto simp: Let_def)

lemma b64_char_unreserved: "unreserved (b64_char n)"
proof -
  have "list_all unreserved base64url" by code_simp
  moreover have "b64_char n \<in> set base64url"
    unfolding b64_char_def by (rule nth_mem) (simp add: base64url_def nat_less_iff)
  ultimately show ?thesis by (simp add: list_all_iff)
qed

lemma RawURLEncoding_unreserved: "list_all unreserved (RawURLEncoding bs)"
  by (induction bs rule: RawURLEncoding.induct) (auto simp: Let_def b64_char_unreserved)

lemma QueryEscape_unreserved: "list_all unreserved s \<Longrightarrow> QueryEscape s = s"
  by (induction s) (auto simp: QueryEscape_def escape_char_def)

text \<open>
  A PKCE challenge always has the form RFC 7636 asks for, 43 characters that need no escaping in a
  URL, whatever the verifier.
\<close>

lemma pkce_challenge_shape:
  "length (PKCECodeChallenge v) = 43 \<and> QueryEscape (PKCECodeChallenge v) = PKCECodeChallenge v"
  by (simp add: PKCECodeChallenge_def length_RawURLEncoding length_sha256 QueryEscape_unreserved RawURLEncoding_unreserved)

end
