(* ===== verification/Admin_UI.thy ===== *)
theory Admin_UI
  imports Rpm_Tree Pkce
begin

text \<open>
  \<^verbatim>\<open>internal/adminui/adminui.go\<close> and \<^verbatim>\<open>internal/middleware/csp.go\<close>: the embedded admin application and its content
  security policy. The built files under \<^verbatim>\<open>dist\<close> are an argument, as is \<^verbatim>\<open>http.ServeContent\<close> with its conditional and range
  requests; \<^verbatim>\<open>http.StripPrefix\<close> and the path logic of \<^verbatim>\<open>http.FileServer\<close> are modelled. \<^verbatim>\<open>path.Clean\<close> is \<open>filepath_Clean\<close>. The
  lemmas: a response that may be cached for a year is a file below the assets directory, never the application shell; every
  response carries the policy with a nonce of 22 URL-safe characters, or is the error 500.
\<close>

section \<open>Files\<close>

datatype node = File | Directory

record dist =
  node_of :: "string \<Rightarrow> node option"
  index_html :: "string option"
  serveContent :: "request \<Rightarrow> string \<Rightarrow> response"
  dirList :: "string \<Rightarrow> response"

definition indexPage :: string where "indexPage = ''/index.html''"

definition assetURLPrefix :: string where "assetURLPrefix = ''/admin/assets/''"

definition immutable :: string where "immutable = ''public, max-age=31536000, immutable''"

text \<open>\<^verbatim>\<open>http.Error\<close>, \<^verbatim>\<open>http.NotFound\<close> and the redirects of the file server.\<close>

definition http_Error :: "string \<Rightarrow> nat \<Rightarrow> response" where
  "http_Error msg code = \<lparr>Status = code, RespHeaders = [(''Content-Type'', ''text/plain; charset=utf-8'')], SetCookies = [], Body = PlainText msg\<rparr>"

definition http_NotFound :: response where
  "http_NotFound = http_Error ''404 page not found'' 404"

definition localRedirect :: "string \<Rightarrow> response" where
  "localRedirect path = \<lparr>Status = 301, RespHeaders = [(''Location'', path)], SetCookies = [], Body = NoBody\<rparr>"

text \<open>A response, and whether its handler called \<^verbatim>\<open>WriteHeader\<close> itself.\<close>

datatype written = Explicit response | Implicit response

section \<open>The file server\<close>

definition strings_HasSuffix :: "string \<Rightarrow> string \<Rightarrow> bool" where
  "strings_HasSuffix s t \<longleftrightarrow> strings_HasPrefix (rev s) (rev t)"

text \<open>\<^verbatim>\<open>http.FS\<close>: the name below the root, \<^verbatim>\<open>.\<close> for the root itself.\<close>

definition fs_name :: "string \<Rightarrow> string" where
  "fs_name name = (if name = ''/'' then ''.'' else strings_TrimPrefix name ''/'')"

definition path_Base :: "string \<Rightarrow> string" where
  "path_Base p = (if clean_segs p = [] then ''/'' else last (clean_segs p))"

definition serve_directory :: "dist \<Rightarrow> request \<Rightarrow> string \<Rightarrow> written" where
  "serve_directory d r name =
    (let index = (if name = ''/'' then indexPage else name @ indexPage) in
     case node_of d (fs_name index) of
       Some File \<Rightarrow> Explicit (serveContent d r (fs_name index))
     | Some Directory \<Rightarrow> Implicit (dirList d (fs_name index))
     | None \<Rightarrow> Implicit (dirList d (fs_name name)))"

definition FileServer :: "dist \<Rightarrow> request \<Rightarrow> string \<Rightarrow> written" where
  "FileServer d r urlPath =
    (let upath = (if strings_HasPrefix urlPath ''/'' then urlPath else ''/'' @ urlPath);
         name = filepath_Clean upath in
     if strings_HasSuffix upath indexPage then Explicit (localRedirect ''./'')
     else case node_of d (fs_name name) of
         None \<Rightarrow> Explicit http_NotFound
       | Some Directory \<Rightarrow>
           if \<not> strings_HasSuffix upath ''/'' then Explicit (localRedirect (path_Base upath @ ''/''))
           else serve_directory d r name
       | Some File \<Rightarrow>
           if strings_HasSuffix upath ''/'' then Explicit (localRedirect (''../'' @ path_Base upath))
           else Explicit (serveContent d r (fs_name name)))"

text \<open>\<^verbatim>\<open>http.StripPrefix("/admin/", h)\<close>.\<close>

definition StripPrefix :: "string \<Rightarrow> request \<Rightarrow> (string \<Rightarrow> written) \<Rightarrow> written" where
  "StripPrefix p r h =
    (if strings_HasPrefix (URL_Path r) p \<and> (URL_RawPath r = [] \<or> strings_HasPrefix (URL_RawPath r) p) then h (strings_TrimPrefix (URL_Path r) p)
     else Explicit http_NotFound)"

section \<open>The handler\<close>

definition cacheOn2xx :: "string \<Rightarrow> written \<Rightarrow> response" where
  "cacheOn2xx cacheHeader x = (case x of
       Explicit w \<Rightarrow> if 200 \<le> Status w \<and> Status w < 300 then with_header ''Cache-Control'' cacheHeader w else w
     | Implicit w \<Rightarrow> w)"

definition placeholderHTML :: string where
  "placeholderHTML = ''<!DOCTYPE html>'' @ [CHR 0x0A] @
     ''<html lang='' @ [CHR 0x22] @ ''en'' @ [CHR 0x22] @ ''><head><meta charset='' @ [CHR 0x22] @ ''utf-8'' @ [CHR 0x22] @
     ''><title>Packyard Admin</title></head>'' @ [CHR 0x0A] @
     ''<body><h1>Admin SPA not built</h1>'' @ [CHR 0x0A] @
     ''<p>The React+TypeScript SPA bundle is missing. Run <code>make admin-ui</code> to build it,'' @ [CHR 0x0A] @
     ''then rebuild the auth binary.</p></body></html>''"

definition readIndexHTML :: "dist \<Rightarrow> string" where
  "readIndexHTML d = (case index_html d of
       None \<Rightarrow> placeholderHTML
     | Some data \<Rightarrow> if strings_TrimSpace data = [] then placeholderHTML else data)"

definition serveIndex :: "string \<Rightarrow> response" where
  "serveIndex indexBytes = \<lparr>Status = 200, RespHeaders = [(''Cache-Control'', ''no-store''), (''Content-Type'', ''text/html; charset=utf-8'')],
     SetCookies = [], Body = PlainText indexBytes\<rparr>"

definition adminui_Handler :: "dist \<Rightarrow> request \<Rightarrow> response" where
  "adminui_Handler d r =
    (if Method r \<noteq> ''GET'' \<and> Method r \<noteq> ''HEAD'' then with_header ''Allow'' ''GET, HEAD'' (http_Error ''method not allowed'' 405)
     else if strings_HasPrefix (URL_Path r) assetURLPrefix then
       (if \<not> strings_HasPrefix (filepath_Clean (URL_Path r)) assetURLPrefix then http_NotFound
        else cacheOn2xx immutable (StripPrefix ''/admin/'' r (FileServer d r)))
     else serveIndex (readIndexHTML d))"

section \<open>The content security policy\<close>

definition csp_policy :: "string \<Rightarrow> string" where
  "csp_policy nonce = (let q = [CHR 0x27]; nn = q @ ''nonce-'' @ nonce @ q; self = q @ ''self'' @ q; none = q @ ''none'' @ q in
     ''default-src '' @ self @ ''; script-src '' @ self @ '' '' @ nn @ ''; style-src '' @ self @ '' '' @ nn @
     ''; frame-ancestors '' @ none @ ''; object-src '' @ none @ ''; base-uri '' @ self)"

text \<open>The wrapped handler takes the nonce that the context carries.\<close>

definition AdminCSP :: "(string \<Rightarrow> request \<Rightarrow> ('z env_scheme, response) state) \<Rightarrow> request \<Rightarrow> ('z env_scheme, response) state" where
  "AdminCSP next r = do {
     b \<leftarrow> rand_Read 16;
     case b of
       Inl e \<Rightarrow> State_Monad.return (http_Error ''failed to generate CSP nonce'' 500)
     | Inr bytes \<Rightarrow> do {
         let nonce = RawURLEncoding (map (\<lambda>c. of_char c) bytes);
         w \<leftarrow> next nonce r;
         State_Monad.return (w\<lparr>RespHeaders := RespHeaders w @ [(''Content-Security-Policy'', csp_policy nonce)]\<rparr>) } }"

definition admin_app :: "dist \<Rightarrow> request \<Rightarrow> ('z env_scheme, response) state" where
  "admin_app d = AdminCSP (\<lambda>_ r. State_Monad.return (adminui_Handler d r))"

section \<open>Which file a path reaches\<close>

lemma append_sep_inj: "a @ c # x = p @ c # y \<Longrightarrow> c \<notin> set a \<Longrightarrow> c \<notin> set p \<Longrightarrow> a = p \<and> x = y" for c :: char
  using before_sep_append[of c a x] before_sep_append[of c p y] after_sep_append[of c a x] after_sep_append[of c p y] by simp

lemma HasPrefix_iff: "strings_HasPrefix s p \<longleftrightarrow> (\<exists>t. s = p @ t)"
  unfolding strings_HasPrefix_def by (metis append_eq_conv_conj append_take_drop_id)

text \<open>A printed clean path that starts with a directory name and a slash has that name as its first element.\<close>

lemma join_prefix:
  assumes "\<forall>seg \<in> set segs. CHR ''/'' \<notin> set seg" "CHR ''/'' \<notin> set p" "strings_HasPrefix (join_with ''/'' segs) (p @ ''/'' @ q)"
  shows "\<exists>rest. segs = p # rest \<and> rest \<noteq> [] \<and> strings_HasPrefix (join_with ''/'' rest) q"
proof -
  obtain t where t: "join_with ''/'' segs = p @ CHR ''/'' # (q @ t)"
    using assms(3) by (auto simp: HasPrefix_iff)
  show ?thesis
  proof (cases "(''/'' , segs)" rule: join_with.cases)
    case (3 sep a b bs)
    then have s: "segs = a # b # bs" by simp
    then have "a @ CHR ''/'' # join_with ''/'' (b # bs) = p @ CHR ''/'' # (q @ t)" using t by simp
    from append_sep_inj[OF this] s assms(1,2) have "a = p" "join_with ''/'' (b # bs) = q @ t" by auto
    with s show ?thesis by (auto simp: HasPrefix_iff)
  qed (use t assms(1) in auto)
qed

text \<open>Cleaning below one more directory: either it stays in front, or a detour through the root dropped it.\<close>

lemma clean_below:
  assumes "cleaned True acc"
    and "\<forall>seg \<in> set segs. CHR ''/'' \<notin> set seg"
  shows "foldl (clean_step True) (a # acc) segs = a # foldl (clean_step True) acc segs \<or>
    foldl (clean_step True) (a # acc) segs = foldl (clean_step True) acc segs \<or> a = ''..''"
  using assms
proof (induction segs arbitrary: acc)
  case (Cons seg segs)
  have c: "cleaned True (clean_step True acc seg)" using Cons.prems by (intro cleaned_step) auto
  have up: "last acc \<noteq> ''..''" if "acc \<noteq> []"
    using Cons.prems(1) that by (auto simp: cleaned_def list_all_iff proper_def)
  have "clean_step True (a # acc) seg = a # clean_step True acc seg \<or> a = ''..'' \<or>
      clean_step True (a # acc) seg = [] \<and> clean_step True acc seg = []"
    using up by (cases "acc = []") (auto simp: clean_step_def)
  then show ?case using Cons.IH[OF c] Cons.prems(2) by auto
qed simp

definition asset_name :: "string \<Rightarrow> bool" where
  "asset_name n \<longleftrightarrow> strings_HasPrefix n ''assets/'' \<or> strings_HasPrefix n ''admin/assets/''"

lemma rooted_Clean: "is_rooted p \<Longrightarrow> filepath_Clean p = CHR ''/'' # join_with ''/'' (clean_segs p)"
  by (simp add: filepath_Clean_def Let_def)

lemma segs_free: "is_rooted p \<Longrightarrow> \<forall>seg \<in> set (clean_segs p). CHR ''/'' \<notin> set seg"
  using cleaned_slash_free[OF cleaned_segs[of p]] by blast

lemma asset_reached:
  assumes "strings_HasPrefix p ''/admin/assets/''" "strings_HasPrefix (filepath_Clean p) ''/admin/assets/''"
  shows "\<exists>t. filepath_Clean (''/'' @ drop 7 p) = ''/assets/'' @ t \<or> filepath_Clean (''/'' @ drop 7 p) = ''/admin/assets/'' @ t"
proof -
  obtain rest where p: "p = ''/admin/'' @ rest" "drop 7 p = rest"
    using assms(1) by (auto simp: HasPrefix_iff)
  let ?sp = "strings_Split rest CHR ''/''"
  have root: "is_rooted p" "is_rooted (''/'' @ rest)" by (simp_all add: p is_rooted_def)
  have full: "clean_segs p = foldl (clean_step True) [''admin''] ?sp"
    using root(1) Split_append[of "''/admin''" "CHR ''/''" rest] by (simp add: clean_segs_def p clean_step_def)
  have short: "clean_segs (''/'' @ rest) = foldl (clean_step True) [] ?sp"
    using root(2) by (simp add: clean_segs_def clean_step_def)
  have "strings_HasPrefix (join_with ''/'' (clean_segs p)) (''admin'' @ ''/'' @ ''assets'' @ ''/'' @ [])"
    using assms(2) root(1) by (simp add: rooted_Clean HasPrefix_iff)
  from join_prefix[OF segs_free[OF root(1)] _ this] obtain xs where
    xs: "clean_segs p = ''admin'' # xs" "strings_HasPrefix (join_with ''/'' xs) (''assets'' @ ''/'' @ [])" by auto
  moreover have "\<forall>seg \<in> set xs. CHR ''/'' \<notin> set seg" using segs_free[OF root(1)] xs(1) by simp
  ultimately obtain ys where ys: "clean_segs p = ''admin'' # ''assets'' # ys" "ys \<noteq> []" using join_prefix[of xs "''assets''" "[]"] by auto
  have "clean_segs (''/'' @ rest) = ''assets'' # ys \<or> clean_segs (''/'' @ rest) = ''admin'' # ''assets'' # ys"
    using clean_below[of "[]" ?sp "''admin''"] ys(1) Split_no_sep[of _ rest "CHR ''/''"] unfolding full short by (auto simp: cleaned_def)
  with ys(2) show ?thesis unfolding p(2) rooted_Clean[OF root(2)] by (cases ys) auto
qed

section \<open>Responses\<close>

text \<open>\<^verbatim>\<open>http.ServeContent\<close> and the directory listing set neither header.\<close>

definition quiet :: "dist \<Rightarrow> bool" where
  "quiet d \<longleftrightarrow> (\<forall>k \<in> {''Cache-Control'', ''Content-Security-Policy''}.
     (\<forall>r n. map_of (RespHeaders (serveContent d r n)) k = None) \<and> (\<forall>n. map_of (RespHeaders (dirList d n)) k = None))"

lemma fs_asset: "name = ''/assets/'' @ t \<or> name = ''/admin/assets/'' @ t \<Longrightarrow> asset_name (fs_name name) \<and> asset_name (fs_name (name @ x)) \<and> name \<noteq> ''/''"
  by (auto simp: asset_name_def fs_name_def strings_TrimPrefix_def HasPrefix_iff)

text \<open>What the file server answers on a path that the handler lets through: a file below the assets, or nothing that is cached.\<close>

lemma FileServer_asset:
  assumes "quiet d" "filepath_Clean (''/'' @ p) = ''/assets/'' @ t \<or> filepath_Clean (''/'' @ p) = ''/admin/assets/'' @ t" "\<not> strings_HasPrefix p ''/''"
  shows "(\<exists>n. asset_name n \<and> node_of d n = Some File \<and> FileServer d r p = Explicit (serveContent d r n)) \<or>
    map_of (RespHeaders (cacheOn2xx immutable (FileServer d r p))) ''Cache-Control'' = None"
proof -
  have c: "map_of (RespHeaders (dirList d n)) ''Cache-Control'' = None" for n using assms(1) by (simp add: quiet_def)
  note a = fs_asset[OF assms(2)]
  show ?thesis
    using a c assms(3) by (auto simp: FileServer_def serve_directory_def cacheOn2xx_def Let_def localRedirect_def http_NotFound_def http_Error_def
        split: option.splits node.splits)
qed

lemma adminui_immutable:
  assumes "quiet d" "map_of (RespHeaders (adminui_Handler d r)) ''Cache-Control'' = Some immutable"
  shows "200 \<le> Status (adminui_Handler d r) \<and> Status (adminui_Handler d r) < 300 \<and>
    (\<exists>n. asset_name n \<and> node_of d n = Some File \<and> Body (adminui_Handler d r) = Body (serveContent d r n))"
proof -
  let ?fs = "FileServer d r (strings_TrimPrefix (URL_Path r) ''/admin/'')"
  have pre: "strings_HasPrefix (URL_Path r) assetURLPrefix" "strings_HasPrefix (filepath_Clean (URL_Path r)) assetURLPrefix"
    and w: "adminui_Handler d r = cacheOn2xx immutable ?fs"
    using assms(2) by (auto simp: adminui_Handler_def StripPrefix_def http_NotFound_def http_Error_def serveIndex_def with_header_def immutable_def
        cacheOn2xx_def split: if_splits)
  obtain t0 where t0: "URL_Path r = ''/admin/assets/'' @ t0" using pre(1) by (auto simp: HasPrefix_iff assetURLPrefix_def)
  then have trim: "strings_TrimPrefix (URL_Path r) ''/admin/'' = ''assets/'' @ t0" "drop 7 (URL_Path r) = ''assets/'' @ t0"
    by (simp_all add: strings_TrimPrefix_def HasPrefix_iff)
  obtain t where "filepath_Clean (''/'' @ ''assets/'' @ t0) = ''/assets/'' @ t \<or> filepath_Clean (''/'' @ ''assets/'' @ t0) = ''/admin/assets/'' @ t"
    using asset_reached[of "URL_Path r"] pre unfolding trim(2) assetURLPrefix_def by blast
  from FileServer_asset[OF assms(1) this, of r] assms(2) obtain n where
    n: "asset_name n" "node_of d n = Some File" "?fs = Explicit (serveContent d r n)"
    unfolding w trim(1) by (auto simp: HasPrefix_iff)
  have "map_of (RespHeaders (serveContent d r n)) ''Cache-Control'' = None" using assms(1) by (simp add: quiet_def)
  then have ok: "200 \<le> Status (serveContent d r n) \<and> Status (serveContent d r n) < 300"
    using assms(2) unfolding w n(3) cacheOn2xx_def by (auto split: if_splits)
  with n w show ?thesis by (auto simp: cacheOn2xx_def)
qed

lemma serve_directory_answers:
  "(\<exists>n. serve_directory d r name = Explicit (serveContent d r n)) \<or> (\<exists>n. serve_directory d r name = Implicit (dirList d n))"
  unfolding serve_directory_def Let_def by (auto split: option.split node.split)

lemma FileServer_answers:
  "(\<exists>l. FileServer d r p = Explicit (localRedirect l)) \<or> FileServer d r p = Explicit http_NotFound \<or>
   (\<exists>n. FileServer d r p = Explicit (serveContent d r n)) \<or> (\<exists>n. FileServer d r p = Implicit (dirList d n))"
proof -
  define u where "u = (if strings_HasPrefix p ''/'' then p else ''/'' @ p)"
  have "FileServer d r p = Explicit (localRedirect ''./'') \<or>
    FileServer d r p = (case node_of d (fs_name (filepath_Clean u)) of
         None \<Rightarrow> Explicit http_NotFound
       | Some Directory \<Rightarrow>
           if \<not> strings_HasSuffix u ''/'' then Explicit (localRedirect (path_Base u @ ''/'')) else serve_directory d r (filepath_Clean u)
       | Some File \<Rightarrow>
           if strings_HasSuffix u ''/'' then Explicit (localRedirect (''../'' @ path_Base u)) else Explicit (serveContent d r (fs_name (filepath_Clean u))))"
    unfolding FileServer_def Let_def u_def[symmetric] by (cases "strings_HasSuffix u indexPage") (simp_all only: if_True if_False simp_thms)
  then show ?thesis using serve_directory_answers[of d r "filepath_Clean u"]
    by (auto split: option.splits node.splits if_splits)
qed

lemma FileServer_no_csp:
  assumes "quiet d" "FileServer d r p = Explicit w \<or> FileServer d r p = Implicit w"
  shows "map_of (RespHeaders w) ''Content-Security-Policy'' = None"
proof -
  have "map_of (RespHeaders (serveContent d r n)) ''Content-Security-Policy'' = None"
    "map_of (RespHeaders (dirList d n)) ''Content-Security-Policy'' = None" for n using assms(1) by (simp_all add: quiet_def)
  with assms(2) FileServer_answers[of d r p] show ?thesis
    by (auto simp: localRedirect_def http_NotFound_def http_Error_def)
qed

lemma adminui_no_csp:
  assumes "quiet d"
  shows "map_of (RespHeaders (adminui_Handler d r)) ''Content-Security-Policy'' = None"
  using FileServer_no_csp[OF assms, of r "strings_TrimPrefix (URL_Path r) ''/admin/''"]
  unfolding adminui_Handler_def
  by (cases "FileServer d r (strings_TrimPrefix (URL_Path r) ''/admin/'')")
    (auto simp: cacheOn2xx_def StripPrefix_def with_header_def serveIndex_def http_NotFound_def http_Error_def)

text \<open>
  C38: The admin application is served with its policy, and only its assets may be cached for good. On every request under \<^verbatim>\<open>/admin\<close>
  the response is the error 500 of a failed random source, or it carries a content security policy with a nonce of 22 URL-safe
  characters. A response with the year-long cache header is a successful answer with the content of a file
  below the assets directory (or below \<^verbatim>\<open>admin/assets\<close> of the bundle, on a path that leaves the mount point and enters it again), never the
  application shell, whatever dots the path has; and every read of a path outside the assets gets the shell, not to be stored.
\<close>

theorem admin_app_responses:
  assumes "quiet d" "run_state (admin_app d r) s = (w, s')"
  shows "entropy_err s (draws s) \<noteq> None \<and> Status w = 500 \<or>
    (\<exists>nonce. length nonce = 22 \<and> list_all unreserved nonce \<and> map_of (RespHeaders w) ''Content-Security-Policy'' = Some (csp_policy nonce)) \<and>
    (map_of (RespHeaders w) ''Cache-Control'' = Some immutable \<longrightarrow> 200 \<le> Status w \<and> Status w < 300 \<and>
       (\<exists>n. asset_name n \<and> n \<noteq> ''index.html'' \<and> node_of d n = Some File \<and> Body w = Body (serveContent d r n))) \<and>
    ((Method r = ''GET'' \<or> Method r = ''HEAD'') \<and> \<not> strings_HasPrefix (URL_Path r) ''/admin/assets/'' \<longrightarrow>
       map_of (RespHeaders w) ''Cache-Control'' = Some ''no-store'' \<and> Body w = PlainText (readIndexHTML d))"
proof (cases "entropy_err s (draws s)")
  case (Some e)
  with assms(2) show ?thesis by (auto simp: admin_app_def AdminCSP_def run_simps http_Error_def)
next
  case None
  define nonce where "nonce = RawURLEncoding (map (\<lambda>c. of_char c) (map (entropy s (draws s)) [0..<16]))"
  let ?u = "adminui_Handler d r"
  have w: "w = ?u\<lparr>RespHeaders := RespHeaders ?u @ [(''Content-Security-Policy'', csp_policy nonce)]\<rparr>"
    using None assms(2) by (auto simp: admin_app_def AdminCSP_def run_simps nonce_def Let_def comp_def)
  have "length nonce = 22" "list_all unreserved nonce" by (simp_all add: nonce_def length_RawURLEncoding RawURLEncoding_unreserved)
  moreover have "map_of (RespHeaders w) ''Content-Security-Policy'' = Some (csp_policy nonce)"
    using adminui_no_csp[OF assms(1), of r] by (simp add: w map_add_def)
  moreover have cc: "map_of (RespHeaders w) ''Cache-Control'' = map_of (RespHeaders ?u) ''Cache-Control''"
    by (simp add: w map_add_def split: option.split)
  moreover have "n \<noteq> ''index.html''" if "asset_name n" for n using that by (auto simp: asset_name_def HasPrefix_iff)
  moreover have "map_of (RespHeaders ?u) ''Cache-Control'' = Some ''no-store'' \<and> Body ?u = PlainText (readIndexHTML d)"
    if "Method r = ''GET'' \<or> Method r = ''HEAD''" "\<not> strings_HasPrefix (URL_Path r) ''/admin/assets/''"
    using that by (auto simp: adminui_Handler_def assetURLPrefix_def serveIndex_def)
  ultimately show ?thesis using adminui_immutable[OF assms(1), of r] by (auto simp: w)
qed

section \<open>Instances\<close>

text \<open>A bundle of a shell and one script.\<close>

definition sample_dist :: dist where
  "sample_dist = \<lparr>node_of = map_of [(''.'', Directory), (''index.html'', File), (''assets'', Directory), (''assets/app.js'', File)],
     index_html = Some ''<html></html>'',
     serveContent = (\<lambda>r n. \<lparr>Status = 200, RespHeaders = [(''Content-Type'', ''text/plain'')], SetCookies = [], Body = PlainText n\<rparr>),
     dirList = (\<lambda>n. \<lparr>Status = 200, RespHeaders = [], SetCookies = [], Body = PlainText n\<rparr>)\<rparr>"

definition sample_get :: "string \<Rightarrow> request" where
  "sample_get path = \<lparr>Method = ''GET'', URL_Path = path, URL_RawPath = [], Header = (\<lambda>_. []), Query = [], Cookies = [], RemoteAddr = ''10.0.0.1:4000'',
     URLParam = (\<lambda>_. []), BasicAuth = None, ReqBody = [], ctx_operator = None\<rparr>"

lemma sample_quiet: "quiet sample_dist"
  by (simp add: quiet_def sample_dist_def)

text \<open>The script is served to be cached; a path that climbs out of the assets is not found.\<close>

lemma sample_paths:
  "Status (adminui_Handler sample_dist (sample_get ''/admin/assets/x/../app.js'')) = 200 \<and>
   map_of (RespHeaders (adminui_Handler sample_dist (sample_get ''/admin/assets/x/../app.js''))) ''Cache-Control'' = Some immutable \<and>
   Status (adminui_Handler sample_dist (sample_get ''/admin/assets/../index.html'')) = 404"
  by code_simp

theorem admin_app_responses_witness:
  "\<exists>w s' nonce. run_state (admin_app sample_dist (sample_get ''/admin/accounts'')) sample = (w, s') \<and> length nonce = 22 \<and>
     map_of (RespHeaders w) ''Content-Security-Policy'' = Some (csp_policy nonce) \<and> map_of (RespHeaders w) ''Cache-Control'' = Some ''no-store''"
proof -
  obtain w s' where run: "run_state (admin_app sample_dist (sample_get ''/admin/accounts'')) sample = (w, s')" by fastforce
  have "Method (sample_get ''/admin/accounts'') = ''GET''" "\<not> strings_HasPrefix (URL_Path (sample_get ''/admin/accounts'')) ''/admin/assets/''"
    by (simp_all add: sample_get_def strings_HasPrefix_def)
  with admin_app_responses[OF sample_quiet run] run show ?thesis by auto
qed

end
