(* ===== verification/Net_Url.thy ===== *)
theory Net_Url
  imports Http
begin

text \<open>
  What the service uses of \<^verbatim>\<open>net\<close>, \<^verbatim>\<open>net/netip\<close> and \<^verbatim>\<open>net/url\<close>: \<^verbatim>\<open>net.ParseIP\<close>, \<^verbatim>\<open>net.SplitHostPort\<close>,
  \<^verbatim>\<open>url.Parse\<close> and the methods \<^verbatim>\<open>Hostname\<close> and \<^verbatim>\<open>Port\<close>, as executable functions, errors as \<open>None\<close>. An
  authority may hold one colon outside brackets, as the library demands by default since Go 1.26.
  The closing lemmas compute \<^verbatim>\<open>url.Parse\<close> on the origins \<^verbatim>\<open>scheme://host[:port]\<close> that browsers send.
\<close>

section \<open>IP addresses\<close>

text \<open>\<^verbatim>\<open>netip.parseIPv4Fields\<close>: four decimal octets without leading zeros.\<close>

definition is_octet :: "string \<Rightarrow> bool" where
  "is_octet p \<longleftrightarrow> p \<noteq> [] \<and> list_all is_digit p \<and> digits_value p \<le> 255 \<and> (hd p = CHR ''0'' \<longrightarrow> p = ''0'')"

definition is_ipv4 :: "string \<Rightarrow> bool" where
  "is_ipv4 s \<longleftrightarrow> (let ps = strings_Split s CHR ''.'' in length ps = 4 \<and> list_all is_octet ps)"

definition is_hex_char :: "char \<Rightarrow> bool" where
  "is_hex_char c \<longleftrightarrow> (let n = (of_char c :: nat) in
     (48 \<le> n \<and> n \<le> 57) \<or> (65 \<le> n \<and> n \<le> 70) \<or> (97 \<le> n \<and> n \<le> 102))"

text \<open>
  The loop of \<^verbatim>\<open>netip.parseIPv6\<close> on \<open>i\<close> bytes filled and the rest of the text; \<open>ell\<close> says that the
  ellipsis was seen. The checks behind the loop: no garbage left, and an ellipsis exactly when
  fewer than 16 bytes are filled.
\<close>

definition ipv6_end :: "nat \<Rightarrow> bool \<Rightarrow> string \<Rightarrow> bool" where
  "ipv6_end i ell s \<longleftrightarrow> s = [] \<and> (if i < 16 then ell else \<not> ell)"

function ipv6_fields :: "nat \<Rightarrow> bool \<Rightarrow> string \<Rightarrow> bool" where
  "ipv6_fields i ell s =
    (if 16 \<le> i then ipv6_end i ell s
     else (let grp = takeWhile is_hex_char s; rest = dropWhile is_hex_char s in
       if grp = [] \<or> 4 < length grp then False
       else case rest of
           [] \<Rightarrow> ipv6_end (i + 2) ell []
         | c # cs \<Rightarrow>
             if c = CHR ''.'' then (ell \<or> i = 12) \<and> i + 4 \<le> 16 \<and> is_ipv4 s \<and> ipv6_end (i + 4) ell []
             else if c \<noteq> CHR '':'' \<or> cs = [] then False
             else if hd cs = CHR '':'' then
               (if ell then False else if tl cs = [] then ipv6_end (i + 2) True [] else ipv6_fields (i + 2) True (tl cs))
             else ipv6_fields (i + 2) ell cs))"
  by pat_completeness auto
termination by (relation "measure (\<lambda>(i, _, _). 16 - i)") auto

declare ipv6_fields.simps [simp del]

definition is_ipv6 :: "string \<Rightarrow> bool" where
  "is_ipv6 s \<longleftrightarrow> (if strings_HasPrefix s ''::'' then (let t = drop 2 s in t = [] \<or> ipv6_fields 0 True t)
     else ipv6_fields 0 False s)"

text \<open>\<^verbatim>\<open>netip.ParseAddr\<close>: the first of the three separators decides. \<^verbatim>\<open>net.ParseIP\<close> refuses zones.\<close>

definition is_v6_addr :: "string \<Rightarrow> bool" where
  "is_v6_addr s \<longleftrightarrow> (case dropWhile (\<lambda>c. c \<noteq> CHR ''.'' \<and> c \<noteq> CHR '':'' \<and> c \<noteq> CHR ''%'') s of
     [] \<Rightarrow> False
   | c # _ \<Rightarrow> c = CHR '':'' \<and> (CHR ''%'' \<in> set s \<longrightarrow> after_sep CHR ''%'' s \<noteq> []) \<and> is_ipv6 (before_sep CHR ''%'' s))"

definition net_ParseIP :: "string \<Rightarrow> bool" where
  "net_ParseIP s \<longleftrightarrow> (case dropWhile (\<lambda>c. c \<noteq> CHR ''.'' \<and> c \<noteq> CHR '':'' \<and> c \<noteq> CHR ''%'') s of
     [] \<Rightarrow> False
   | c # _ \<Rightarrow> if c = CHR ''.'' then is_ipv4 s else is_v6_addr s \<and> CHR ''%'' \<notin> set s)"

section \<open>Host and port\<close>

text \<open>The text before and after the last occurrence of a byte.\<close>

definition before_last :: "char \<Rightarrow> string \<Rightarrow> string" where
  "before_last c s = rev (after_sep c (rev s))"

definition after_last :: "char \<Rightarrow> string \<Rightarrow> string" where
  "after_last c s = rev (before_sep c (rev s))"

text \<open>\<^verbatim>\<open>net.SplitHostPort\<close>: a bracketed host must end right before the last colon.\<close>

definition net_SplitHostPort :: "string \<Rightarrow> (string \<times> string) option" where
  "net_SplitHostPort hp =
    (if CHR '':'' \<notin> set hp then None
     else if hd hp = CHR ''['' then
       (if CHR '']'' \<notin> set hp then None
        else let host = before_sep CHR '']'' (tl hp); rest = after_sep CHR '']'' hp in
          if rest = [] \<or> hd rest \<noteq> CHR '':'' \<or> CHR '':'' \<in> set (tl rest) \<or>
             CHR ''['' \<in> set (tl hp) \<or> CHR '']'' \<in> set rest
          then None else Some (host, tl rest))
     else let host = before_last CHR '':'' hp in
       if CHR '':'' \<in> set host \<or> CHR ''['' \<in> set hp \<or> CHR '']'' \<in> set hp then None
       else Some (host, after_last CHR '':'' hp))"

section \<open>URLs\<close>

record URL =
  U_Scheme :: string
  U_Host :: string
  U_Path :: string
  U_RawQuery :: string
  U_Fragment :: string

datatype encoding = encodePath | encodeHost | encodeZone | encodeUserPassword | encodeFragment

text \<open>The bytes \<^verbatim>\<open>shouldEscape\<close> lets stand in a host.\<close>

definition host_char :: "char \<Rightarrow> bool" where
  "host_char c \<longleftrightarrow> unreserved c \<or> c \<in> set ''!$&()*+,;=:[]<>'' \<or> c = CHR 0x27 \<or> c = CHR 0x22"

definition unhex :: "char \<Rightarrow> nat" where
  "unhex c = (let n = (of_char c :: nat) in if n \<le> 57 then n - 48 else if n \<le> 70 then n - 55 else n - 87)"

definition escape_ok :: "encoding \<Rightarrow> char \<Rightarrow> char \<Rightarrow> bool" where
  "escape_ok mode a b \<longleftrightarrow> is_hex_char a \<and> is_hex_char b \<and>
     ([a, b] = ''25'' \<or>
      (mode = encodeHost \<longrightarrow> 8 \<le> unhex a) \<and>
      (mode = encodeZone \<longrightarrow> (let v = char_of (16 * unhex a + unhex b) in v = CHR '' '' \<or> host_char v)))"

fun unescape :: "encoding \<Rightarrow> string \<Rightarrow> string option" where
  "unescape mode [] = Some []"
| "unescape mode (c # cs) =
    (if c = CHR ''%'' then
       (case cs of
          a # b # ds \<Rightarrow> if escape_ok mode a b then map_option ((#) (char_of (16 * unhex a + unhex b))) (unescape mode ds) else None
        | _ \<Rightarrow> None)
     else if (mode = encodeHost \<or> mode = encodeZone) \<and> (of_char c :: nat) < 128 \<and> \<not> host_char c then None
     else map_option ((#) c) (unescape mode cs))"

definition is_letter :: "char \<Rightarrow> bool" where
  "is_letter c \<longleftrightarrow> (let n = (of_char c :: nat) in (65 \<le> n \<and> n \<le> 90) \<or> (97 \<le> n \<and> n \<le> 122))"

definition scheme_char :: "char \<Rightarrow> bool" where
  "scheme_char c \<longleftrightarrow> is_letter c \<or> is_digit c \<or> c \<in> {CHR ''+'', CHR ''-'', CHR ''.''}"

text \<open>\<^verbatim>\<open>getScheme\<close>: scheme and rest; a colon in front is an error.\<close>

definition getScheme :: "string \<Rightarrow> (string \<times> string) option" where
  "getScheme raw =
    (let sch = takeWhile scheme_char raw; rest = dropWhile scheme_char raw in
     if sch = [] then (if rest \<noteq> [] \<and> hd rest = CHR '':'' then None else Some ([], raw))
     else if rest \<noteq> [] \<and> hd rest = CHR '':'' \<and> is_letter (hd sch) then Some (sch, tl rest)
     else Some ([], raw))"

definition validOptionalPort :: "string \<Rightarrow> bool" where
  "validOptionalPort port \<longleftrightarrow> port = [] \<or> hd port = CHR '':'' \<and> list_all is_digit (tl port)"

text \<open>The position-free form of \<^verbatim>\<open>strings.Index(s, sub)\<close>: the text before and from the first match.\<close>

fun split_at_sub :: "string \<Rightarrow> string \<Rightarrow> (string \<times> string) option" where
  "split_at_sub sub [] = (if sub = [] then Some ([], []) else None)"
| "split_at_sub sub (c # cs) = (if strings_HasPrefix (c # cs) sub then Some ([], c # cs)
     else map_option (\<lambda>(a, b). (c # a, b)) (split_at_sub sub cs))"

definition parse_ip_literal :: "string \<Rightarrow> string option" where
  "parse_ip_literal host =
    (if CHR '']'' \<notin> set host then None
     else let colonPort = after_last CHR '']'' host; hostname = tl (before_last CHR '']'' host) in
       if \<not> validOptionalPort colonPort then None
       else case unescape encodeHost colonPort of None \<Rightarrow> None | Some cp \<Rightarrow>
         (case (case split_at_sub ''%25'' hostname of
                  Some (h, z) \<Rightarrow> (case (unescape encodeHost h, unescape encodeZone z) of
                      (Some h', Some z') \<Rightarrow> Some (h' @ z') | _ \<Rightarrow> None)
                | None \<Rightarrow> unescape encodeHost hostname) of
            None \<Rightarrow> None
          | Some hn \<Rightarrow> if is_v6_addr hn then Some (''['' @ hn @ '']'' @ cp) else None))"

definition parseHost :: "string \<Rightarrow> string option" where
  "parseHost host =
    (if CHR ''['' \<in> set host then
       (if hd host = CHR ''['' \<and> CHR ''['' \<notin> set (tl host) then parse_ip_literal host else None)
     else if \<not> validOptionalPort (dropWhile (\<lambda>c. c \<noteq> CHR '':'') host) then None
     else unescape encodeHost host)"

definition validUserinfo :: "string \<Rightarrow> bool" where
  "validUserinfo s \<longleftrightarrow> list_all (\<lambda>c. unreserved c \<or> c \<in> set '':!$&()*+,;=%@'' \<or> c = CHR 0x27) s"

definition parseAuthority :: "string \<Rightarrow> string option" where
  "parseAuthority a =
    (if CHR ''@'' \<notin> set a then parseHost a
     else let userinfo = before_last CHR ''@'' a in
       if validUserinfo userinfo \<and> unescape encodeUserPassword userinfo \<noteq> None then parseHost (after_last CHR ''@'' a) else None)"

text \<open>\<^verbatim>\<open>parse(rawURL, false)\<close> behind the scheme and the query.\<close>

definition parse_hier :: "string \<Rightarrow> string \<Rightarrow> string \<Rightarrow> URL option" where
  "parse_hier sch rest rawQuery =
    (if \<not> strings_HasPrefix rest ''/'' \<and> sch \<noteq> [] then
       Some \<lparr>U_Scheme = sch, U_Host = [], U_Path = [], U_RawQuery = rawQuery, U_Fragment = []\<rparr>
     else if \<not> strings_HasPrefix rest ''/'' \<and> CHR '':'' \<in> set (before_sep CHR ''/'' rest) then None
     else if (sch \<noteq> [] \<or> \<not> strings_HasPrefix rest ''///'') \<and> strings_HasPrefix rest ''//'' then
       (let authority = before_sep CHR ''/'' (drop 2 rest); path = dropWhile (\<lambda>c. c \<noteq> CHR ''/'') (drop 2 rest) in
        case (parseAuthority authority, unescape encodePath path) of
          (Some host, Some p) \<Rightarrow> Some \<lparr>U_Scheme = sch, U_Host = host, U_Path = p, U_RawQuery = rawQuery, U_Fragment = []\<rparr>
        | _ \<Rightarrow> None)
     else case unescape encodePath rest of
         None \<Rightarrow> None
       | Some p \<Rightarrow> Some \<lparr>U_Scheme = sch, U_Host = [], U_Path = p, U_RawQuery = rawQuery, U_Fragment = []\<rparr>)"

definition is_ctl :: "char \<Rightarrow> bool" where
  "is_ctl c \<longleftrightarrow> (of_char c :: nat) < 32 \<or> (of_char c :: nat) = 127"

definition url_parse :: "string \<Rightarrow> URL option" where
  "url_parse raw =
    (if list_ex is_ctl raw then None
     else if raw = ''*'' then Some \<lparr>U_Scheme = [], U_Host = [], U_Path = ''*'', U_RawQuery = [], U_Fragment = []\<rparr>
     else case getScheme raw of
         None \<Rightarrow> None
       | Some (sch, rest) \<Rightarrow> parse_hier (strings_ToLower sch) (before_sep CHR ''?'' rest) (after_sep CHR ''?'' rest))"

definition url_Parse :: "string \<Rightarrow> URL option" where
  "url_Parse raw =
    (case url_parse (before_sep CHR ''#'' raw) of
       None \<Rightarrow> None
     | Some u \<Rightarrow> map_option (\<lambda>f. u\<lparr>U_Fragment := f\<rparr>) (unescape encodeFragment (after_sep CHR ''#'' raw)))"

text \<open>\<^verbatim>\<open>u.Hostname()\<close> and \<^verbatim>\<open>u.Port()\<close>.\<close>

definition has_port :: "string \<Rightarrow> bool" where
  "has_port h \<longleftrightarrow> CHR '':'' \<in> set h \<and> list_all is_digit (after_last CHR '':'' h)"

definition url_Hostname :: "URL \<Rightarrow> string" where
  "url_Hostname u = (let h = (if has_port (U_Host u) then before_last CHR '':'' (U_Host u) else U_Host u) in
     if h \<noteq> [] \<and> hd h = CHR ''['' \<and> last h = CHR '']'' then butlast (tl h) else h)"

definition url_Port :: "URL \<Rightarrow> string" where
  "url_Port u = (if has_port (U_Host u) then after_last CHR '':'' (U_Host u) else [])"

section \<open>The origins a browser sends\<close>

text \<open>\<^verbatim>\<open>scheme://host\<close> with an optional port, the host a name of letters, digits and \<^verbatim>\<open>- . _ ~\<close>.\<close>

definition origin_text :: "string \<Rightarrow> string \<Rightarrow> string \<Rightarrow> string" where
  "origin_text sch host port = sch @ ''://'' @ host @ (if port = [] then [] else CHR '':'' # port)"

definition plain_origin :: "string \<Rightarrow> string \<Rightarrow> string \<Rightarrow> bool" where
  "plain_origin sch host port \<longleftrightarrow> sch \<noteq> [] \<and> list_all is_letter sch \<and> host \<noteq> [] \<and> list_all unreserved host \<and> list_all is_digit port"

lemma not_unreserved:
  "\<not> unreserved CHR ''/''" "\<not> unreserved CHR '':''" "\<not> unreserved CHR ''?''" "\<not> unreserved CHR ''#''"
  "\<not> unreserved CHR ''@''" "\<not> unreserved CHR ''[''" "\<not> unreserved CHR '']''" "\<not> unreserved CHR ''%''"
  by (simp_all add: unreserved_def)

lemma letter_unreserved: "is_letter c \<Longrightarrow> unreserved c"
  and digit_unreserved: "is_digit c \<Longrightarrow> unreserved c"
  by (auto simp: is_letter_def is_digit_def unreserved_def Let_def)

lemma letter_scheme_char: "is_letter c \<Longrightarrow> scheme_char c"
  by (simp add: scheme_char_def)

lemma unreserved_not_ctl: "unreserved c \<Longrightarrow> \<not> is_ctl c"
  by (auto simp: unreserved_def is_ctl_def Let_def)

lemma before_sep_skip: "c \<notin> set xs \<Longrightarrow> before_sep c (xs @ ys) = xs @ before_sep c ys"
  by (induction xs) (auto simp: before_sep_def)

lemma after_sep_skip: "c \<notin> set xs \<Longrightarrow> after_sep c (xs @ ys) = after_sep c ys"
  by (induction xs) (auto simp: after_sep_def)

lemma sep_absent [simp]: "c \<notin> set xs \<Longrightarrow> before_sep c xs = xs" "c \<notin> set xs \<Longrightarrow> after_sep c xs = []"
  by (induction xs) (auto simp: before_sep_def after_sep_def)

lemma sep_Cons [simp]: "before_sep c (c # xs) = []" "after_sep c (c # xs) = xs"
  by (simp_all add: before_sep_def after_sep_def)

lemma last_sep: "c \<notin> set ys \<Longrightarrow> before_last c (xs @ c # ys) = xs" "c \<notin> set ys \<Longrightarrow> after_last c (xs @ c # ys) = ys"
  by (simp_all add: before_last_def after_last_def before_sep_skip after_sep_skip)

lemma unescape_plain: "\<forall>c \<in> set s. c \<noteq> CHR ''%'' \<and> host_char c \<Longrightarrow> unescape mode s = Some s"
  by (induction s) auto

lemma host_char_plain: "unreserved c \<Longrightarrow> host_char c" "host_char CHR '':''"
  by (simp_all add: host_char_def)

lemma plain_authority:
  assumes "list_all unreserved host" "list_all is_digit port"
  shows "parseAuthority (host @ (if port = [] then [] else CHR '':'' # port)) =
    Some (host @ (if port = [] then [] else CHR '':'' # port))"
proof -
  let ?a = "host @ (if port = [] then [] else CHR '':'' # port)"
  have u: "\<forall>c \<in> set ?a. unreserved c \<or> c = CHR '':''"
    using assms by (auto simp: list_all_iff digit_unreserved)
  then have no: "CHR ''@'' \<notin> set ?a" "CHR ''['' \<notin> set ?a"
    using not_unreserved by blast+
  have colon: "CHR '':'' \<notin> set host" using assms not_unreserved by (auto simp: list_all_iff)
  then have "dropWhile (\<lambda>c. c \<noteq> CHR '':'') ?a = (if port = [] then [] else CHR '':'' # port)"
    by (subst dropWhile_append2) auto
  then have port: "validOptionalPort (dropWhile (\<lambda>c. c \<noteq> CHR '':'') ?a)"
    using assms by (simp add: validOptionalPort_def)
  have "unescape encodeHost ?a = Some ?a"
    by (rule unescape_plain) (use u host_char_plain not_unreserved in blast)
  with no port show ?thesis by (simp add: parseAuthority_def parseHost_def)
qed

lemma url_Parse_origin:
  assumes "plain_origin sch host port"
  shows "url_Parse (origin_text sch host port) = Some \<lparr>U_Scheme = strings_ToLower sch,
    U_Host = host @ (if port = [] then [] else CHR '':'' # port), U_Path = [], U_RawQuery = [], U_Fragment = []\<rparr>"
proof -
  define a where "a = host @ (if port = [] then [] else CHR '':'' # port)"
  let ?t = "origin_text sch host port"
  have t: "?t = sch @ CHR '':'' # CHR ''/'' # CHR ''/'' # a" by (simp add: origin_text_def a_def)
  have pl: "sch \<noteq> []" "\<forall>c \<in> set sch. is_letter c" "list_all unreserved host" "list_all is_digit port"
    using assms by (auto simp: plain_origin_def list_all_iff)
  have ua: "\<forall>c \<in> set a. unreserved c \<or> c = CHR '':''"
    using pl by (auto simp: a_def list_all_iff digit_unreserved)
  have ut: "\<forall>c \<in> set ?t. unreserved c \<or> c = CHR '':'' \<or> c = CHR ''/''"
    using ua pl letter_unreserved unfolding t by auto
  have no: "CHR ''#'' \<notin> set ?t" "CHR ''?'' \<notin> set a" "CHR ''/'' \<notin> set a" "CHR ''?'' \<notin> set (CHR ''/'' # CHR ''/'' # a)"
    using ut ua not_unreserved unfolding t by auto
  have ctl: "\<not> list_ex is_ctl ?t"
    using ut unreserved_not_ctl by (fastforce simp: list_ex_iff is_ctl_def)
  have tw: "takeWhile scheme_char ?t = sch" "dropWhile scheme_char ?t = CHR '':'' # CHR ''/'' # CHR ''/'' # a"
    using pl letter_scheme_char unfolding t
    by (simp_all add: takeWhile_append2 dropWhile_append2 scheme_char_def is_letter_def is_digit_def)
  have sch: "getScheme ?t = Some (sch, CHR ''/'' # CHR ''/'' # a)"
    using pl by (simp add: getScheme_def tw Let_def)
  have star: "?t \<noteq> ''*''" unfolding t using pl by (cases sch) auto
  have dw: "dropWhile (\<lambda>c. c \<noteq> CHR ''/'') a = []" using no by auto
  note q = sep_absent[OF no(4)] sep_absent[OF no(3)]
  have pa: "parseAuthority a = Some a" unfolding a_def by (rule plain_authority[OF pl(3,4)])
  have "url_parse ?t = Some \<lparr>U_Scheme = strings_ToLower sch, U_Host = a, U_Path = [], U_RawQuery = [], U_Fragment = []\<rparr>"
    using ctl star pl
    by (simp add: url_parse_def parse_hier_def strings_HasPrefix_def strings_ToLower_def sch q dw pa del: dropWhile_eq_Nil_conv)
  with no show ?thesis by (simp add: url_Parse_def a_def)
qed

lemma plain_host_parts:
  assumes "plain_origin sch host port" "U_Host u = host @ (if port = [] then [] else CHR '':'' # port)"
  shows "url_Hostname u = host" "url_Port u = port"
proof -
  have pl: "host \<noteq> []" "\<forall>c \<in> set host. unreserved c" "list_all is_digit port"
    using assms(1) by (auto simp: plain_origin_def list_all_iff)
  have no: "CHR '':'' \<notin> set host" "hd host \<noteq> CHR ''[''" "CHR '':'' \<notin> set port"
    using pl not_unreserved digit_unreserved by (auto simp: list_all_iff dest: hd_in_set)
  then show "url_Hostname u = host" "url_Port u = port"
    using pl by (auto simp: url_Hostname_def url_Port_def has_port_def assms(2) last_sep)
qed

end
