(* ===== verification/Role_Middleware.thy ===== *)
theory Role_Middleware
  imports Guard Rate_Limit
begin

text \<open>
  \<^verbatim>\<open>internal/middleware/role.go\<close>: readonly operators may only read, and log out. The middleware is a guard: it runs
  the handler exactly for a read, the logout path or an operator that is not read-only, and refuses otherwise, whatever the handler.
\<close>

definition nonGETAllowListForReadonly :: "string \<Rightarrow> bool" where
  "nonGETAllowListForReadonly path \<longleftrightarrow> path \<in> {''/api/v1/auth/logout''}"

definition role_path :: "request \<Rightarrow> string" where
  "role_path r = (let path = strings_TrimRight (URL_Path r) CHR ''/'' in if path = [] then ''/'' else path)"

definition role_denied_entry :: "request \<Rightarrow> auth_Operator \<Rightarrow> Entry" where
  "role_denied_entry r opr = new_entry (AO_ID opr) ''auth.role_denied'' ''endpoint'' (TruncateAuditField (URL_Path r))
     [(''method'', DStr (Method r)), (''role'', DStr (AO_Role opr))]"

definition RequireRole :: "'z store_scheme handler \<Rightarrow> 'z store_scheme handler" where
  "RequireRole next r =
    (if is_read_method (Method r) then next r
     else if nonGETAllowListForReadonly (role_path r) then next r
     else case OperatorFromContext r of
         None \<Rightarrow> State_Monad.return (writeError 401 ''UNAUTHORIZED'')
       | Some opr \<Rightarrow>
           if AO_Role opr = RoleReadonly then do {
             _ \<leftarrow> WriteFromRequest r (role_denied_entry r opr);
             State_Monad.return (writeError 403 ''ROLE_DENIED'') }
           else next r)"

section \<open>The gate\<close>

definition may_write :: "request \<Rightarrow> bool" where
  "may_write r \<longleftrightarrow> (case OperatorFromContext r of None \<Rightarrow> False | Some opr \<Rightarrow> AO_Role opr \<noteq> RoleReadonly)"

definition role_lets :: "request \<Rightarrow> bool" where
  "role_lets r \<longleftrightarrow> is_read_method (Method r) \<or> nonGETAllowListForReadonly (role_path r) \<or> may_write r"

definition refuse_role :: "request \<Rightarrow> ('z store_scheme, response) state" where
  "refuse_role r = (case OperatorFromContext r of
       None \<Rightarrow> State_Monad.return (writeError 401 ''UNAUTHORIZED'')
     | Some opr \<Rightarrow> do {
         _ \<leftarrow> WriteFromRequest r (role_denied_entry r opr);
         State_Monad.return (writeError 403 ''ROLE_DENIED'') })"

lemma RequireRole_alt: "RequireRole next r = (if role_lets r then next r else refuse_role r)"
  by (auto simp: RequireRole_def role_lets_def may_write_def refuse_role_def split: option.split)

lemma core_refuse_role [keep_rules]: "keeps core_db (refuse_role r)"
  unfolding refuse_role_def by (cases "OperatorFromContext r") (auto intro!: keep_rules)

interpretation role: guard RequireRole "\<lambda>s r r'. role_lets r \<and> r' = r"
proof (unfold_locales, goal_cases)
  case (1 s r)
  show ?case
  proof (cases "role_lets r")
    case True
    then show ?thesis
      by (intro disjI2 exI[of _ r] exI[of _ s] exI[of _ "\<lambda>w s. s"]) (simp add: RequireRole_alt)
  next
    case False
    then show ?thesis using keepsD[OF core_refuse_role, of r s]
      by (intro disjI1 exI[of _ "fst (run_state (refuse_role r) s)"] exI[of _ "snd (run_state (refuse_role r) s)"])
        (simp add: RequireRole_alt)
  qed
qed

end
