(* ===== verification/Routes.thy ===== *)
theory Routes
  imports Admin_UI Net_Url Role_Middleware
begin

text \<open>
  The routes \<^verbatim>\<open>cmd/server/main.go\<close> registers. An \<open>endpoint\<close> is one registration, the mounted admin application, or a fallback of the
  router or of the \<^verbatim>\<open>/api/v1\<close> subrouter. The third-party router \<^verbatim>\<open>chi\<close> is an argument of type \<open>matcher\<close>, from a request to an endpoint
  and its URL parameters; what is used of it is \<open>matches_routes\<close>, and \<open>first_match\<close> is a router that satisfies it. The lemma
  \<open>logout_path\<close>: the role check and the router agree on the one path that read-only operators may post to, also when the path is escaped.
\<close>

section \<open>Routes\<close>

datatype endpoint =
    E_Health | E_Auth | E_Login | E_Callback
  | E_Whoami | E_Logout
  | E_Keys_Create | E_Keys_List | E_Keys_Get | E_Keys_Delete
  | E_Components_Create | E_Components_List | E_Components_GetOne | E_Components_Update | E_Components_Delete
  | E_Accounts_Create | E_Accounts_List | E_Accounts_Get | E_Accounts_Update | E_Accounts_Delete
  | E_Accounts_ListKeys | E_Accounts_IssueKey
  | E_Audit_List
  | E_Operators_List | E_Operators_Create | E_Operators_Update
  | E_Api_NotFound | E_Api_MethodNotAllowed
  | E_Admin | E_NotFound | E_MethodNotAllowed

definition api_routes :: "(string \<times> string \<times> endpoint) list" where
  "api_routes = [
     (''GET'', ''/auth/whoami'', E_Whoami), (''POST'', ''/auth/logout'', E_Logout),
     (''POST'', ''/keys'', E_Keys_Create), (''GET'', ''/keys'', E_Keys_List), (''GET'', ''/keys/{id}'', E_Keys_Get),
     (''DELETE'', ''/keys/{id}'', E_Keys_Delete),
     (''POST'', ''/components'', E_Components_Create), (''GET'', ''/components'', E_Components_List),
     (''GET'', ''/components/{name}'', E_Components_GetOne), (''PATCH'', ''/components/{name}'', E_Components_Update),
     (''DELETE'', ''/components/{name}'', E_Components_Delete),
     (''POST'', ''/accounts'', E_Accounts_Create), (''GET'', ''/accounts'', E_Accounts_List), (''GET'', ''/accounts/{id}'', E_Accounts_Get),
     (''PATCH'', ''/accounts/{id}'', E_Accounts_Update), (''DELETE'', ''/accounts/{id}'', E_Accounts_Delete),
     (''GET'', ''/accounts/{id}/keys'', E_Accounts_ListKeys), (''POST'', ''/accounts/{id}/keys'', E_Accounts_IssueKey),
     (''GET'', ''/audit'', E_Audit_List),
     (''GET'', ''/operators'', E_Operators_List), (''POST'', ''/operators'', E_Operators_Create),
     (''PATCH'', ''/operators/{id}'', E_Operators_Update)]"

definition routes :: "(string \<times> string \<times> endpoint) list" where
  "routes = [(''GET'', ''/health'', E_Health), (''GET'', ''/auth'', E_Auth),
     (''GET'', ''/api/v1/auth/login/{provider}'', E_Login), (''GET'', ''/api/v1/auth/callback/{provider}'', E_Callback)] @
     map (\<lambda>(m, pat, e). (m, ''/api/v1'' @ pat, e)) api_routes"

definition public_endpoint :: "endpoint \<Rightarrow> bool" where
  "public_endpoint e \<longleftrightarrow> e \<in> {E_Health, E_Auth, E_Login, E_Callback, E_Admin, E_NotFound, E_MethodNotAllowed}"

text \<open>The method a route is registered for.\<close>

definition endpoint_method :: "endpoint \<Rightarrow> string option" where
  "endpoint_method e = map_of (map (\<lambda>(m, _, e). (e, m)) routes) e"

lemma endpoint_methods [simp]:
  "endpoint_method E_Health = Some ''GET''" "endpoint_method E_Auth = Some ''GET''" "endpoint_method E_Login = Some ''GET''"
  "endpoint_method E_Callback = Some ''GET''" "endpoint_method E_Whoami = Some ''GET''" "endpoint_method E_Logout = Some ''POST''"
  "endpoint_method E_Keys_Create = Some ''POST''" "endpoint_method E_Keys_List = Some ''GET''" "endpoint_method E_Keys_Get = Some ''GET''"
  "endpoint_method E_Keys_Delete = Some ''DELETE''" "endpoint_method E_Components_Create = Some ''POST''"
  "endpoint_method E_Components_List = Some ''GET''" "endpoint_method E_Components_GetOne = Some ''GET''"
  "endpoint_method E_Components_Update = Some ''PATCH''" "endpoint_method E_Components_Delete = Some ''DELETE''"
  "endpoint_method E_Accounts_Create = Some ''POST''" "endpoint_method E_Accounts_List = Some ''GET''" "endpoint_method E_Accounts_Get = Some ''GET''"
  "endpoint_method E_Accounts_Update = Some ''PATCH''" "endpoint_method E_Accounts_Delete = Some ''DELETE''"
  "endpoint_method E_Accounts_ListKeys = Some ''GET''" "endpoint_method E_Accounts_IssueKey = Some ''POST''"
  "endpoint_method E_Audit_List = Some ''GET''" "endpoint_method E_Operators_List = Some ''GET''" "endpoint_method E_Operators_Create = Some ''POST''"
  "endpoint_method E_Operators_Update = Some ''PATCH''" "endpoint_method E_Api_NotFound = None" "endpoint_method E_Api_MethodNotAllowed = None"
  "endpoint_method E_Admin = None" "endpoint_method E_NotFound = None" "endpoint_method E_MethodNotAllowed = None"
  by code_simp+

text \<open>
  What is used of \<^verbatim>\<open>chi\<close>: it looks at the escaped path if there is one; a request is served by a route of its method, whose pattern
  has the segments of the path, a placeholder standing for any; \<^verbatim>\<open>chi.URLParam\<close> gives what the placeholders stand for. A
  subrouter serves what its pattern is a prefix of.
\<close>

fun bind_segments :: "string list \<Rightarrow> string list \<Rightarrow> (string \<times> string) list option" where
  "bind_segments [] [] = Some []"
| "bind_segments (p # ps) (x # xs) =
    (if p \<noteq> [] \<and> hd p = CHR ''{'' then map_option (\<lambda>bs. (butlast (tl p), x) # bs) (bind_segments ps xs)
     else if p = x then bind_segments ps xs else None)"
| "bind_segments _ _ = None"

definition route_path :: "request \<Rightarrow> string" where
  "route_path r = (let p = (if URL_RawPath r \<noteq> [] then URL_RawPath r else URL_Path r) in if p = [] then ''/'' else p)"

type_synonym matcher = "request \<Rightarrow> endpoint \<times> (string \<Rightarrow> string)"

definition serves :: "request \<Rightarrow> endpoint \<Rightarrow> (string \<Rightarrow> string) \<Rightarrow> bool" where
  "serves r e ps \<longleftrightarrow> (\<exists>pat bs. (Method r, pat, e) \<in> set routes \<and>
     bind_segments (strings_Split pat CHR ''/'') (strings_Split (route_path r) CHR ''/'') = Some bs \<and>
     ps = (\<lambda>k. case map_of bs k of None \<Rightarrow> [] | Some v \<Rightarrow> v))"

definition matches_routes :: "matcher \<Rightarrow> bool" where
  "matches_routes match \<longleftrightarrow> (\<forall>r e ps. match r = (e, ps) \<longrightarrow>
     (endpoint_method e \<noteq> None \<longrightarrow> serves r e ps) \<and>
     (e \<in> {E_Api_NotFound, E_Api_MethodNotAllowed} \<longrightarrow> strings_HasPrefix (route_path r) ''/api/v1'') \<and>
     (e = E_Admin \<longrightarrow> strings_HasPrefix (route_path r) ''/admin''))"

text \<open>\<^verbatim>\<open>URL.RawPath\<close>, when set, is an encoding of \<^verbatim>\<open>URL.Path\<close>.\<close>

definition path_decoded :: "request \<Rightarrow> bool" where
  "path_decoded r \<longleftrightarrow> URL_RawPath r \<noteq> [] \<longrightarrow> unescape encodePath (URL_RawPath r) = Some (URL_Path r)"

text \<open>The text of a pattern up to the slash before its first placeholder. It is a prefix of every path the pattern serves, and
  of what such a path decodes to.\<close>

definition literal :: "string \<Rightarrow> string" where
  "literal pat = join_with ''/'' (takeWhile (\<lambda>p. p = [] \<or> hd p \<noteq> CHR ''{'') (strings_Split pat CHR ''/''))"

lemma join_Cons: "xs \<noteq> [] \<Longrightarrow> join_with sep (x # xs) = x @ sep @ join_with sep xs"
  by (cases xs) simp_all

lemma bind_literal:
  "bind_segments ps xs = Some bs \<Longrightarrow>
   strings_HasPrefix (join_with ''/'' xs) (join_with ''/'' (takeWhile (\<lambda>p. p = [] \<or> hd p \<noteq> CHR ''{'') ps))"
proof (induction ps xs arbitrary: bs rule: bind_segments.induct)
  case (2 p ps x xs)
  show ?case
  proof (cases "p \<noteq> [] \<and> hd p = CHR ''{''")
    case False
    then have eq: "p = x" and b: "bind_segments ps xs = Some bs" using 2(3) by (auto split: if_splits)
    let ?l = "takeWhile (\<lambda>p. p = [] \<or> hd p \<noteq> CHR ''{'') ps"
    have IH: "strings_HasPrefix (join_with ''/'' xs) (join_with ''/'' ?l)" using 2(2)[OF False eq b] .
    have "ps = [] \<longleftrightarrow> xs = []" using b by (cases ps; cases xs) simp_all
    then have "?l \<noteq> [] \<Longrightarrow> xs \<noteq> []" by auto
    with IH False eq show ?thesis by (cases "?l = []"; cases "xs = []") (auto simp: HasPrefix_iff join_Cons)
  qed (simp add: HasPrefix_iff)
qed (simp_all add: HasPrefix_iff)

lemma join_Split: "join_with [c] (strings_Split s c) = s"
proof (induction s)
  case (Cons a s)
  obtain x xs where x: "strings_Split s c = x # xs" using Split_not_Nil[of s c] by (cases "strings_Split s c") auto
  have "join_with [c] ((a # x) # xs) = a # join_with [c] (x # xs)" by (cases xs) simp_all
  with Cons x show ?case by (simp add: join_Cons)
qed simp

lemma unescape_prefix:
  "CHR ''%'' \<notin> set p \<Longrightarrow> unescape encodePath (p @ t) = map_option ((@) p) (unescape encodePath t)"
proof (induction p)
  case Nil
  show ?case by (cases "unescape encodePath t") simp_all
next
  case (Cons a p)
  then have "a \<noteq> CHR ''%''" by auto
  with Cons show ?case by (cases "unescape encodePath t") simp_all
qed

lemma serves_prefix:
  assumes "path_decoded r" "bind_segments (strings_Split pat CHR ''/'') (strings_Split (route_path r) CHR ''/'') = Some bs"
    and "CHR ''%'' \<notin> set (literal pat)" "URL_Path r \<noteq> []"
  shows "strings_HasPrefix (URL_Path r) (literal pat)"
proof -
  have "strings_HasPrefix (route_path r) (literal pat)"
    using bind_literal[OF assms(2)] by (simp add: literal_def join_Split)
  then obtain t where t: "route_path r = literal pat @ t" by (auto simp: HasPrefix_iff)
  show ?thesis
  proof (cases "URL_RawPath r = []")
    case True
    then show ?thesis using t assms(4) by (auto simp: route_path_def HasPrefix_iff)
  next
    case False
    then have "unescape encodePath (literal pat @ t) = Some (URL_Path r)"
      using t assms(1) by (simp add: path_decoded_def route_path_def)
    then show ?thesis using assms(3) unfolding HasPrefix_iff unescape_prefix[OF assms(3)] by (metis map_option_eq_Some)
  qed
qed

text \<open>No route but the one for logging out serves the path that read-only operators may post to, however the path is escaped.\<close>

definition apart :: "string \<Rightarrow> string \<Rightarrow> bool" where
  "apart p q \<longleftrightarrow> list_ex (\<lambda>(a, b). a \<noteq> b) (zip p q)"

lemma apart_prefix: "apart p q \<Longrightarrow> \<not> strings_HasPrefix (q @ t) p"
  by (auto simp: apart_def HasPrefix_iff list_ex_iff set_zip nth_append)
    (metis nth_append)

lemma route_literals:
  "list_all (\<lambda>(m, pat, e). CHR ''%'' \<notin> set (literal pat) \<and> (e = E_Logout \<or> apart (literal pat) ''/api/v1/auth/logout'')) routes"
  by code_simp

lemma TrimRight_append: "\<exists>t. s = strings_TrimRight s c @ t"
proof -
  have "rev s = takeWhile (\<lambda>d. d = c) (rev s) @ dropWhile (\<lambda>d. d = c) (rev s)" by simp
  then have "s = rev (dropWhile (\<lambda>d. d = c) (rev s)) @ rev (takeWhile (\<lambda>d. d = c) (rev s))" by (metis rev_append rev_rev_ident)
  then show ?thesis unfolding strings_TrimRight_def by blast
qed

lemma logout_path:
  assumes "serves r e ps" "path_decoded r" "nonGETAllowListForReadonly (role_path r)"
  shows "e = E_Logout"
proof (rule ccontr)
  assume ne: "e \<noteq> E_Logout"
  obtain pat bs where pat: "(Method r, pat, e) \<in> set routes"
      "bind_segments (strings_Split pat CHR ''/'') (strings_Split (route_path r) CHR ''/'') = Some bs"
    using assms(1) by (auto simp: serves_def)
  have lit: "CHR ''%'' \<notin> set (literal pat)" "apart (literal pat) ''/api/v1/auth/logout''"
    using route_literals pat(1) ne by (auto simp: list_all_iff)
  have "strings_TrimRight (URL_Path r) CHR ''/'' = ''/api/v1/auth/logout''"
    using assms(3) by (auto simp: nonGETAllowListForReadonly_def role_path_def Let_def split: if_splits)
  then obtain t where t: "URL_Path r = ''/api/v1/auth/logout'' @ t" using TrimRight_append[of "URL_Path r" "CHR ''/''"] by auto
  then have "strings_HasPrefix (URL_Path r) (literal pat)" using serves_prefix[OF assms(2) pat(2) lit(1)] by simp
  with apart_prefix[OF lit(2)] t show False by simp
qed

text \<open>A router with these properties.\<close>

definition first_match :: matcher where
  "first_match r =
    (let fit = (\<lambda>pat. bind_segments (strings_Split pat CHR ''/'') (strings_Split (route_path r) CHR ''/'')) in
     case find (\<lambda>(m, pat, e). m = Method r \<and> fit pat \<noteq> None) routes of
       Some (m, pat, e) \<Rightarrow> (e, \<lambda>k. case map_of (the (fit pat)) k of None \<Rightarrow> [] | Some v \<Rightarrow> v)
     | None \<Rightarrow> (if strings_HasPrefix (route_path r) ''/api/v1/'' then
           (if list_ex (\<lambda>(m, pat, e). fit pat \<noteq> None) routes then E_Api_MethodNotAllowed else E_Api_NotFound)
         else if strings_HasPrefix (route_path r) ''/admin'' then E_Admin
         else if list_ex (\<lambda>(m, pat, e). fit pat \<noteq> None) routes then E_MethodNotAllowed else E_NotFound, \<lambda>_. []))"

lemma route_methods: "(m, pat, e) \<in> set routes \<Longrightarrow> endpoint_method e = Some m"
proof -
  have "list_all (\<lambda>(m, pat, e). endpoint_method e = Some m) routes" by code_simp
  then show "(m, pat, e) \<in> set routes \<Longrightarrow> endpoint_method e = Some m" by (auto simp: list_all_iff)
qed

lemma first_match_cases:
  assumes "first_match r = (e, ps)"
  shows "serves r e ps \<or>
    endpoint_method e = None \<and> (e \<in> {E_Api_NotFound, E_Api_MethodNotAllowed} \<longrightarrow> strings_HasPrefix (route_path r) ''/api/v1'') \<and>
      (e = E_Admin \<longrightarrow> strings_HasPrefix (route_path r) ''/admin'')"
proof -
  let ?fit = "\<lambda>pat. bind_segments (strings_Split pat CHR ''/'') (strings_Split (route_path r) CHR ''/'')"
  show ?thesis
  proof (cases "find (\<lambda>(m, pat, e). m = Method r \<and> ?fit pat \<noteq> None) routes")
    case (Some x)
    then obtain m pat e' where x: "x = (m, pat, e')" "(m, pat, e') \<in> set routes" "m = Method r" "?fit pat \<noteq> None"
      using find_Some_set[OF Some] by (cases x) auto
    with Some assms have "e = e'" "ps = (\<lambda>k. case map_of (the (?fit pat)) k of None \<Rightarrow> [] | Some v \<Rightarrow> v)"
      by (simp_all add: first_match_def Let_def)
    with x show ?thesis unfolding serves_def by auto
  next
    case None
    have "strings_HasPrefix p ''/api/v1/'' \<Longrightarrow> strings_HasPrefix p ''/api/v1''" for p by (auto simp: HasPrefix_iff)
    with None assms show ?thesis by (auto simp: first_match_def Let_def split: if_splits)
  qed
qed

lemma first_match_routes: "matches_routes first_match"
proof -
  have "endpoint_method e \<noteq> None" if "serves r e ps" for r e ps using that by (auto simp: serves_def dest: route_methods)
  then show ?thesis unfolding matches_routes_def using first_match_cases by (metis endpoint_methods(27-29) insertE singletonD)
qed

end
