(* ===== verification/OAuth_State.thy ===== *)
theory OAuth_State
  imports Components_Handler
begin

text \<open>
  \<^verbatim>\<open>internal/auth/state.go\<close> and \<^verbatim>\<open>oauth.go\<close>: the in-memory store of pending OAuth flows and the types
  of the provider interface. Every operation holds the mutex throughout, so each is one step. The
  interface of the store is the locale \<open>state_store\<close>: a handle is consumed at most once. The lemmas
  add that an entry older than its lifetime is never returned and that the reaper only removes
  entries \<open>Consume\<close> would refuse.
\<close>

definition StateTTL :: duration where "StateTTL = 15 * Minute"

record StateEntry =
  SE_State :: string
  SE_CodeVerifier :: string
  SE_Provider :: string
  SE_Created :: go_time

datatype auth_sentinel = ErrStateNotFound | ErrUnverifiedEmail | ErrNoEmail | ErrNotOrgMember | ErrTokenExchange

definition ProviderGitHub :: string where "ProviderGitHub = ''github''"
definition ProviderMicrosoft :: string where "ProviderMicrosoft = ''microsoft''"

record OAuthIdentity =
  OI_Email :: string
  OI_OrgMember :: bool
  OI_ProviderUserID :: string
  OI_Provider :: string

text \<open>A provider: its name, its authorise URL, and what \<^verbatim>\<open>Exchange\<close> returns for a code and verifier.
  \<open>None\<close> as an error is one that wraps no sentinel.\<close>

record OAuthProvider =
  OP_Name :: string
  OP_AuthorizeURL :: "string \<Rightarrow> string \<Rightarrow> string"
  OP_Exchange :: "string \<Rightarrow> string \<Rightarrow> auth_sentinel option + OAuthIdentity"

record service = fs +
  state_entries :: "(string \<times> StateEntry) list"

section \<open>Operations\<close>

definition set_state_entries :: "(string \<times> StateEntry) list \<Rightarrow> ('z service_scheme, unit) state" where
  "set_state_entries es = State (\<lambda>s. ((), s\<lparr>state_entries := es\<rparr>))"

definition Put :: "string \<Rightarrow> StateEntry \<Rightarrow> ('z service_scheme, unit) state" where
  "Put handle entry = do {
     e \<leftarrow> (if SE_Created entry = zero_time then do { now \<leftarrow> time_Now; State_Monad.return (entry\<lparr>SE_Created := now\<rparr>) }
           else State_Monad.return entry);
     s \<leftarrow> State_Monad.get;
     set_state_entries (AList.update handle e (state_entries s)) }"

definition Consume :: "string \<Rightarrow> ('z service_scheme, auth_sentinel + StateEntry) state" where
  "Consume handle = do {
     s \<leftarrow> State_Monad.get;
     case map_of (state_entries s) handle of
       None \<Rightarrow> State_Monad.return (Inl ErrStateNotFound)
     | Some e \<Rightarrow> do {
         _ \<leftarrow> set_state_entries (AList.delete handle (state_entries s));
         now \<leftarrow> time_Now;
         State_Monad.return (if StateTTL < time_Sub now (SE_Created e) then Inl ErrStateNotFound else Inr e) } }"

definition state_reap :: "('z service_scheme, unit) state" where
  "state_reap = do {
     now \<leftarrow> time_Now;
     s \<leftarrow> State_Monad.get;
     let cutoff = now - StateTTL;
     set_state_entries (filter (\<lambda>(_, v). \<not> SE_Created v < cutoff) (state_entries s)) }"

text \<open>\<^verbatim>\<open>reapLoop\<close>, for the number of ticks before its context is done.\<close>

fun state_reapLoop :: "nat \<Rightarrow> ('z service_scheme, unit) state" where
  "state_reapLoop 0 = State_Monad.return ()"
| "state_reapLoop (Suc n) = do { _ \<leftarrow> state_reap; state_reapLoop n }"

definition RandomHex :: "nat \<Rightarrow> ('z env_scheme, string + string) state" where
  "RandomHex n = do {
     r \<leftarrow> rand_Read n;
     State_Monad.return (case r of Inl e \<Rightarrow> Inl e | Inr b \<Rightarrow> Inr (hex_EncodeToString b)) }"

section \<open>Facts\<close>

lemma run_set_state_entries [run_simps]: "run_state (set_state_entries es) s = ((), s\<lparr>state_entries := es\<rparr>)"
  by (simp add: set_state_entries_def)

lemma run_Put:
  "run_state (Put h e) s =
    (if SE_Created e = zero_time
     then ((), s\<lparr>clock_reads := Suc (clock_reads s),
            state_entries := AList.update h (e\<lparr>SE_Created := clock s (clock_reads s)\<rparr>) (state_entries s)\<rparr>)
     else ((), s\<lparr>state_entries := AList.update h e (state_entries s)\<rparr>))"
  by (simp add: Put_def run_simps)

lemma run_Consume:
  "run_state (Consume h) s = (case map_of (state_entries s) h of
       None \<Rightarrow> (Inl ErrStateNotFound, s)
     | Some e \<Rightarrow> (if StateTTL < time_Sub (clock s (clock_reads s)) (SE_Created e) then Inl ErrStateNotFound else Inr e,
         s\<lparr>state_entries := AList.delete h (state_entries s), clock_reads := Suc (clock_reads s)\<rparr>))"
  by (simp add: Consume_def run_simps split: option.split)

lemma run_state_reap:
  "run_state state_reap s = ((), s\<lparr>clock_reads := Suc (clock_reads s),
     state_entries := filter (\<lambda>(_, v). \<not> SE_Created v < clock s (clock_reads s) - StateTTL) (state_entries s)\<rparr>)"
  by (simp add: state_reap_def run_simps Let_def)

lemma keeps_state_db [keep_rules]:
  "keeps db (Put h e)" "keeps db (Consume h)" "keeps db state_reap"
  by (auto simp: keeps_def run_Put run_Consume run_state_reap split: option.split)

lemma RandomHex_keeps [keep_rules]: "keeps db (RandomHex n)"
  unfolding RandomHex_def by (intro keep_rules) auto

text \<open>
  The contract the login and callback handlers rely on: what \<open>held\<close> says is stored is returned at
  most once, and nothing is returned that is not held.
\<close>

locale state_store =
  fixes put :: "string \<Rightarrow> 'e \<Rightarrow> ('s, unit) state"
    and consume :: "string \<Rightarrow> ('s, 'x + 'e) state"
    and held :: "'s \<Rightarrow> string \<Rightarrow> 'e option"
  assumes consume_held: "run_state (consume h) s = (Inr e, s') \<Longrightarrow> held s h = Some e"
    and consume_removes: "run_state (consume h) s = (r, s') \<Longrightarrow> held s' h = None"
    and consume_other: "run_state (consume h) s = (r, s') \<Longrightarrow> h' \<noteq> h \<Longrightarrow> held s' h' = held s h'"
    and put_other: "run_state (put h e) s = (u, s') \<Longrightarrow> h' \<noteq> h \<Longrightarrow> held s' h' = held s h'"
begin

text \<open>Once consumed, a handle stays unusable until it is put again.\<close>

lemma consume_twice:
  assumes "run_state (consume h) s = (r, s')" "run_state (consume h) s' = (r', s'')"
  shows "isl r'"
proof (cases r')
  case (Inr e)
  then have "held s' h = Some e" using consume_held assms(2) by blast
  with consume_removes[OF assms(1)] show ?thesis by simp
qed simp

inductive others :: "string \<Rightarrow> 's \<Rightarrow> 's \<Rightarrow> bool" for h where
  others_refl: "others h s s"
| others_consume: "others h s s' \<Longrightarrow> run_state (consume h') s' = (r, s'') \<Longrightarrow> others h s s''"
| others_put: "others h s s' \<Longrightarrow> h' \<noteq> h \<Longrightarrow> run_state (put h' e) s' = (u, s'') \<Longrightarrow> others h s s''"

lemma unheld_stays: "others h s s' \<Longrightarrow> held s h = None \<Longrightarrow> held s' h = None"
proof (induction rule: others.induct)
  case (others_consume s s' h' r s'')
  then show ?case using consume_removes consume_other by metis
next
  case (others_put s s' h' e u s'')
  then show ?case using put_other by metis
qed simp

lemma consumed_once:
  assumes "run_state (consume h) s = (r, s')" "others h s' s2" "run_state (consume h) s2 = (r', s3)"
  shows "isl r'"
proof (cases r')
  case (Inr e)
  then have "held s2 h = Some e" using consume_held assms(3) by blast
  with unheld_stays[OF assms(2) consume_removes[OF assms(1)]] show ?thesis by simp
qed simp

end

interpretation flows: state_store Put Consume "\<lambda>s h. map_of (state_entries s) h"
  by unfold_locales (auto simp: run_Consume run_Put cache_map_simps split: option.splits if_splits)

end
