(* ===== verification/Session_Middleware.thy ===== *)
theory Session_Middleware
  imports Guard Sample_State
begin

text \<open>
  \<^verbatim>\<open>internal/middleware/session.go\<close>: the session gate of the admin API. \<open>admits\<close> is its specification:
  the cookie names a session row that is inside both lifetimes at the gate's clock reading, and the
  row's operator is active. The lemmas: the wrapped handler runs only then, with the operator of that
  row in its context; an expired session is answered 401 and its row deleted; the idle window moves
  only after a success and never backwards.
\<close>

section \<open>Cookies\<close>

definition SessionCookieName :: string where
  "SessionCookieName = ''packyard_session''"

definition clearSessionCookie :: cookie where
  "clearSessionCookie = \<lparr>Ck_Name = SessionCookieName, Ck_Value = [], Ck_Path = ''/'', Ck_MaxAge = -1, Ck_Expires = None,
     Ck_HttpOnly = True, Ck_Secure = True, Ck_SameSite = ''Strict''\<rparr>"

definition IssueSessionCookie :: "string \<Rightarrow> go_time \<Rightarrow> cookie" where
  "IssueSessionCookie sessionID expires = \<lparr>Ck_Name = SessionCookieName, Ck_Value = sessionID, Ck_Path = ''/'',
     Ck_MaxAge = 0, Ck_Expires = Some expires, Ck_HttpOnly = True, Ck_Secure = True, Ck_SameSite = ''Strict''\<rparr>"

section \<open>The tracking writer\<close>

record touchTrackingWriter =
  tw_status :: nat
  tw_wroteHeader :: bool
  tw_explicitlySet :: bool

definition tw_new :: touchTrackingWriter where
  "tw_new = \<lparr>tw_status = 0, tw_wroteHeader = False, tw_explicitlySet = False\<rparr>"

definition tw_WriteHeader :: "nat \<Rightarrow> touchTrackingWriter \<Rightarrow> touchTrackingWriter" where
  "tw_WriteHeader code t = (if tw_wroteHeader t then t
     else t\<lparr>tw_status := code, tw_wroteHeader := True, tw_explicitlySet := True\<rparr>)"

definition tw_Write :: "touchTrackingWriter \<Rightarrow> touchTrackingWriter" where
  "tw_Write t = (if tw_wroteHeader t then t else t\<lparr>tw_status := 200, tw_wroteHeader := True\<rparr>)"

text \<open>Every handler of the service commits its status with \<^verbatim>\<open>WriteHeader\<close> and then writes its body, if any.\<close>

definition tw_after :: "response \<Rightarrow> touchTrackingWriter" where
  "tw_after w = (let t = tw_WriteHeader (Status w) tw_new in if Body w = NoBody then t else tw_Write t)"

definition tw_accepted :: "touchTrackingWriter \<Rightarrow> bool" where
  "tw_accepted t \<longleftrightarrow> tw_explicitlySet t \<and> 200 \<le> tw_status t \<and> tw_status t < 400"

section \<open>The middleware\<close>

definition refuse_session :: "string \<Rightarrow> response" where
  "refuse_session code = with_cookie clearSessionCookie (writeError 401 code)"

definition expired :: "go_time \<Rightarrow> Session \<Rightarrow> bool" where
  "expired nowTime sess \<longleftrightarrow> Sess_ExpiresAt sess < nowTime \<or>
     SessionIdleLifetime < time_Sub nowTime (Sess_LastSeenAt sess)"

definition touch_if_accepted :: "string \<Rightarrow> go_time \<Rightarrow> response \<Rightarrow> ('z store_scheme, response) state" where
  "touch_if_accepted sid nowTime w = do {
     _ \<leftarrow> (if tw_accepted (tw_after w) then TouchSession sid nowTime else State_Monad.return (Inr ()));
     State_Monad.return w }"

text \<open>Delete the row, clear the cookie, answer 401.\<close>

definition drop_session :: "string \<Rightarrow> ('z store_scheme, response) state" where
  "drop_session sid = do {
     _ \<leftarrow> DeleteSession sid;
     State_Monad.return (refuse_session ''SESSION_EXPIRED'') }"

definition RequireSession :: "'z store_scheme handler \<Rightarrow> 'z store_scheme handler" where
  "RequireSession next r =
    (let cookie = (case req_Cookie r SessionCookieName of None \<Rightarrow> [] | Some v \<Rightarrow> v) in
     if cookie = [] then State_Monad.return (refuse_session ''UNAUTHORIZED'')
     else do {
       g \<leftarrow> GetSession cookie;
       case g of
         Inl e \<Rightarrow> State_Monad.return (if errors_Is e ErrSessionNotFound then refuse_session ''UNAUTHORIZED''
                 else writeError 500 ''SESSION_LOOKUP_FAILED'')
       | Inr sess \<Rightarrow> do {
           nowTime \<leftarrow> time_Now;
           if expired nowTime sess then drop_session (Sess_ID sess)
           else do {
             h \<leftarrow> GetOperator (Sess_OperatorID sess);
             case h of
               Inl e \<Rightarrow> if errors_Is e ErrOperatorNotFound then drop_session (Sess_ID sess)
                 else State_Monad.return (writeError 500 ''OPERATOR_LOOKUP_FAILED'')
             | Inr opr \<Rightarrow>
                 if Op_Status opr \<noteq> OperatorStatusActive then drop_session (Sess_ID sess)
                 else do {
                   w \<leftarrow> next (WithOperator r \<lparr>AO_ID = Op_ID opr, AO_Email = Op_Email opr, AO_Role = Op_Role opr\<rparr>);
                   touch_if_accepted (Sess_ID sess) nowTime w } } } })"

section \<open>Specification\<close>

definition in_lifetime :: "go_time \<Rightarrow> session_row \<Rightarrow> bool" where
  "in_lifetime t q \<longleftrightarrow> t \<le> parse_rfc3339 (se_expires_at q) \<and>
     time_Sub t (parse_rfc3339 (se_last_seen_at q)) \<le> SessionIdleLifetime"

definition context_operator :: "operator_row \<Rightarrow> auth_Operator" where
  "context_operator p = \<lparr>AO_ID = op_id p, AO_Email = op_email p, AO_Role = op_role p\<rparr>"

definition admits :: "'z store_scheme \<Rightarrow> request \<Rightarrow> request \<Rightarrow> bool" where
  "admits s r r' \<longleftrightarrow> (\<exists>q \<in> set (sessions (db s)). \<exists>p \<in> set (operators (db s)).
     req_Cookie r SessionCookieName = Some (se_id q) \<and> se_id q \<noteq> [] \<and> in_lifetime (clock s (clock_reads s)) q \<and>
     op_id p = se_operator_id q \<and> op_status p = ''active'' \<and> r' = WithOperator r (context_operator p))"

section \<open>The gate\<close>

lemma run_GetOperator:
  "run_state (GetOperator i) s =
    (case fault s (stmts s) of
       Some m \<Rightarrow> Inl (Wrapf ''get operator'' (SqlErr m))
     | None \<Rightarrow> (case find (\<lambda>q. op_id q = i) (operators (db s)) of
         None \<Rightarrow> Inl (Wrapf ''get operator'' (Sentinel ErrOperatorNotFound))
       | Some r \<Rightarrow> Inr (scanOperator r)),
     s\<lparr>stmts := Suc (stmts s)\<rparr>)"
  by (simp add: GetOperator_def run_sql_query_row split: option.splits)

lemma core_refusals [keep_rules]: "keeps core_db (drop_session i)"
  unfolding drop_session_def by (intro keep_rules)

lemma drop_session_status: "Status (fst (run_state (drop_session i) s)) = 401"
  by (simp add: drop_session_def run_simps refuse_session_def split: prod.splits)

lemma tw_accepted_iff: "tw_accepted (tw_after w) \<longleftrightarrow> 200 \<le> Status w \<and> Status w < 400"
  by (simp add: tw_accepted_def tw_after_def Let_def tw_WriteHeader_def tw_Write_def tw_new_def)

lemma core_touch [keep_rules]: "keeps core_db (touch_if_accepted i t w)"
  unfolding touch_if_accepted_def by (intro keep_rules)

lemma fst_touch [simp]: "fst (run_state (touch_if_accepted i t w) s) = w"
  by (simp add: touch_if_accepted_def run_simps split: prod.splits)

text \<open>
  The two outcomes of the gate. A rejection does not depend on the wrapped handler.
\<close>

definition rejects :: "'z store_scheme \<Rightarrow> request \<Rightarrow> bool" where
  "rejects s r \<longleftrightarrow> (\<exists>w s'. core_db s' = core_db s \<and> (Status w = 401 \<or> Status w = 500) \<and>
     (\<forall>next. run_state (RequireSession next r) s = (w, s')))"

lemma rejectsI:
  assumes "\<And>next. run_state (RequireSession next r) s = run_state m s0" "keeps core_db m" "core_db s0 = core_db s"
    and "Status (fst (run_state m s0)) = 401 \<or> Status (fst (run_state m s0)) = 500"
  shows "rejects s r"
  unfolding rejects_def using assms keepsD[OF assms(2), of s0]
  by (intro exI[of _ "fst (run_state m s0)"] exI[of _ "snd (run_state m s0)"]) simp


lemma expired_scan: "expired t (scanSession q) \<longleftrightarrow> \<not> in_lifetime t q"
  by (auto simp: expired_def in_lifetime_def)

lemma RequireSession_cases:
  obtains (rejected) "rejects s r"
  | (accepted) q p s1 where "req_Cookie r SessionCookieName = Some (se_id q)" "se_id q \<noteq> []"
      "q \<in> set (sessions (db s))" "in_lifetime (clock s (clock_reads s)) q"
      "p \<in> set (operators (db s))" "op_id p = se_operator_id q" "op_status p = ''active''" "db s1 = db s"
      "\<And>next. run_state (RequireSession next r) s =
        run_state (do { w \<leftarrow> next (WithOperator r (context_operator p));
                        touch_if_accepted (se_id q) (clock s (clock_reads s)) w }) s1"
proof -
  define ck where "ck = (case req_Cookie r SessionCookieName of None \<Rightarrow> [] | Some v \<Rightarrow> v)"
  define t where "t = clock s (clock_reads s)"
  define s1 where "s1 = s\<lparr>stmts := Suc (stmts s)\<rparr>"
  define s2 where "s2 = s1\<lparr>clock_reads := Suc (clock_reads s)\<rparr>"
  define s3 where "s3 = s2\<lparr>stmts := Suc (Suc (stmts s))\<rparr>"
  note defs = RequireSession_def Let_def ck_def[symmetric]
  have core: "core_db s1 = core_db s" "core_db s2 = core_db s" "core_db s3 = core_db s" "db s3 = db s"
    by (simp_all add: s1_def s2_def s3_def)
  show ?thesis
  proof (cases "ck = []")
    case True
    then show ?thesis
      by (intro rejected rejectsI[where m = "State_Monad.return (refuse_session ''UNAUTHORIZED'')" and ?s0.0 = s])
        (auto simp: defs refuse_session_def intro: keep_rules)
  next
    case ck: False
    obtain g where g: "run_state (GetSession ck) s = (g, s1)"
      by (simp add: run_GetSession s1_def)
    show ?thesis
    proof (cases g)
      case (Inl e)
      with ck g show ?thesis
        by (intro rejected rejectsI[where m = "State_Monad.return (if errors_Is e ErrSessionNotFound
              then refuse_session ''UNAUTHORIZED'' else writeError 500 ''SESSION_LOOKUP_FAILED'')" and ?s0.0 = s1])
          (auto simp: defs refuse_session_def core intro: keep_rules)
    next
      case (Inr sess)
      with g obtain q where q: "sess = scanSession q" "q \<in> set (sessions (db s))" "se_id q = ck"
        by (auto simp: run_GetSession dest!: find_Some_set split: option.splits)
      have now: "run_state time_Now s1 = (t, s2)" by (simp add: run_time_Now s1_def s2_def t_def)
      show ?thesis
      proof (cases "expired t sess")
        case True
        with ck g Inr now show ?thesis
          by (intro rejected rejectsI[where m = "drop_session (Sess_ID sess)" and ?s0.0 = s2])
            (simp_all add: defs core core_refusals drop_session_status)
      next
        case live: False
        obtain h where h: "run_state (GetOperator (se_operator_id q)) s2 = (h, s3)"
          by (simp add: run_GetOperator s1_def s2_def s3_def)
        have run: "run_state (RequireSession next r) s = run_state (case h of
               Inl e \<Rightarrow> if errors_Is e ErrOperatorNotFound then drop_session (Sess_ID sess)
                 else State_Monad.return (writeError 500 ''OPERATOR_LOOKUP_FAILED'')
             | Inr opr \<Rightarrow> if Op_Status opr \<noteq> OperatorStatusActive then drop_session (Sess_ID sess)
                 else do { w \<leftarrow> next (WithOperator r \<lparr>AO_ID = Op_ID opr, AO_Email = Op_Email opr, AO_Role = Op_Role opr\<rparr>);
                           touch_if_accepted (Sess_ID sess) t w }) s3" for "next"
          using ck g Inr now live h q by (simp add: defs split: sum.split)
        show ?thesis
        proof (cases "\<exists>opr. h = Inr opr \<and> Op_Status opr = OperatorStatusActive")
          case True
          then obtain p where p: "h = Inr (scanOperator p)" "p \<in> set (operators (db s))" "op_id p = se_operator_id q"
              "op_status p = ''active''"
            using h by (auto simp: run_GetOperator role_defs s2_def s1_def dest!: find_Some_set split: option.splits)
          have cookie: "req_Cookie r SessionCookieName = Some (se_id q)"
            using ck q by (auto simp: ck_def split: option.splits)
          show ?thesis
            using accepted[of q p s3] cookie ck q p live core run
            by (simp add: expired_scan t_def context_operator_def role_defs)
        next
          case False
          then show ?thesis
            by (intro rejected rejectsI[where m = "case h of
                   Inl e \<Rightarrow> if errors_Is e ErrOperatorNotFound then drop_session (Sess_ID sess)
                     else State_Monad.return (writeError 500 ''OPERATOR_LOOKUP_FAILED'')
                 | Inr opr \<Rightarrow> drop_session (Sess_ID sess)" and ?s0.0 = s3])
              (auto simp: run core drop_session_status split: sum.splits intro!: keep_rules)
        qed
      qed
    qed
  qed
qed

interpretation session: guard RequireSession admits
proof
  fix s :: "'a store_scheme" and r
  show "(\<exists>w s'. core_db s' = core_db s \<and> (\<forall>next. run_state (RequireSession next r) s = (w, s'))) \<or>
    (\<exists>r' s1 post. admits s r r' \<and> core_db s1 = core_db s \<and> (\<forall>w s2. core_db (post w s2) = core_db s2) \<and>
       (\<forall>next. run_state (RequireSession next r) s = (case run_state (next r') s1 of (w, s2) \<Rightarrow> (w, post w s2))))"
  proof (cases rule: RequireSession_cases[of s r])
    case rejected
    then show ?thesis by (auto simp: rejects_def)
  next
    case (accepted q p s1)
    define post :: "response \<Rightarrow> 'a store_scheme \<Rightarrow> 'a store_scheme"
      where "post = (\<lambda>w s2. snd (run_state (touch_if_accepted (se_id q) (clock s (clock_reads s)) w) s2))"
    have "admits s r (WithOperator r (context_operator p))"
      using accepted(1-7) by (auto simp: admits_def)
    moreover have "core_db (post w s2) = core_db s2" for w s2
      using keepsD[OF core_touch] by (simp add: post_def)
    moreover have "run_state (RequireSession next r) s =
        (case run_state (next (WithOperator r (context_operator p))) s1 of (w, s2) \<Rightarrow> (w, post w s2))" for "next"
      using fst_touch by (simp add: accepted(9) post_def prod_eq_iff split: prod.splits)
    ultimately show ?thesis using accepted(8) by (intro disjI2) (metis (mono_tags, lifting))
  qed
qed

text \<open>Touching: the last-seen column of the one session becomes the later of the two times.\<close>

definition seen_at :: "string \<Rightarrow> go_time \<Rightarrow> session_row list \<Rightarrow> session_row list" where
  "seen_at i t = update_rows (\<lambda>q. se_id q = i) (\<lambda>q. q\<lparr>se_last_seen_at := max (se_last_seen_at q) (rfc3339 t)\<rparr>)"

lemma seen_at_alt:
  "update_rows (\<lambda>q. se_id q = i \<and> se_last_seen_at q < rfc3339 t) (\<lambda>q. q\<lparr>se_last_seen_at := rfc3339 t\<rparr>) rs = seen_at i t rs"
  unfolding seen_at_def update_rows_def by (rule map_cong) (auto simp: max_def)

lemma TouchSession_effect:
  assumes "run_state (TouchSession i t) s = (x, s')"
  shows "db s' = db s \<or> db s' = (db s)\<lparr>sessions := seen_at i t (sessions (db s))\<rparr>"
  using assms
  by (auto simp: TouchSession_def Let_def run_sql_stmt run_sql_query_row update_sessions_def seen_at_alt
      split: option.splits if_splits)

lemma touch_effect:
  assumes "run_state (touch_if_accepted i t w) s = (w', s')"
  shows "sessions (db s') = sessions (db s) \<or>
    200 \<le> Status w \<and> Status w < 400 \<and> sessions (db s') = seen_at i t (sessions (db s))"
proof (cases "tw_accepted (tw_after w)")
  case True
  with assms obtain x where "run_state (TouchSession i t) s = (x, s')"
    by (auto simp: touch_if_accepted_def split: prod.splits)
  with True TouchSession_effect[OF this] show ?thesis by (auto simp: tw_accepted_iff)
qed (use assms in \<open>simp add: touch_if_accepted_def\<close>)

section \<open>Properties\<close>

definition sample_admin_request :: request where
  "sample_admin_request = \<lparr>Method = ''PATCH'', URL_Path = ''/api/v1/accounts/acc-1'', URL_RawPath = [],
     Header = (\<lambda>h. if h = ''Origin'' then ''https://admin.example.org'' else []),
     Query = [], Cookies = [(''packyard_session'', ''sess-1'')], RemoteAddr = ''10.0.0.1:4711'',
     URLParam = (\<lambda>k. if k = ''id'' then ''acc-1'' else []), BasicAuth = None, ReqBody = [], ctx_operator = None\<rparr>"

text \<open>
  C15: no handler behind the session gate runs without a valid session. Either the gate answers 401
  or 500 on its own, with the same result whatever handler it wraps, or the request's cookie names a
  session row within its absolute and idle lifetime whose operator row is active, and the handler
  runs once, on unchanged tables, with exactly that operator in its context.
\<close>

theorem session_gate_sound:
  "(\<exists>w s'. (Status w = 401 \<or> Status w = 500) \<and> (\<forall>next. run_state (RequireSession next r) s = (w, s'))) \<or>
   (\<exists>q \<in> set (sessions (db s)). \<exists>p \<in> set (operators (db s)). \<exists>s1.
      req_Cookie r SessionCookieName = Some (se_id q) \<and>
      clock s (clock_reads s) \<le> parse_rfc3339 (se_expires_at q) \<and>
      time_Sub (clock s (clock_reads s)) (parse_rfc3339 (se_last_seen_at q)) \<le> SessionIdleLifetime \<and>
      op_id p = se_operator_id q \<and> op_status p = ''active'' \<and> db s1 = db s \<and>
      (\<forall>next. fst (run_state (RequireSession next r) s) =
        fst (run_state (next (WithOperator r \<lparr>AO_ID = op_id p, AO_Email = op_email p, AO_Role = op_role p\<rparr>)) s1)))"
proof (cases rule: RequireSession_cases[of s r])
  case rejected
  then show ?thesis by (auto simp: rejects_def)
next
  case (accepted q p s1)
  have "fst (run_state (RequireSession next r) s) = fst (run_state (next (WithOperator r (context_operator p))) s1)" for "next"
    by (simp add: accepted(9) split: prod.splits)
  with accepted(1-8) show ?thesis
    unfolding in_lifetime_def context_operator_def by (intro disjI2) blast
qed

theorem session_gate_sound_witness:
  "admits sample sample_admin_request (WithOperator sample_admin_request
     \<lparr>AO_ID = ''op-1'', AO_Email = ''root@example.org'', AO_Role = ''admin''\<rparr>) \<and>
   ((\<exists>w s'. (Status w = 401 \<or> Status w = 500) \<and> (\<forall>next. run_state (RequireSession next sample_admin_request) sample = (w, s'))) \<or>
    (\<exists>q \<in> set (sessions (db sample)). req_Cookie sample_admin_request SessionCookieName = Some (se_id q)))"
proof
  show "admits sample sample_admin_request (WithOperator sample_admin_request
     \<lparr>AO_ID = ''op-1'', AO_Email = ''root@example.org'', AO_Role = ''admin''\<rparr>)"
    by (simp add: admits_def sample_defs sample_admin_request_def req_Cookie_def SessionCookieName_def in_lifetime_def
        context_operator_def parse_rfc3339_def Second_def time_Sub_def minDuration_def maxDuration_def
        SessionIdleLifetime_def Hour_def Minute_def)
  show "(\<exists>w s'. (Status w = 401 \<or> Status w = 500) \<and> (\<forall>next. run_state (RequireSession next sample_admin_request) sample = (w, s'))) \<or>
    (\<exists>q \<in> set (sessions (db sample)). req_Cookie sample_admin_request SessionCookieName = Some (se_id q))"
    using session_gate_sound[of sample_admin_request sample] by blast
qed

text \<open>
  an expired session is closed. When the session's absolute expiry has passed or it has been idle for
  longer than eight hours, and no statement fails, the answer is 401 \<^verbatim>\<open>SESSION_EXPIRED\<close>, the
  cookie is cleared and the session row is gone, whatever the handler.
\<close>

lemma expired_session_closed:
  assumes "db_ok s" "\<forall>n \<ge> stmts s. fault s n = None"
    and "q \<in> set (sessions (db s))" "req_Cookie r SessionCookieName = Some (se_id q)" "se_id q \<noteq> []"
    and "parse_rfc3339 (se_expires_at q) < clock s (clock_reads s) \<or>
      SessionIdleLifetime < time_Sub (clock s (clock_reads s)) (parse_rfc3339 (se_last_seen_at q))"
    and "run_state (RequireSession next r) s = (w, s')"
  shows "Status w = 401 \<and> Body w = ApiError ''SESSION_EXPIRED'' \<and> clearSessionCookie \<in> set (SetCookies w) \<and>
    sessions (db s') = filter (\<lambda>p. se_id p \<noteq> se_id q) (sessions (db s))"
proof -
  have "distinct (map se_id (sessions (db s)))" "se_operator_id q \<in> op_id ` set (operators (db s))"
    using assms(1,3) by (auto simp: tables_ok_def sessions_ok_def list_all_iff)
  then have "find (\<lambda>p. se_id p = se_id q \<and> se_operator_id p \<in> op_id ` set (operators (db s))) (sessions (db s)) = Some q"
    using assms(3) by (intro find_key_and)
  then show ?thesis
    using assms(2,4-7)
    by (auto simp: RequireSession_def run_GetSession run_time_Now expired_def drop_session_def run_DeleteSession
        refuse_session_def)
qed

lemma expired_session_closed_witness:
  "Status (fst (run_state (RequireSession (\<lambda>_. State_Monad.return (status_only 200)) sample_admin_request)
     (sample\<lparr>clock := (\<lambda>_. 1700100000 * Second)\<rparr>))) = 401"
proof -
  let ?s = "sample\<lparr>clock := (\<lambda>_. 1700100000 * Second)\<rparr>" and ?q = "sample_session ''sess-1'' ''op-1''"
  have "?q \<in> set (sessions (db ?s))" "req_Cookie sample_admin_request SessionCookieName = Some (se_id ?q)" "se_id ?q \<noteq> []"
    "parse_rfc3339 (se_expires_at ?q) < clock ?s (clock_reads ?s)"
    by (simp_all add: sample_rows sample_session_def sample_admin_request_def req_Cookie_def SessionCookieName_def
        parse_rfc3339_def Second_def)
  then show ?thesis
    using expired_session_closed[OF _ _ _ _ _ _ surjective_pairing, of ?s ?q sample_admin_request] by (simp add: sample_ok)
qed

text \<open>
  the idle window. For a request that passes the gate and a handler that does not write
  sessions itself, the gate changes at most the last-seen time of the session used, only after a
  status from 200 to 399, and only forwards.
\<close>

lemma idle_window_slides_forward:
  assumes "\<And>r'. keeps (\<lambda>s. sessions (db s)) (next r')" "run_state (RequireSession next r) s = (w, s')"
    and "\<not> rejects s r"
  shows "sessions (db s') = sessions (db s) \<or>
    200 \<le> Status w \<and> Status w < 400 \<and>
    (\<exists>t i. req_Cookie r SessionCookieName = Some i \<and> sessions (db s') = seen_at i t (sessions (db s)))"
proof (cases rule: RequireSession_cases[of s r])
  case rejected
  with assms(3) show ?thesis by simp
next
  case (accepted q p s1)
  obtain w1 s2 where h: "run_state (next (WithOperator r (context_operator p))) s1 = (w1, s2)" by fastforce
  have s2: "sessions (db s2) = sessions (db s)"
    using keepsD[OF assms(1), of "WithOperator r (context_operator p)" s1] h accepted(8) by simp
  have t: "run_state (touch_if_accepted (se_id q) (clock s (clock_reads s)) w1) s2 = (w, s')"
    using assms(2) accepted(9)[of "next"] h by simp
  then have "w = w1" using fst_touch by (metis fst_conv)
  with touch_effect[OF t] s2 accepted(1) show ?thesis by auto
qed

lemma idle_window_slides_forward_witness:
  "\<exists>w s'. run_state (RequireSession (\<lambda>_. State_Monad.return (status_only 404)) sample_admin_request) sample = (w, s') \<and>
     sessions (db s') = sessions (db sample)"
proof -
  let ?h = "\<lambda>_. State_Monad.return (status_only 404) :: (metered, response) state"
  obtain w s' where run: "run_state (RequireSession ?h sample_admin_request) sample = (w, s')" by fastforce
  have st: "fst (run_state (RequireSession (\<lambda>_. State_Monad.return (status_only n)) sample_admin_request) sample) = status_only n" for n
    by (simp add: RequireSession_def sample_admin_request_def req_Cookie_def SessionCookieName_def run_GetSession
        run_GetOperator run_time_Now sample_defs expired_scan in_lifetime_def parse_rfc3339_def Second_def
        time_Sub_def minDuration_def maxDuration_def SessionIdleLifetime_def Hour_def Minute_def role_defs
        split: prod.splits)
  have "\<not> rejects sample sample_admin_request"
  proof
    assume "rejects sample sample_admin_request"
    then obtain w s' where "Status w = 401 \<or> Status w = 500"
      "\<And>next. run_state (RequireSession next sample_admin_request) sample = (w, s')" by (auto simp: rejects_def)
    then show False using st[of 200] by auto
  qed
  moreover have "Status w = 404" using st[of 404] run by (simp add: prod_eq_iff)
  ultimately show ?thesis
    using idle_window_slides_forward[OF _ run] run by (auto simp: keeps_return)
qed

end
