(* ===== verification/Auth_Handler.thy ===== *)
theory Auth_Handler
  imports OAuth_State Session_Middleware Pkce
begin

text \<open>
  \<^verbatim>\<open>internal/handler/auth.go\<close>: login, callback, whoami and logout. The registered providers are an
  argument, as the handler's field \<^verbatim>\<open>Providers\<close> is. The lemma \<open>Callback_outcome\<close>: a callback opens a session only
  for a pending flow of this browser that names the same state and provider, a verified non-empty email and an active
  operator on the allowlist, and it clears the handle cookie on every path. Flows of several requests are in
  \<open>Login_Flow\<close>.
\<close>

definition oauthHandleCookieName :: string where
  "oauthHandleCookieName = ''packyard_oauth_handle''"

definition handle_cookie :: "string \<Rightarrow> cookie" where
  "handle_cookie handle = \<lparr>Ck_Name = oauthHandleCookieName, Ck_Value = handle, Ck_Path = ''/'',
     Ck_MaxAge = StateTTL div Second, Ck_Expires = None, Ck_HttpOnly = True, Ck_Secure = True, Ck_SameSite = ''Lax''\<rparr>"

definition clearOAuthHandleCookie :: cookie where
  "clearOAuthHandleCookie = \<lparr>Ck_Name = oauthHandleCookieName, Ck_Value = [], Ck_Path = ''/'',
     Ck_MaxAge = -1, Ck_Expires = None, Ck_HttpOnly = True, Ck_Secure = True, Ck_SameSite = ''Lax''\<rparr>"

definition redirectLoginError :: "string \<Rightarrow> response" where
  "redirectLoginError code = http_Redirect (''/admin/login?error='' @ code)"

section \<open>The source address of a session\<close>

definition is_blank :: "char \<Rightarrow> bool" where
  "is_blank c \<longleftrightarrow> c = CHR '' '' \<or> c = CHR 0x09"

definition trimSpace :: "string \<Rightarrow> string" where
  "trimSpace s = rev (dropWhile is_blank (rev (dropWhile is_blank s)))"

text \<open>The position of the first occurrence, or \<open>-1\<close>.\<close>

fun indexByte :: "string \<Rightarrow> char \<Rightarrow> int" where
  "indexByte [] c = -1"
| "indexByte (d # ds) c = (if d = c then 0 else let i = indexByte ds c in if i < 0 then i else i + 1)"

definition session_clientIP :: "request \<Rightarrow> string" where
  "session_clientIP r = (let xff = Header r ''X-Forwarded-For'' in
     if xff \<noteq> [] then
       (let i = indexByte xff CHR '','' in if 0 \<le> i then trimSpace (take (nat i) xff) else trimSpace xff)
     else RemoteAddr r)"

lemma indexByte_before: "(if 0 \<le> indexByte s c then take (nat (indexByte s c)) s else s) = before_sep c s"
  by (induction s) (auto simp: Let_def before_sep_def nat_add_distrib split: if_splits)

text \<open>The leftmost token of the forwarding chain.\<close>

lemma session_clientIP_leftmost:
  "Header r ''X-Forwarded-For'' \<noteq> [] \<Longrightarrow> session_clientIP r = trimSpace (before_sep CHR '','' (Header r ''X-Forwarded-For''))"
  using indexByte_before[of "Header r ''X-Forwarded-For''" "CHR '',''"] by (auto simp: session_clientIP_def Let_def)

section \<open>Login\<close>

definition Login :: "(string \<rightharpoonup> OAuthProvider) \<Rightarrow> 'z service_scheme handler" where
  "Login providers r = (let providerName = URLParam r ''provider'' in
     case providers providerName of
       None \<Rightarrow> State_Monad.return (redirectLoginError ''UNKNOWN_PROVIDER'')
     | Some provider \<Rightarrow> do {
         st \<leftarrow> RandomHex 32;
         case st of
           Inl e \<Rightarrow> State_Monad.return (redirectLoginError ''LOGIN_INIT_FAILED'')
         | Inr state \<Rightarrow> do {
             v \<leftarrow> RandomHex 32;
             case v of
               Inl e \<Rightarrow> State_Monad.return (redirectLoginError ''LOGIN_INIT_FAILED'')
             | Inr verifier \<Rightarrow> do {
                 h \<leftarrow> RandomHex 16;
                 case h of
                   Inl e \<Rightarrow> State_Monad.return (redirectLoginError ''LOGIN_INIT_FAILED'')
                 | Inr handle \<Rightarrow> do {
                     _ \<leftarrow> Put handle \<lparr>SE_State = state, SE_CodeVerifier = verifier, SE_Provider = providerName, SE_Created = zero_time\<rparr>;
                     State_Monad.return (with_cookie (handle_cookie handle)
                       (http_Redirect (OP_AuthorizeURL provider state (PKCECodeChallenge verifier)))) } } } })"

section \<open>Callback\<close>

definition failure_details :: "string \<Rightarrow> string \<Rightarrow> int \<Rightarrow> string \<Rightarrow> string \<Rightarrow> (string \<times> detail) list" where
  "failure_details operatorEmail providerName status message reason =
     [(''reason'', DStr reason), (''http_status'', DInt status), (''message'', DStr message)] @
     (if operatorEmail \<noteq> [] then [(''email'', DStr operatorEmail)] else []) @
     (if providerName \<noteq> [] then [(''provider'', DStr providerName)] else [])"

definition failCallback ::
  "request \<Rightarrow> string \<Rightarrow> string \<Rightarrow> int \<Rightarrow> string \<Rightarrow> string \<Rightarrow> string \<Rightarrow> ('z service_scheme, response) state" where
  "failCallback r operatorEmail providerName status code message reason = do {
     _ \<leftarrow> WriteFromRequest r (new_entry [] ''login.failure'' ''session'' []
            (failure_details operatorEmail providerName status message reason));
     State_Monad.return (with_cookie clearOAuthHandleCookie (redirectLoginError code)) }"

definition exchange_failed :: "request \<Rightarrow> string \<Rightarrow> auth_sentinel option \<Rightarrow> ('z service_scheme, response) state" where
  "exchange_failed r providerName e =
    (if e = Some ErrUnverifiedEmail \<or> e = Some ErrNoEmail then
       failCallback r [] providerName 403 ''EMAIL_NOT_VERIFIED'' ''provider did not return a verified primary email'' ''unverified_email''
     else if e = Some ErrNotOrgMember then
       failCallback r [] providerName 403 ''ORG_MEMBERSHIP_REQUIRED'' ''not a member of the allowed organisation/tenant'' ''not_org_member''
     else failCallback r [] providerName 401 ''OAUTH_EXCHANGE_FAILED'' ''failed to exchange authorisation code'' ''exchange_failed'')"

text \<open>Behind the exchange: match the operator, open the session, record the login.\<close>

definition record_login :: "Operator \<Rightarrow> Session \<Rightarrow> string \<Rightarrow> OAuthIdentity \<Rightarrow> ('z service_scheme, unit) state" where
  "record_login opr sess providerName identity = do {
     _ \<leftarrow> UpdateLastLogin (Op_ID opr) (Sess_CreatedAt sess);
     _ \<leftarrow> (if OI_ProviderUserID identity = [] then State_Monad.return (Inr ())
           else UpdateLoginProvider (Op_ID opr) providerName (OI_ProviderUserID identity));
     State_Monad.return () }"

definition open_session :: "string \<Rightarrow> request \<Rightarrow> string \<Rightarrow> OAuthIdentity \<Rightarrow> Operator \<Rightarrow> ('z service_scheme, response) state" where
  "open_session loginSuccessRedirect r providerName identity opr = do {
     c \<leftarrow> CreateSession (Op_ID opr) (session_clientIP r) (UserAgent r);
     case c of
       Inl e \<Rightarrow> failCallback r (OI_Email identity) providerName 500 ''SESSION_CREATE_FAILED'' ''failed to create session'' ''session_create_failed''
     | Inr sess \<Rightarrow> do {
         _ \<leftarrow> record_login opr sess providerName identity;
         _ \<leftarrow> WriteFromRequest r (new_entry (Op_ID opr) ''login.success'' ''session'' (Sess_ID sess)
                [(''provider'', DStr providerName), (''provider_user_id'', DStr (OI_ProviderUserID identity)),
                 (''email'', DStr (OI_Email identity))]);
         let dest = (if loginSuccessRedirect = [] then ''/admin/'' else loginSuccessRedirect);
         State_Monad.return (with_cookie clearOAuthHandleCookie
           (with_cookie (IssueSessionCookie (Sess_ID sess) (Sess_ExpiresAt sess)) (http_Redirect dest))) } }"

definition resolve_operator :: "string \<Rightarrow> request \<Rightarrow> string \<Rightarrow> OAuthIdentity \<Rightarrow> ('z service_scheme, response) state" where
  "resolve_operator loginSuccessRedirect r providerName identity =
    (if OI_Email identity = [] then
       failCallback r [] providerName 403 ''EMAIL_NOT_VERIFIED'' ''provider returned an empty email'' ''empty_email''
     else do {
       g \<leftarrow> GetOperatorByEmail (OI_Email identity);
       case g of
         Inl e \<Rightarrow>
           if errors_Is e ErrOperatorNotFound then
             failCallback r (OI_Email identity) providerName 403 ''OPERATOR_NOT_ALLOWED''
               ''the authenticated identity is not on the operator allowlist'' ''not_on_allowlist''
           else failCallback r (OI_Email identity) providerName 500 ''OPERATOR_LOOKUP_FAILED'' ''failed to resolve operator'' ''lookup_failed''
       | Inr opr \<Rightarrow>
           if Op_Status opr = OperatorStatusActive then open_session loginSuccessRedirect r providerName identity opr
           else if Op_Status opr = OperatorStatusDisabled then
             failCallback r (OI_Email identity) providerName 403 ''OPERATOR_DISABLED'' ''the operator account is disabled'' ''operator_disabled''
           else failCallback r (OI_Email identity) providerName 403 ''OPERATOR_DISABLED''
             ''the operator account is not in an active state'' (''operator_status_'' @ Op_Status opr) })"

definition Callback :: "(string \<rightharpoonup> OAuthProvider) \<Rightarrow> string \<Rightarrow> 'z service_scheme handler" where
  "Callback providers loginSuccessRedirect r =
    (let providerName = URLParam r ''provider'';
         handleCookie = (case req_Cookie r oauthHandleCookieName of None \<Rightarrow> [] | Some v \<Rightarrow> v) in
     case providers providerName of
       None \<Rightarrow> do {
         _ \<leftarrow> (if handleCookie \<noteq> [] then Consume handleCookie else State_Monad.return (Inl ErrStateNotFound));
         State_Monad.return (with_cookie clearOAuthHandleCookie (redirectLoginError ''UNKNOWN_PROVIDER'')) }
     | Some provider \<Rightarrow>
         let queryState = query_Get r ''state''; code = query_Get r ''code'' in
         if queryState = [] \<or> code = [] then
           failCallback r [] [] 400 ''INVALID_OAUTH_STATE'' ''state and code query parameters are required'' ''missing_state_or_code''
         else if handleCookie = [] then
           failCallback r [] [] 400 ''INVALID_OAUTH_STATE'' ''no oauth handle cookie present'' ''missing_handle_cookie''
         else do {
           c \<leftarrow> Consume handleCookie;
           case c of
             Inl e \<Rightarrow> failCallback r [] [] 400 ''INVALID_OAUTH_STATE'' ''oauth handle expired or unknown'' ''state_not_found''
           | Inr entry \<Rightarrow>
               if SE_State entry \<noteq> queryState \<or> SE_Provider entry \<noteq> providerName then
                 failCallback r [] [] 400 ''INVALID_OAUTH_STATE'' ''state or provider mismatch'' ''state_mismatch''
               else (case OP_Exchange provider code (SE_CodeVerifier entry) of
                   Inl e \<Rightarrow> exchange_failed r providerName e
                 | Inr identity \<Rightarrow> resolve_operator loginSuccessRedirect r providerName identity) })"

section \<open>Whoami and logout\<close>

definition Whoami :: "'z store_scheme handler" where
  "Whoami r = (case OperatorFromContext r of
       None \<Rightarrow> State_Monad.return (writeError 401 ''UNAUTHORIZED'')
     | Some opr \<Rightarrow> do {
         g \<leftarrow> GetOperator (AO_ID opr);
         State_Monad.return (case g of
           Inl e \<Rightarrow> writeError 500 ''SESSION_LOOKUP_FAILED''
         | Inr full \<Rightarrow> writeJSON 200 (JOperator full)) })"

definition logout_details :: "(goerr + unit) option \<Rightarrow> (string \<times> detail) list" where
  "logout_details d = (''outcome'', DStr (if d = Some (Inr ()) then ''success'' else ''failure'')) #
     (case d of Some (Inl e) \<Rightarrow> [(''error'', DStr (err_Error e))] | _ \<Rightarrow> [])"

definition Logout :: "'z store_scheme handler" where
  "Logout r = do {
     d \<leftarrow> (case req_Cookie r SessionCookieName of
            Some v \<Rightarrow> if v \<noteq> [] then do { x \<leftarrow> DeleteSession v; State_Monad.return (Some x) } else State_Monad.return None
          | None \<Rightarrow> State_Monad.return None);
     _ \<leftarrow> (case OperatorFromContext r of
            Some opr \<Rightarrow> WriteFromRequest r (new_entry (AO_ID opr) ''logout'' ''session'' [] (logout_details d))
          | None \<Rightarrow> State_Monad.return ());
     State_Monad.return (with_cookie clearSessionCookie (status_only 204)) }"

section \<open>What each step leaves alone\<close>

abbreviation sessions_db :: "'z store_scheme \<Rightarrow> session_row list" where
  "sessions_db s \<equiv> sessions (db s)"

lemma keeps_sessions_unaudited: "keeps unaudited_db m \<Longrightarrow> keeps sessions_db m"
  unfolding keeps_def by (blast intro: unaudited_eqD(3))

lemmas keeps_sessions_operator_stmt = keeps_table_stmt[where F = sessions]

lemma sessions_login_columns [keep_rules]:
  "keeps sessions_db (UpdateLastLogin i t)" "keeps sessions_db (UpdateLoginProvider i p u)"
  unfolding UpdateLastLogin_def UpdateLoginProvider_def Let_def
  by (auto intro!: keep_rules keeps_sessions_operator_stmt simp: update_operators_def split: if_splits)

lemma sessions_Write [keep_rules]: "keeps sessions_db (WriteFromRequest r e)"
  by (rule keeps_sessions_unaudited) (rule unaudited_WriteFromRequest)

lemma keeps_state_stmt [keep_rules]: "keeps state_entries (sql_stmt f)"
  by (auto simp: keeps_def run_sql_stmt split: option.splits sum.splits)

lemma keeps_state_query [keep_rules]: "keeps state_entries (sql_query q)" "keeps state_entries (sql_query_row q)"
  by (auto simp: sql_query_def sql_query_row_def intro!: keep_rules)

lemma state_Write [keep_rules]: "keeps state_entries (WriteFromRequest r e)"
  unfolding WriteFromRequest_def Write_def Let_def by (auto intro!: keep_rules)

lemma state_store_ops [keep_rules]:
  "keeps state_entries (UpdateLastLogin i t)" "keeps state_entries (UpdateLoginProvider i p u)"
  "keeps state_entries (CreateSession i ip ua)" "keeps state_entries (GetOperatorByEmail e)"
  unfolding UpdateLastLogin_def UpdateLoginProvider_def CreateSession_def generateSessionID_def GetOperatorByEmail_def Let_def
  by (auto intro!: keep_rules)

section \<open>Outcomes of a callback\<close>

definition refused_login :: "'z service_scheme \<Rightarrow> response \<Rightarrow> 'z service_scheme \<Rightarrow> bool" where
  "refused_login s w s' \<longleftrightarrow> sessions_db s' = sessions_db s \<and> SetCookies w = [clearOAuthHandleCookie] \<and> Status w = 302"

definition opened_session :: "string \<Rightarrow> 'z service_scheme \<Rightarrow> response \<Rightarrow> 'z service_scheme \<Rightarrow> bool" where
  "opened_session i s w s' \<longleftrightarrow> (\<exists>q expires. sessions_db s' = sessions_db s @ [q] \<and> se_operator_id q = i \<and>
     SetCookies w = [clearOAuthHandleCookie, IssueSessionCookie (se_id q) expires] \<and> Status w = 302)"

lemma keeps_run: "keeps f m \<Longrightarrow> run_state m s = (x, s') \<Longrightarrow> f s' = f s"
  using keepsD[of f m s] by simp

lemma failCallback_refused:
  "run_state (failCallback r em pn st code msg why) s = (w, s') \<Longrightarrow> refused_login s w s'"
  by (auto simp: failCallback_def run_simps refused_login_def redirectLoginError_def split: prod.splits
      dest: keeps_run[OF sessions_Write])

lemma exchange_failed_refused: "run_state (exchange_failed r pn e) s = (w, s') \<Longrightarrow> refused_login s w s'"
  by (auto simp: exchange_failed_def intro: failCallback_refused split: if_splits)

lemma run_CreateSession:
  assumes "run_state (CreateSession i ip ua) s = (c, s')"
  shows "case c of
      Inl e \<Rightarrow> db s' = db s
    | Inr sess \<Rightarrow> \<exists>q. db s' = (db s)\<lparr>sessions := sessions_db s @ [q]\<rparr> \<and> se_id q = Sess_ID sess \<and> se_operator_id q = i"
  using assms
  by (auto simp: CreateSession_def generateSessionID_def Let_def run_simps run_sql_stmt insert_session_def
      split: option.splits sum.splits prod.splits if_splits)

lemma record_login_keeps [keep_rules]:
  "keeps sessions_db (record_login opr sess pn identity)" "keeps state_entries (record_login opr sess pn identity)"
  unfolding record_login_def by (auto intro!: keep_rules)

lemma open_session_outcome:
  assumes "run_state (open_session dest r pn identity opr) s = (w, s')"
  shows "refused_login s w s' \<or> opened_session (Op_ID opr) s w s'"
proof -
  obtain c s1 where c: "run_state (CreateSession (Op_ID opr) (session_clientIP r) (UserAgent r)) s = (c, s1)" by fastforce
  note made = run_CreateSession[OF c]
  show ?thesis
  proof (cases c)
    case (Inl e)
    then have "refused_login s1 w s'" using assms c by (auto simp: open_session_def run_simps intro: failCallback_refused)
    with made Inl show ?thesis by (simp add: refused_login_def)
  next
    case (Inr sess)
    have "keeps sessions_db (do { _ \<leftarrow> record_login opr sess pn identity;
        WriteFromRequest r (new_entry (Op_ID opr) ''login.success'' ''session'' (Sess_ID sess)
          [(''provider'', DStr pn), (''provider_user_id'', DStr (OI_ProviderUserID identity)), (''email'', DStr (OI_Email identity))]) })"
      by (intro keep_rules)
    from keepsD[OF this, of s1] have "sessions_db s' = sessions_db s1"
      using assms c Inr by (auto simp: open_session_def run_simps Let_def split: prod.splits)
    moreover have "SetCookies w = [clearOAuthHandleCookie, IssueSessionCookie (Sess_ID sess) (Sess_ExpiresAt sess)]" "Status w = 302"
      using assms c Inr by (auto simp: open_session_def run_simps Let_def split: prod.splits)
    ultimately show ?thesis using made Inr by (auto simp: opened_session_def)
  qed
qed

lemma run_GetOperatorByEmail:
  assumes "run_state (GetOperatorByEmail e) s = (g, s')"
  shows "db s' = db s \<and> (case g of Inl _ \<Rightarrow> True
    | Inr opr \<Rightarrow> \<exists>p \<in> set (operators (db s)). op_email p = canonicalEmail e \<and> opr = scanOperator p)"
  using assms
  by (auto simp: GetOperatorByEmail_def run_sql_query_row dest!: find_Some_set split: option.splits)

lemma resolve_operator_outcome:
  assumes "run_state (resolve_operator dest r pn identity) s = (w, s')"
  shows "refused_login s w s' \<or> OI_Email identity \<noteq> [] \<and>
    (\<exists>p \<in> set (operators (db s)). op_email p = canonicalEmail (OI_Email identity) \<and> op_status p = ''active'' \<and>
       opened_session (op_id p) s w s')"
proof (cases "OI_Email identity = []")
  case True
  with assms show ?thesis by (auto simp: resolve_operator_def intro: failCallback_refused)
next
  case False
  obtain g s1 where g: "run_state (GetOperatorByEmail (OI_Email identity)) s = (g, s1)" by fastforce
  note found = run_GetOperatorByEmail[OF g]
  have same: "refused_login s1 w s' \<Longrightarrow> refused_login s w s'" "opened_session i s1 w s' \<Longrightarrow> opened_session i s w s'" for i
    using found by (simp_all add: refused_login_def opened_session_def)
  show ?thesis
  proof (cases "\<exists>opr. g = Inr opr \<and> Op_Status opr = OperatorStatusActive")
    case True
    then obtain opr where opr: "g = Inr opr" "Op_Status opr = OperatorStatusActive" by blast
    then have "run_state (open_session dest r pn identity opr) s1 = (w, s')"
      using assms g False by (simp add: resolve_operator_def run_simps)
    from open_session_outcome[OF this] found opr same False show ?thesis
      by (auto simp: role_defs)
  next
    case no: False
    then have "refused_login s1 w s'"
      using assms g False
      by (auto simp: resolve_operator_def run_simps intro: failCallback_refused split: sum.splits if_splits)
    with same show ?thesis by blast
  qed
qed

section \<open>Who is logged in\<close>

text \<open>The flow a callback completes: pending under the browser's handle, not too old, for this state and provider.\<close>

definition pending_flow :: "'z service_scheme \<Rightarrow> request \<Rightarrow> StateEntry \<Rightarrow> bool" where
  "pending_flow s r e \<longleftrightarrow> (\<exists>h. req_Cookie r oauthHandleCookieName = Some h \<and> map_of (state_entries s) h = Some e \<and>
     time_Sub (clock s (clock_reads s)) (SE_Created e) \<le> StateTTL \<and>
     SE_State e = query_Get r ''state'' \<and> query_Get r ''state'' \<noteq> [] \<and> SE_Provider e = URLParam r ''provider'')"

text \<open>The operator the provider vouches for.\<close>

definition vouched :: "(string \<rightharpoonup> OAuthProvider) \<Rightarrow> request \<Rightarrow> StateEntry \<Rightarrow> operator_row \<Rightarrow> bool" where
  "vouched providers r e p \<longleftrightarrow> (\<exists>provider identity. providers (URLParam r ''provider'') = Some provider \<and>
     OP_Exchange provider (query_Get r ''code'') (SE_CodeVerifier e) = Inr identity \<and>
     OI_Email identity \<noteq> [] \<and> op_email p = canonicalEmail (OI_Email identity))"

lemma refused_keep_db: "db s1 = db s \<Longrightarrow> refused_login s1 w s' \<Longrightarrow> refused_login s w s'"
  by (simp add: refused_login_def)

lemma Callback_outcome:
  assumes "run_state (Callback providers dest r) s = (w, s')"
  shows "refused_login s w s' \<or> (\<exists>e. pending_flow s r e \<and>
    (\<exists>p \<in> set (operators (db s)). vouched providers r e p \<and> op_status p = ''active'' \<and> opened_session (op_id p) s w s'))"
proof -
  let ?pn = "URLParam r ''provider''" and ?h = "case req_Cookie r oauthHandleCookieName of None \<Rightarrow> [] | Some v \<Rightarrow> v"
  obtain c s1 where c: "run_state (Consume ?h) s = (c, s1)" by fastforce
  have s1: "db s1 = db s" using keeps_run[OF keeps_state_db(2) c] .
  show ?thesis
  proof (cases "providers ?pn")
    case None
    then show ?thesis using assms c s1
      by (auto simp: Callback_def Let_def run_simps refused_login_def redirectLoginError_def split: if_splits prod.splits)
  next
    case (Some provider)
    show ?thesis
    proof (cases "query_Get r ''state'' = [] \<or> query_Get r ''code'' = [] \<or> ?h = []")
      case True
      then show ?thesis using assms Some by (auto simp: Callback_def Let_def intro: failCallback_refused split: if_splits)
    next
      case ok: False
      show ?thesis
      proof (cases "\<exists>e identity. c = Inr e \<and> SE_State e = query_Get r ''state'' \<and> SE_Provider e = ?pn \<and>
          OP_Exchange provider (query_Get r ''code'') (SE_CodeVerifier e) = Inr identity")
        case True
        then obtain e identity where e: "c = Inr e" "SE_State e = query_Get r ''state''" "SE_Provider e = ?pn"
          "OP_Exchange provider (query_Get r ''code'') (SE_CodeVerifier e) = Inr identity" by blast
        have run: "run_state (resolve_operator dest r ?pn identity) s1 = (w, s')"
          using assms Some ok c e by (simp add: Callback_def Let_def run_simps)
        have held: "req_Cookie r oauthHandleCookieName = Some ?h" using ok by (auto split: option.splits)
        have flow: "pending_flow s r e"
          unfolding pending_flow_def using held c e ok by (auto simp: run_Consume split: option.splits if_splits)
        have same: "refused_login s1 w s' \<Longrightarrow> refused_login s w s'" "opened_session i s1 w s' \<Longrightarrow> opened_session i s w s'" for i
          using s1 by (simp_all add: refused_login_def opened_session_def)
        from resolve_operator_outcome[OF run] flow e Some same s1 show ?thesis
          unfolding vouched_def by (metis (no_types, lifting))
      next
        case no: False
        have "refused_login s1 w s'"
          using assms Some ok c no
          by (auto simp: Callback_def Let_def run_simps intro: failCallback_refused exchange_failed_refused split: sum.splits if_splits)
        with s1 show ?thesis by (blast intro: refused_keep_db)
      qed
    qed
  qed
qed

end
