(* ===== verification/Login_Flow.thy ===== *)
theory Login_Flow
  imports Auth_Handler
begin

text \<open>
  Properties of whole login flows over the handlers of \<open>Auth_Handler\<close>: in any interleaving of logins,
  callbacks and reaper runs a flow opens at most one session; a login followed by its callback
  opens a session that the session gate then admits; a logout closes it.
\<close>

section \<open>Who is logged in\<close>

text \<open>
  C3: A callback opens a session only for whom it should. Whatever the clock, the random source and
  the database failures, it either changes no session and sets no session cookie, or the
  browser presented the handle of a pending flow younger than fifteen minutes with that flow's
  state and provider, the provider exchanged the code and that flow's verifier for an identity with
  an email, that email is the one of an active operator, and exactly one session was added, for that
  operator. On every path the handle cookie is cleared.
\<close>

theorem callback_sound:
  assumes "run_state (Callback providers dest r) s = (w, s')"
  shows "hd (SetCookies w) = clearOAuthHandleCookie \<and>
    (sessions (db s') = sessions (db s) \<and> (\<forall>c \<in> set (SetCookies w). Ck_Name c \<noteq> SessionCookieName) \<or>
     (\<exists>e. pending_flow s r e \<and> (\<exists>p \<in> set (operators (db s)). vouched providers r e p \<and> op_status p = ''active'' \<and>
        (\<exists>q. sessions (db s') = sessions (db s) @ [q] \<and> se_operator_id q = op_id p))))"
  using Callback_outcome[OF assms]
proof
  assume "refused_login s w s'"
  then show ?thesis
    by (simp add: refused_login_def clearOAuthHandleCookie_def oauthHandleCookieName_def SessionCookieName_def)
next
  assume "\<exists>e. pending_flow s r e \<and>
    (\<exists>p \<in> set (operators (db s)). vouched providers r e p \<and> op_status p = ''active'' \<and> opened_session (op_id p) s w s')"
  then show ?thesis unfolding opened_session_def by (elim exE bexE conjE) (simp, blast)
qed

section \<open>A flow is used once\<close>

lemma callback_parts_keep_state [keep_rules]:
  "keeps state_entries (failCallback r em pn st code msg why)"
  "keeps state_entries (exchange_failed r pn e)"
  "keeps state_entries (open_session dest r pn identity opr)"
  "keeps state_entries (resolve_operator dest r pn identity)"
  unfolding resolve_operator_def open_session_def exchange_failed_def failCallback_def Let_def
  by (auto intro!: keep_rules)

lemma Consume_entries:
  "run_state (Consume h) s = (c, s') \<Longrightarrow> map_of (state_entries s') k = (if k = h then None else map_of (state_entries s) k)"
  by (auto simp: run_Consume cache_map_simps split: option.splits if_splits)

text \<open>A callback never adds an entry, and one that gets past its query checks removes its own.\<close>

lemma Callback_entries:
  assumes "run_state (Callback providers dest r) s = (w, s')"
  shows "(map_of (state_entries s) k = None \<longrightarrow> map_of (state_entries s') k = None) \<and>
    (sessions_db s' \<noteq> sessions_db s \<longrightarrow> req_Cookie r oauthHandleCookieName = Some k \<longrightarrow> map_of (state_entries s') k = None)"
proof -
  let ?pn = "URLParam r ''provider''" and ?h = "case req_Cookie r oauthHandleCookieName of None \<Rightarrow> [] | Some v \<Rightarrow> v"
  obtain c s1 where c: "run_state (Consume ?h) s = (c, s1)" by fastforce
  note s1 = Consume_entries[OF c, of k]
  note fin = keeps_run[OF callback_parts_keep_state(1)] keeps_run[OF callback_parts_keep_state(2)] keeps_run[OF callback_parts_keep_state(4)]
  show ?thesis
  proof (cases "providers ?pn")
    case None
    then show ?thesis using assms c s1 keeps_run[OF keeps_state_db(2) c]
      by (auto simp: Callback_def Let_def run_simps split: if_splits prod.splits)
  next
    case (Some provider)
    show ?thesis
    proof (cases "query_Get r ''state'' = [] \<or> query_Get r ''code'' = [] \<or> ?h = []")
      case True
      then obtain em pn st code msg why where "run_state (failCallback r em pn st code msg why) s = (w, s')"
        using assms Some by (auto simp: Callback_def Let_def split: if_splits)
      from fin(1)[OF this] failCallback_refused[OF this] show ?thesis by (simp add: refused_login_def)
    next
      case False
      then have "state_entries s' = state_entries s1"
        using assms Some c by (auto simp: Callback_def Let_def run_simps dest: fin split: sum.splits if_splits)
      with s1 show ?thesis by auto
    qed
  qed
qed

lemma Login_entries:
  assumes "run_state (Login providers r) s = (w, s')" "handle_cookie k \<notin> set (SetCookies w)"
  shows "map_of (state_entries s') k = map_of (state_entries s) k"
  using assms
  by (auto simp: Login_def Let_def run_simps RandomHex_def run_Put cache_map_simps redirectLoginError_def
      split: option.splits sum.splits prod.splits if_splits)

text \<open>What other requests and the reaper may do between two uses of a handle.\<close>

inductive traffic :: "(string \<rightharpoonup> OAuthProvider) \<Rightarrow> string \<Rightarrow> string \<Rightarrow> 'z service_scheme \<Rightarrow> 'z service_scheme \<Rightarrow> bool"
  for providers dest k where
  traffic_none: "traffic providers dest k s s"
| traffic_callback: "traffic providers dest k s s1 \<Longrightarrow> run_state (Callback providers dest r) s1 = (w, s2) \<Longrightarrow> traffic providers dest k s s2"
| traffic_login: "traffic providers dest k s s1 \<Longrightarrow> run_state (Login providers r) s1 = (w, s2) \<Longrightarrow>
    handle_cookie k \<notin> set (SetCookies w) \<Longrightarrow> traffic providers dest k s s2"
| traffic_reap: "traffic providers dest k s s1 \<Longrightarrow> run_state state_reap s1 = (u, s2) \<Longrightarrow> traffic providers dest k s s2"

lemma map_of_filter_None: "map_of xs k = None \<Longrightarrow> map_of (filter P xs) k = None"
  by (auto simp: map_of_eq_None_iff)

lemma traffic_absent:
  "traffic providers dest k s s' \<Longrightarrow> map_of (state_entries s) k = None \<Longrightarrow> map_of (state_entries s') k = None"
proof (induction rule: traffic.induct)
  case (traffic_callback s s1 r w s2)
  then show ?case using Callback_entries by blast
next
  case (traffic_login s s1 r w s2)
  then show ?case by (simp add: Login_entries)
next
  case (traffic_reap s s1 u s2)
  then show ?case by (auto simp: run_state_reap intro: map_of_filter_None)
qed


section \<open>A login goes through\<close>

definition draw_hex :: "'z env_scheme \<Rightarrow> nat \<Rightarrow> nat \<Rightarrow> string" where
  "draw_hex s k n = hex_EncodeToString (map (entropy s (draws s + k)) [0..<n])"

lemma draw_hex_nonempty [simp]: "0 < n \<Longrightarrow> draw_hex s k n \<noteq> []"
  using length_hex[of "map (entropy s (draws s + k)) [0..<n]"] by (fastforce simp: draw_hex_def)

lemma run_RandomHex:
  "\<forall>n. entropy_err s n = None \<Longrightarrow> run_state (RandomHex n) s = (Inr (draw_hex s 0 n), s\<lparr>draws := Suc (draws s)\<rparr>)"
  by (simp add: RandomHex_def run_simps draw_hex_def)

lemma draw_hex_later: "draw_hex (s\<lparr>draws := k + draws s\<rparr>) j n = draw_hex s (k + j) n"
  "draw_hex (s\<lparr>draws := Suc (draws s)\<rparr>) j n = draw_hex s (Suc j) n"
  by (simp_all add: draw_hex_def ac_simps)

definition login_entry :: "'z service_scheme \<Rightarrow> request \<Rightarrow> StateEntry" where
  "login_entry s r = \<lparr>SE_State = draw_hex s 0 32, SE_CodeVerifier = draw_hex s 1 32,
     SE_Provider = URLParam r ''provider'', SE_Created = clock s (clock_reads s)\<rparr>"

lemma run_Login:
  assumes "\<forall>n. entropy_err s n = None" "providers (URLParam r ''provider'') = Some provider"
  shows "run_state (Login providers r) s =
    (with_cookie (handle_cookie (draw_hex s 2 16)) (http_Redirect (OP_AuthorizeURL provider (draw_hex s 0 32) (PKCECodeChallenge (draw_hex s 1 32)))),
     s\<lparr>draws := draws s + 3, clock_reads := Suc (clock_reads s),
       state_entries := AList.update (draw_hex s 2 16) (login_entry s r) (state_entries s)\<rparr>)"
  using assms
  by (simp add: Login_def Let_def run_RandomHex run_Put login_entry_def draw_hex_def)

text \<open>The columns of an operator that the recording of a login does not touch.\<close>

definition identity_columns :: "operator_row \<Rightarrow> string \<times> string \<times> string \<times> string" where
  "identity_columns p = (op_id p, op_email p, op_role p, op_status p)"

abbreviation identities :: "'z store_scheme \<Rightarrow> (string \<times> string \<times> string \<times> string) list" where
  "identities s \<equiv> map identity_columns (operators (db s))"

lemma identities_stmt:
  "(\<And>q. identity_columns (g q) = identity_columns q) \<Longrightarrow> keeps identities (sql_stmt (update_operators P g))"
  by (auto simp: keeps_def run_sql_stmt update_operators_def update_rows_def split: option.splits)

lemma identities_record [keep_rules]: "keeps identities (record_login opr sess pn identity)"
  unfolding record_login_def UpdateLastLogin_def UpdateLoginProvider_def Let_def
  by (auto intro!: keep_rules identities_stmt simp: identity_columns_def)

lemma identities_Write [keep_rules]: "keeps identities (WriteFromRequest r e)"
proof -
  have "unaudited t = unaudited t' \<Longrightarrow> map identity_columns (operators t) = map identity_columns (operators t')" for t t'
    using unaudited_eqD(2) by metis
  with unaudited_WriteFromRequest show ?thesis unfolding keeps_def by blast
qed

lemma keeps_clock_stmt [keep_rules]: "keeps clock (sql_stmt f)"
  by (auto simp: keeps_def run_sql_stmt split: option.splits sum.splits)

lemma keeps_clock_query [keep_rules]: "keeps clock (sql_query q)" "keeps clock (sql_query_row q)"
  by (auto simp: sql_query_def sql_query_row_def intro!: keep_rules)

lemma clock_record [keep_rules]:
  "keeps clock (record_login opr sess pn identity)" "keeps clock (WriteFromRequest r e)"
  unfolding record_login_def UpdateLastLogin_def UpdateLoginProvider_def WriteFromRequest_def Write_def Let_def
  by (auto intro!: keep_rules)

lemma reads_stmt [pres_rules]: "preserves (\<lambda>s. c \<le> clock_reads s) (sql_stmt f)"
  by (auto simp: preserves_def run_sql_stmt split: option.splits sum.splits)

lemma reads_query [pres_rules]:
  "preserves (\<lambda>s. c \<le> clock_reads s) (sql_query q)" "preserves (\<lambda>s. c \<le> clock_reads s) (sql_query_row q')"
  by (auto simp: sql_query_def sql_query_row_def intro!: pres_rules)

lemma reads_record [pres_rules]: "preserves (\<lambda>s. c \<le> clock_reads s) (record_login opr sess pn identity)"
  unfolding record_login_def UpdateLastLogin_def UpdateLoginProvider_def Let_def by (auto intro!: pres_rules)

lemma reads_Write [pres_rules]: "preserves (\<lambda>s. c \<le> clock_reads s) (WriteFromRequest r e)"
  by (rule preservesI) (auto simp: WriteFromRequest_def Write_def run_simps run_sql_stmt Let_def split: option.splits sum.splits prod.splits)

definition fresh_session :: "'z store_scheme \<Rightarrow> go_time \<Rightarrow> string \<Rightarrow> request \<Rightarrow> session_row" where
  "fresh_session s t i r = \<lparr>se_id = draw_hex s 0 32, se_operator_id = i, se_created_at = rfc3339 t, se_last_seen_at = rfc3339 t,
     se_expires_at = rfc3339 (t + SessionAbsoluteLifetime), se_ip = Some (session_clientIP r), se_user_agent = Some (UserAgent r)\<rparr>"

lemma open_session_completes:
  fixes s :: "'z service_scheme"
  assumes "\<forall>n. fault s n = None" "\<forall>n. entropy_err s n = None"
    and "draw_hex s 0 32 \<notin> se_id ` set (sessions (db s))" "Op_ID opr \<in> op_id ` set (operators (db s))"
  shows "\<exists>w s'. run_state (open_session dest r pn identity opr) s = (w, s') \<and> identities s' = identities s \<and> clock s' = clock s \<and> clock_reads s \<le> clock_reads s' \<and>
    sessions_db s' = sessions_db s @ [fresh_session s (clock s (clock_reads s)) (Op_ID opr) r] \<and>
    SetCookies w = [clearOAuthHandleCookie, IssueSessionCookie (draw_hex s 0 32) (clock s (clock_reads s) + SessionAbsoluteLifetime)]"
proof -
  let ?t = "clock s (clock_reads s)" and ?q = "fresh_session s (clock s (clock_reads s)) (Op_ID opr) r"
  define sess where "sess = \<lparr>Sess_ID = draw_hex s 0 32, Sess_OperatorID = Op_ID opr, Sess_CreatedAt = ?t, Sess_LastSeenAt = ?t,
    Sess_ExpiresAt = ?t + SessionAbsoluteLifetime, Sess_IP = session_clientIP r, Sess_UserAgent = UserAgent r\<rparr>"
  define s1 where "s1 = s\<lparr>draws := Suc (draws s), clock_reads := Suc (clock_reads s), stmts := Suc (stmts s),
    db := (db s)\<lparr>sessions := sessions_db s @ [?q]\<rparr>\<rparr>"
  have c: "run_state (CreateSession (Op_ID opr) (session_clientIP r) (UserAgent r)) s = (Inr sess, s1)"
    using assms by (simp add: CreateSession_def generateSessionID_def run_simps run_sql_stmt insert_session_def Let_def
        sess_def s1_def fresh_session_def draw_hex_def)
  define m :: "('z service_scheme, unit) state" where "m = do { _ \<leftarrow> record_login opr sess pn identity;
        WriteFromRequest r (new_entry (Op_ID opr) ''login.success'' ''session'' (Sess_ID sess)
          [(''provider'', DStr pn), (''provider_user_id'', DStr (OI_ProviderUserID identity)), (''email'', DStr (OI_Email identity))]) }"
  have k: "keeps sessions_db m" "keeps identities m" "keeps clock m" unfolding m_def by (intro keep_rules)+
  have reads: "preserves (\<lambda>s. clock_reads s1 \<le> clock_reads s) m" unfolding m_def by (intro pres_rules)
  obtain s2 where m: "run_state m s1 = ((), s2)" by (cases "run_state m s1") auto
  have "run_state (open_session dest r pn identity opr) s = (with_cookie clearOAuthHandleCookie
      (with_cookie (IssueSessionCookie (Sess_ID sess) (Sess_ExpiresAt sess)) (http_Redirect (if dest = [] then ''/admin/'' else dest))), s2)"
    using c m by (simp add: open_session_def Let_def m_def split: prod.splits)
  moreover have "sessions_db s2 = sessions_db s @ [?q]" "identities s2 = identities s" "clock s2 = clock s"
      "clock_reads s \<le> clock_reads s2"
    using keeps_run[OF k(1) m] keeps_run[OF k(2) m] keeps_run[OF k(3) m] preservesD[OF reads, of s1] m by (simp_all add: s1_def)
  ultimately show ?thesis by (simp add: sess_def)
qed

lemma Callback_completes:
  fixes s :: "'z service_scheme"
  assumes "db_ok s" "\<forall>n. fault s n = None" "\<forall>n. entropy_err s n = None"
    and flow: "pending_flow s r e" "query_Get r ''code'' \<noteq> []" "req_Cookie r oauthHandleCookieName \<noteq> Some []"
    and p: "vouched providers r e p" "p \<in> set (operators (db s))" "op_status p = ''active''"
    and fresh: "draw_hex s 0 32 \<notin> se_id ` set (sessions (db s))"
  shows "\<exists>w s'. run_state (Callback providers dest r) s = (w, s') \<and> identities s' = identities s \<and> clock s' = clock s \<and> Suc (clock_reads s) \<le> clock_reads s' \<and>
    sessions_db s' = sessions_db s @ [fresh_session s (clock s (Suc (clock_reads s))) (op_id p) r] \<and>
    SetCookies w = [clearOAuthHandleCookie, IssueSessionCookie (draw_hex s 0 32) (clock s (Suc (clock_reads s)) + SessionAbsoluteLifetime)]"
proof -
  let ?pn = "URLParam r ''provider''"
  obtain h where h: "req_Cookie r oauthHandleCookieName = Some h" "h \<noteq> []" "map_of (state_entries s) h = Some e"
      "\<not> StateTTL < time_Sub (clock s (clock_reads s)) (SE_Created e)"
      "SE_State e = query_Get r ''state''" "query_Get r ''state'' \<noteq> []" "SE_Provider e = ?pn"
    using flow by (auto simp: pending_flow_def)
  obtain provider identity where pr: "providers ?pn = Some provider" "OP_Exchange provider (query_Get r ''code'') (SE_CodeVerifier e) = Inr identity"
      "OI_Email identity \<noteq> []" "op_email p = canonicalEmail (OI_Email identity)"
    using p(1) by (auto simp: vouched_def)
  define s2 where "s2 = s\<lparr>state_entries := AList.delete h (state_entries s), clock_reads := Suc (clock_reads s), stmts := Suc (stmts s)\<rparr>"
  have "find (\<lambda>q. op_email q = canonicalEmail (OI_Email identity)) (operators (db s)) = Some p"
    using assms(1) p(2) pr(4) by (subst find_key_iff) (auto simp: tables_ok_def operators_ok_def)
  then have g: "run_state (GetOperatorByEmail (OI_Email identity))
      (s\<lparr>state_entries := AList.delete h (state_entries s), clock_reads := Suc (clock_reads s)\<rparr>) = (Inr (scanOperator p), s2)"
    using assms(2) by (simp add: GetOperatorByEmail_def run_sql_query_row s2_def)
  have run: "run_state (Callback providers dest r) s = run_state (open_session dest r ?pn identity (scanOperator p)) s2"
    using h pr flow(2) g p(3)
    by (simp add: Callback_def Let_def run_Consume resolve_operator_def role_defs)
  have "\<exists>w s'. run_state (open_session dest r ?pn identity (scanOperator p)) s2 = (w, s') \<and> identities s' = identities s2 \<and> clock s' = clock s2 \<and> clock_reads s2 \<le> clock_reads s' \<and>
    sessions_db s' = sessions_db s2 @ [fresh_session s2 (clock s2 (clock_reads s2)) (Op_ID (scanOperator p)) r] \<and>
    SetCookies w = [clearOAuthHandleCookie, IssueSessionCookie (draw_hex s2 0 32) (clock s2 (clock_reads s2) + SessionAbsoluteLifetime)]"
    by (rule open_session_completes) (use assms(2,3) fresh p(2) in \<open>auto simp: s2_def draw_hex_def\<close>)
  then show ?thesis unfolding run by (simp add: s2_def fresh_session_def draw_hex_def)
qed

lemma fresh_session_in_lifetime:
  assumes "t' \<le> t + Hour"
  shows "in_lifetime t' (fresh_session s t i r)"
  using assms parse_rfc3339_le[of t] parse_rfc3339_gt[of t] parse_rfc3339_gt[of "t + SessionAbsoluteLifetime"]
  by (simp add: in_lifetime_def fresh_session_def time_Sub_def SessionAbsoluteLifetime_def SessionIdleLifetime_def
      Hour_def Minute_def Second_def minDuration_def maxDuration_def)


section \<open>Logout\<close>

lemma keeps_fault_stmt [keep_rules]: "keeps fault (sql_stmt f)"
  by (auto simp: keeps_def run_sql_stmt split: option.splits sum.splits)

lemma fault_Write [keep_rules]: "keeps fault (WriteFromRequest r e)"
  unfolding WriteFromRequest_def Write_def Let_def by (auto intro!: keep_rules)

lemma RequireSession_unknown:
  assumes "\<forall>n. fault s n = None" "req_Cookie r SessionCookieName = Some i" "i \<notin> se_id ` set (sessions (db s))"
  shows "fst (run_state (RequireSession next r) s) = refuse_session ''UNAUTHORIZED''"
proof (cases "i = []")
  case False
  have "find (\<lambda>q. se_id q = i \<and> se_operator_id q \<in> op_id ` set (operators (db s))) (sessions (db s)) = None"
    using assms(3) by (auto simp: find_None_iff)
  with False assms show ?thesis by (simp add: RequireSession_def run_GetSession)
qed (use assms in \<open>simp add: RequireSession_def\<close>)

text \<open>
  A logout closes the session. Without database failures it answers 204, clears the cookie and
  deletes exactly the session of that cookie; a later request with the cookie is answered 401,
  whatever the handler.
\<close>

lemma logout_closes_session:
  fixes s :: "'z store_scheme"
  assumes "\<forall>n. fault s n = None" "req_Cookie r SessionCookieName = Some i" "i \<noteq> []"
    and "run_state (Logout r) s = (w, s')"
  shows "Status w = 204 \<and> SetCookies w = [clearSessionCookie] \<and>
    sessions (db s') = filter (\<lambda>q. se_id q \<noteq> i) (sessions (db s)) \<and>
    (\<forall>next r'. req_Cookie r' SessionCookieName = Some i \<longrightarrow> Status (fst (run_state (RequireSession next r') s')) = 401)"
proof -
  let ?d = "(db s)\<lparr>sessions := filter (\<lambda>q. se_id q \<noteq> i) (sessions (db s))\<rparr>"
  define s1 where "s1 = s\<lparr>stmts := Suc (stmts s), db := ?d\<rparr>"
  define m :: "('z store_scheme, unit) state" where "m = (case OperatorFromContext r of
            Some opr \<Rightarrow> WriteFromRequest r (new_entry (AO_ID opr) ''logout'' ''session'' [] (logout_details (Some (Inr ()))))
          | None \<Rightarrow> State_Monad.return ())"
  have del: "run_state (DeleteSession i) s = (Inr (), s1)" using assms(1) by (simp add: run_DeleteSession s1_def)
  obtain s2 where m: "run_state m s1 = ((), s2)" by (cases "run_state m s1") auto
  have "keeps sessions_db m" "keeps fault m" unfolding m_def by (intro keep_rules)+
  with m have k: "sessions_db s2 = sessions ?d" "fault s2 = fault s" by (auto dest!: keeps_run simp: s1_def)
  have ws: "w = with_cookie clearSessionCookie (status_only 204)" "s' = s2"
    using assms(2-4) del m by (auto simp: Logout_def m_def[symmetric])
  have gone: "i \<notin> se_id ` set (sessions (db s2))" using k by auto
  have "Status (fst (run_state (RequireSession next r') s2)) = 401" if "req_Cookie r' SessionCookieName = Some i" for "next" r'
    using RequireSession_unknown[OF _ that gone, of "next"] assms(1) k by (simp add: refuse_session_def)
  with ws k show ?thesis by simp
qed

section \<open>Instances\<close>

definition sample_service :: service where
  "sample_service = fs.extend (limited.extend sample_limited (fs.fields [] (\<lambda>_. None))) (service.fields [])
     \<lparr>clock := \<lambda>_. 1700000000 * Second\<rparr>"

lemma sample_service_sel [simp]:
  "db sample_service = sample_tables" "fault sample_service n = None" "stmts sample_service = 0"
  "entropy_err sample_service n = None" "clock sample_service n = 1700000000 * Second" "clock_reads sample_service = 0"
  "draws sample_service = 0" "entropy sample_service k j = char_of (k + j)" "state_entries sample_service = []" "entries sample_service = []"
  by (simp_all add: sample_service_def fs.defs limited.defs service.defs sample_limited_def cached.defs sample_cached_def
      metered.defs sample_def)

definition sample_providers :: "string \<rightharpoonup> OAuthProvider" where
  "sample_providers = [''github'' \<mapsto> \<lparr>OP_Name = ''github'', OP_AuthorizeURL = (\<lambda>st ch. ''https://idp.example/authorize?state='' @ st),
     OP_Exchange = (\<lambda>code v. if code = ''good''
       then Inr \<lparr>OI_Email = ''Root@example.org'', OI_OrgMember = True, OI_ProviderUserID = ''root'', OI_Provider = ''github''\<rparr>
       else Inl (Some ErrTokenExchange))\<rparr>]"

definition sample_callback :: "string \<Rightarrow> string \<Rightarrow> request" where
  "sample_callback h st = \<lparr>Method = ''GET'', URL_Path = ''/api/v1/auth/callback/github'', URL_RawPath = [], Header = (\<lambda>_. []),
     Query = [(''state'', [st]), (''code'', [''good''])], Cookies = [(''packyard_oauth_handle'', h)],
     RemoteAddr = ''10.0.0.1:4000'', URLParam = (\<lambda>k. if k = ''provider'' then ''github'' else []), BasicAuth = None, ReqBody = [], ctx_operator = None\<rparr>"

definition sample_pending :: service where
  "sample_pending = sample_service\<lparr>state_entries := [(''h1'', \<lparr>SE_State = ''st1'', SE_CodeVerifier = ''v1'', SE_Provider = ''github'',
     SE_Created = 1699999900 * Second\<rparr>)]\<rparr>"

lemma sample_fresh: "draw_hex sample_service k 32 \<notin> se_id ` set (sessions sample_tables)"
proof -
  have "length (draw_hex sample_service k 32) = 64" by (simp add: draw_hex_def length_hex)
  then show ?thesis by (auto simp: sample_rows sample_session_def)
qed

lemma root_canonical: "canonicalEmail ''Root@example.org'' = ''root@example.org''"
  by code_simp

lemma sample_root:
  "sample_operator ''op-1'' ''root@example.org'' ''admin'' \<in> set (operators sample_tables)"
  "op_email (sample_operator ''op-1'' ''root@example.org'' ''admin'') = canonicalEmail ''Root@example.org''"
  "op_status (sample_operator ''op-1'' ''root@example.org'' ''admin'') = ''active''"
  by (simp_all add: sample_rows sample_operator_def root_canonical)

lemma sample_callback_sel [simp]:
  "URLParam (sample_callback h st) ''provider'' = ''github''" "req_Cookie (sample_callback h st) oauthHandleCookieName = Some h"
  "query_Get (sample_callback h st) ''state'' = st" "query_Get (sample_callback h st) ''code'' = ''good''"
  by (simp_all add: sample_callback_def req_Cookie_def oauthHandleCookieName_def query_Get_def)

lemma sample_pending_completes:
  "\<exists>w s'. run_state (Callback sample_providers [] (sample_callback ''h1'' ''st1'')) sample_pending = (w, s') \<and>
    (\<exists>q. sessions (db s') = sessions (db sample_pending) @ [q])"
proof -
  let ?e = "\<lparr>SE_State = ''st1'', SE_CodeVerifier = ''v1'', SE_Provider = ''github'', SE_Created = 1699999900 * Second\<rparr>"
  have "pending_flow sample_pending (sample_callback ''h1'' ''st1'') ?e"
    by (simp add: pending_flow_def sample_pending_def time_Sub_def StateTTL_def Minute_def Second_def minDuration_def maxDuration_def)
  moreover have "vouched sample_providers (sample_callback ''h1'' ''st1'') ?e (sample_operator ''op-1'' ''root@example.org'' ''admin'')"
    using sample_root by (simp add: vouched_def sample_providers_def)
  moreover have "draw_hex sample_pending 0 32 \<notin> se_id ` set (sessions (db sample_pending))"
    using sample_fresh[of 0] by (simp add: sample_pending_def draw_hex_def)
  ultimately show ?thesis
    using Callback_completes[of sample_pending "sample_callback ''h1'' ''st1''" ?e sample_providers
        "sample_operator ''op-1'' ''root@example.org'' ''admin''" "[]"] sample_root
    by (auto simp: sample_pending_def sample_ok)
qed


theorem callback_sound_witness:
  "\<exists>w s' q. run_state (Callback sample_providers [] (sample_callback ''h1'' ''st1'')) sample_pending = (w, s') \<and>
     sessions (db s') = sessions (db sample_pending) @ [q] \<and> hd (SetCookies w) = clearOAuthHandleCookie \<and>
     (\<exists>p \<in> set (operators sample_tables). se_operator_id q = op_id p)"
proof -
  obtain w s' q where run: "run_state (Callback sample_providers [] (sample_callback ''h1'' ''st1'')) sample_pending = (w, s')"
    and q: "sessions (db s') = sessions (db sample_pending) @ [q]" using sample_pending_completes by blast
  from callback_sound[OF run] q have "hd (SetCookies w) = clearOAuthHandleCookie"
      "\<exists>p \<in> set (operators (db sample_pending)). se_operator_id q = op_id p" by auto
  moreover have "db sample_pending = sample_tables" by (simp add: sample_pending_def)
  ultimately show ?thesis using run q by auto
qed


lemma logout_closes_session_witness:
  "Status (fst (run_state (RequireSession (\<lambda>_. State_Monad.return (status_only 200)) sample_admin_request)
     (snd (run_state (Logout sample_admin_request) sample)))) = 401"
proof -
  have c: "req_Cookie sample_admin_request SessionCookieName = Some ''sess-1''"
    by (simp add: sample_admin_request_def req_Cookie_def SessionCookieName_def)
  from logout_closes_session[OF _ this _ surjective_pairing, where s = sample] show ?thesis using c by simp
qed

end
