(* ===== verification/Csrf.thy ===== *)
theory Csrf
  imports Guard Net_Url
begin

text \<open>
  \<^verbatim>\<open>internal/middleware/csrf.go\<close> and \<^verbatim>\<open>validAdminHost\<close> of \<^verbatim>\<open>cmd/server/main.go\<close>: the cross-site request
  guard in front of the admin API and the startup check of its configured origin. The panics of
  \<^verbatim>\<open>CSRFGuard\<close> at construction are \<open>None\<close>. The lemmas: the guard lets a mutating request through
  exactly when its \<^verbatim>\<open>Origin\<close>, or \<^verbatim>\<open>Referer\<close>, has the scheme, host and port of the admin host up to
  case and default ports, and a host that passes the startup check never panics the guard.
\<close>

record originParts =
  or_scheme :: string
  or_host :: string
  or_port :: string

definition default_port :: "string \<Rightarrow> string \<Rightarrow> bool" where
  "default_port scheme port \<longleftrightarrow> scheme = ''https'' \<and> port = ''443'' \<or> scheme = ''http'' \<and> port = ''80''"

definition parseOrigin :: "string \<Rightarrow> originParts option" where
  "parseOrigin s =
    (if s = [] \<or> s = ''null'' then None
     else case url_Parse s of
         None \<Rightarrow> None
       | Some u \<Rightarrow>
           if U_Scheme u = [] \<or> U_Host u = [] then None
           else let scheme = strings_ToLower (U_Scheme u); host = strings_ToLower (url_Hostname u); port = url_Port u in
             Some \<lparr>or_scheme = scheme, or_host = host, or_port = (if default_port scheme port then [] else port)\<rparr>)"

definition parseAdminHostStrict :: "string \<Rightarrow> originParts option" where
  "parseAdminHostStrict s =
    (case parseOrigin s of
       None \<Rightarrow> None
     | Some parts \<Rightarrow> (case url_Parse s of
           Some u \<Rightarrow> if (U_Path u \<noteq> [] \<and> U_Path u \<noteq> ''/'') \<or> U_RawQuery u \<noteq> [] \<or> U_Fragment u \<noteq> [] then None else Some parts
         | None \<Rightarrow> Some parts))"

definition csrf_origin :: "request \<Rightarrow> string" where
  "csrf_origin r = (let rawOrigin = Header r ''Origin'' in if rawOrigin = [] then Header r ''Referer'' else rawOrigin)"

definition csrf_check :: "originParts \<Rightarrow> 'z store_scheme handler \<Rightarrow> 'z store_scheme handler" where
  "csrf_check expected next r =
    (if is_read_method (Method r) then next r
     else case parseOrigin (csrf_origin r) of
         Some got \<Rightarrow> if got \<noteq> expected then State_Monad.return (writeError 403 ''CSRF_DENIED'') else next r
       | None \<Rightarrow> State_Monad.return (writeError 403 ''CSRF_DENIED''))"

definition CSRFGuard :: "string \<Rightarrow> ('z store_scheme handler \<Rightarrow> 'z store_scheme handler) option" where
  "CSRFGuard adminHost = (if adminHost = [] then None else map_option csrf_check (parseAdminHostStrict adminHost))"

definition validAdminHost :: "string \<Rightarrow> bool" where
  "validAdminHost s \<longleftrightarrow>
    (case url_Parse s of
       None \<Rightarrow> False
     | Some u \<Rightarrow>
         if U_Scheme u \<noteq> ''http'' \<and> U_Scheme u \<noteq> ''https'' then False
         else if U_Host u = [] then False
         else if U_Path u \<noteq> [] \<and> U_Path u \<noteq> ''/'' then False
         else if U_RawQuery u \<noteq> [] \<or> U_Fragment u \<noteq> [] then False
         else if strings_Contains (U_Host u) '':/'' \<or> strings_Contains (U_Host u) ''/'' then False
         else True)"

section \<open>The guard\<close>

definition same_origin :: "originParts \<Rightarrow> request \<Rightarrow> bool" where
  "same_origin expected r \<longleftrightarrow> is_read_method (Method r) \<or> parseOrigin (csrf_origin r) = Some expected"

lemma run_csrf_check:
  "csrf_check expected next r = (if same_origin expected r then next r else State_Monad.return (writeError 403 ''CSRF_DENIED''))"
  by (auto simp: csrf_check_def same_origin_def split: option.split)

interpretation csrf: guard "csrf_check expected" "\<lambda>s r r'. same_origin expected r \<and> r' = r" for expected
proof (unfold_locales, goal_cases)
  case (1 s r)
  show ?case
  proof (cases "same_origin expected r")
    case True
    then show ?thesis
      by (intro disjI2 exI[of _ r] exI[of _ s] exI[of _ "\<lambda>w s. s"]) (simp add: run_csrf_check)
  next
    case False
    then show ?thesis by (simp add: run_csrf_check)
  qed
qed

section \<open>Normal forms\<close>

definition normal_port :: "string \<Rightarrow> string \<Rightarrow> string" where
  "normal_port sch port = (if default_port (strings_ToLower sch) port then [] else port)"

definition normal_origin :: "string \<Rightarrow> string \<Rightarrow> string \<Rightarrow> originParts" where
  "normal_origin sch host port = \<lparr>or_scheme = strings_ToLower sch, or_host = strings_ToLower host, or_port = normal_port sch port\<rparr>"

lemma ToLower_Nil [simp]: "strings_ToLower s = [] \<longleftrightarrow> s = []"
  by (simp add: strings_ToLower_def)

lemma origin_text_nonempty: "origin_text sch host port \<noteq> []" "origin_text sch host port \<noteq> ''null''"
proof -
  have "CHR '':'' \<in> set (origin_text sch host port)" by (simp add: origin_text_def)
  then show "origin_text sch host port \<noteq> []" "origin_text sch host port \<noteq> ''null''" by auto
qed

lemma parseOrigin_plain:
  assumes "plain_origin sch host port"
  shows "parseOrigin (origin_text sch host port) = Some (normal_origin sch host port)"
  using assms plain_host_parts[OF assms]
  by (simp add: parseOrigin_def origin_text_nonempty url_Parse_origin[OF assms] normal_origin_def normal_port_def
      plain_origin_def Let_def)

lemma parseAdminHostStrict_plain:
  assumes "plain_origin sch host port"
  shows "parseAdminHostStrict (origin_text sch host port) = Some (normal_origin sch host port)"
  by (simp add: parseAdminHostStrict_def parseOrigin_plain[OF assms] url_Parse_origin[OF assms])

text \<open>
  C30: The cross-site guard compares origins, not strings. For an admin host and a request origin
  given as scheme, host name and optional port, a mutating request reaches the handler, unchanged
  and in an unchanged state, exactly when schemes and hosts agree up to letter case and ports agree
  once a default port is dropped; otherwise it is answered 403 and nothing happens.
\<close>

theorem csrf_compares_origins:
  assumes "plain_origin asch ahost aport" "plain_origin sch host port"
    and "Header r ''Origin'' = origin_text sch host port" "\<not> is_read_method (Method r)"
  shows "\<exists>mw. CSRFGuard (origin_text asch ahost aport) = Some mw \<and>
    mw next r = (if strings_ToLower sch = strings_ToLower asch \<and> strings_ToLower host = strings_ToLower ahost \<and>
                    normal_port sch port = normal_port asch aport
                 then next r else State_Monad.return (writeError 403 ''CSRF_DENIED''))"
proof -
  have o: "csrf_origin r = origin_text sch host port"
    using assms(3) by (simp add: csrf_origin_def origin_text_nonempty)
  have "CSRFGuard (origin_text asch ahost aport) = Some (csrf_check (normal_origin asch ahost aport))"
    by (simp add: CSRFGuard_def origin_text_nonempty parseAdminHostStrict_plain[OF assms(1)])
  with assms(4) show ?thesis
    by (auto simp: run_csrf_check same_origin_def o parseOrigin_plain[OF assms(2)] normal_origin_def)
qed

definition sample_post :: "string \<Rightarrow> request" where
  "sample_post origin = \<lparr>Method = ''POST'', URL_Path = ''/api/v1/keys'', URL_RawPath = [],
     Header = (\<lambda>k. if k = ''Origin'' then origin else []), Query = [], Cookies = [], RemoteAddr = ''10.0.0.1:4000'',
     URLParam = (\<lambda>_. []), BasicAuth = None, ReqBody = [], ctx_operator = None\<rparr>"

lemma https_lower: "strings_ToLower ''https'' = ''https''"
  by code_simp

lemma csrf_compares_origins_witness:
  "\<exists>mw. CSRFGuard (origin_text ''https'' ''Admin.example.org'' []) = Some mw \<and>
     mw (\<lambda>_. State_Monad.return (status_only 204)) (sample_post ''https://admin.EXAMPLE.org:443'')
       = (State_Monad.return (status_only 204) :: (store, response) state)"
proof -
  have "plain_origin ''https'' ''Admin.example.org'' []" "plain_origin ''https'' ''admin.EXAMPLE.org'' ''443''"
    by (simp_all add: plain_origin_def is_letter_def is_digit_def unreserved_def)
  moreover have "Header (sample_post ''https://admin.EXAMPLE.org:443'') ''Origin'' = origin_text ''https'' ''admin.EXAMPLE.org'' ''443''"
    by (simp add: sample_post_def origin_text_def)
  moreover have "\<not> is_read_method (Method (sample_post ''https://admin.EXAMPLE.org:443''))"
    by (simp add: sample_post_def is_read_method_def)
  moreover have "strings_ToLower ''Admin.example.org'' = strings_ToLower ''admin.EXAMPLE.org''" by code_simp
  ultimately show ?thesis
    using csrf_compares_origins[of "''https''" "''Admin.example.org''" "[]" "''https''" "''admin.EXAMPLE.org''" "''443''"
        "sample_post ''https://admin.EXAMPLE.org:443''" "\<lambda>_. State_Monad.return (status_only 204) :: (store, response) state"]
    by (simp add: normal_port_def default_port_def https_lower)
qed

text \<open>
  The startup check is strong enough: an admin host that \<^verbatim>\<open>validAdminHost\<close> accepts never panics the
  construction of the cross-site guard.
\<close>

lemma valid_admin_host_no_panic:
  assumes "validAdminHost s"
  shows "\<exists>expected. parseAdminHostStrict s = Some expected \<and> CSRFGuard s = Some (csrf_check expected)"
proof -
  from assms obtain u where u: "url_Parse s = Some u" "U_Scheme u \<noteq> []" "U_Host u \<noteq> []"
      "U_Path u = [] \<or> U_Path u = ''/''" "U_RawQuery u = []" "U_Fragment u = []"
    by (auto simp: validAdminHost_def split: option.splits if_splits)
  have "s \<noteq> []" "s \<noteq> ''null''"
    using u by (auto simp: url_Parse_def url_parse_def getScheme_def parse_hier_def strings_HasPrefix_def
        scheme_char_def is_letter_def is_digit_def is_ctl_def strings_ToLower_def Let_def)
  with u show ?thesis
    by (auto simp: parseAdminHostStrict_def parseOrigin_def CSRFGuard_def Let_def)
qed

end
