(* ===== verification/Rate_Limit_Middleware.thy ===== *)
theory Rate_Limit_Middleware
  imports Rate_Limit Net_Url
begin

text \<open>
  The middleware of \<^verbatim>\<open>internal/middleware/ratelimit.go\<close> around the token buckets, and the address it
  keys them by. The lemmas: a request is refused exactly when its address has no token left, a
  refusal is a 429 that changes nothing but the audit log and the limiter, and a client cannot pick
  bucket keys of its own beyond IP literals.
\<close>

definition xff_token :: "string \<Rightarrow> string" where
  "xff_token xff = strings_TrimSpace (before_sep CHR '','' xff)"

definition ClientIP :: "request \<Rightarrow> string" where
  "ClientIP r = (let xff = Header r ''X-Forwarded-For''; token = xff_token xff in
     if xff \<noteq> [] \<and> token \<noteq> [] \<and> net_ParseIP token then token
     else case net_SplitHostPort (RemoteAddr r) of Some (host, _) \<Rightarrow> host | None \<Rightarrow> RemoteAddr r)"

definition rate_limited_entry :: "request \<Rightarrow> string \<Rightarrow> Entry" where
  "rate_limited_entry r ip = new_entry [] ''auth.rate_limited'' ''ip'' ip
     ([(''ip'', DStr ip), (''path'', DStr (Rate_Limit.truncate (URL_Path r) auditPathMaxLen))] @
      (if URLParam r ''provider'' \<noteq> [] then [(''provider'', DStr (URLParam r ''provider''))] else []))"

definition Middleware :: "'z limited_scheme handler \<Rightarrow> 'z limited_scheme handler" where
  "Middleware next r = do {
     let ip = ClientIP r;
     (allowed, shouldAudit) \<leftarrow> check ip;
     if allowed then next r
     else do {
       _ \<leftarrow> (if shouldAudit then WriteFromRequest r (rate_limited_entry r ip) else State_Monad.return ());
       State_Monad.return (writeError 429 ''RATE_LIMITED'') } }"

section \<open>The gate\<close>

definition has_token :: "'z limited_scheme \<Rightarrow> string \<Rightarrow> bool" where
  "has_token s ip \<longleftrightarrow> (case map_of (buckets s) ip of
     None \<Rightarrow> True | Some b \<Rightarrow> 1 \<le> refilled (capacity s) (refillPerSecond s) (clock s (clock_reads s)) b)"

lemma check_allowed: "fst (fst (run_state (check ip) s)) \<longleftrightarrow> has_token s ip"
  by (auto simp: run_check check_bucket_def has_token_def Let_def split: option.splits)

lemma check_keeps: "db (snd (run_state (check ip) s)) = db s"
  by (simp add: run_check split: prod.splits)

definition refuse_limited :: "request \<Rightarrow> bool \<Rightarrow> ('z limited_scheme, response) state" where
  "refuse_limited r shouldAudit = do {
     _ \<leftarrow> (if shouldAudit then WriteFromRequest r (rate_limited_entry r (ClientIP r)) else State_Monad.return ());
     State_Monad.return (writeError 429 ''RATE_LIMITED'') }"

lemma run_Middleware:
  "run_state (Middleware next r) s =
    (let ((allowed, audit), s1) = run_state (check (ClientIP r)) s in
     if allowed then run_state (next r) s1 else run_state (refuse_limited r audit) s1)"
  by (simp add: Middleware_def refuse_limited_def Let_def run_simps split: prod.splits)

lemma core_refuse_limited [keep_rules]: "keeps core_db (refuse_limited r audit)"
  unfolding refuse_limited_def by (intro keep_rules)

lemma fst_refuse_limited: "fst (run_state (refuse_limited r audit) s) = writeError 429 ''RATE_LIMITED''"
  by (simp add: refuse_limited_def run_simps split: prod.splits)

interpretation limiter: guard Middleware "\<lambda>s r r'. has_token s (ClientIP r) \<and> r' = r"
proof (unfold_locales, goal_cases)
  case (1 s r)
  obtain allowed audit s1 where c: "run_state (check (ClientIP r)) s = ((allowed, audit), s1)"
    by (metis surj_pair)
  then have db: "db s1 = db s" and al: "allowed \<longleftrightarrow> has_token s (ClientIP r)"
    using check_keeps[of "ClientIP r" s] check_allowed[of "ClientIP r" s] by simp_all
  show ?case
  proof (cases allowed)
    case True
    then show ?thesis using al db c
      by (intro disjI2 exI[of _ r] exI[of _ s1] exI[of _ "\<lambda>w s. s"]) (simp add: run_Middleware)
  next
    case False
    then show ?thesis using c db keepsD[OF core_refuse_limited, of r audit s1]
      by (intro disjI1 exI[of _ "fst (run_state (refuse_limited r audit) s1)"] exI[of _ "snd (run_state (refuse_limited r audit) s1)"])
        (simp add: run_Middleware)
  qed
qed

text \<open>
  An address without a token left is refused: the handler behind the limiter does not run,
  whatever it is, the answer is 429, and every table but the audit log stays as it was.
\<close>

lemma rate_limit_refuses:
  assumes "\<not> has_token s (ClientIP r)"
  shows "\<exists>s'. (\<forall>next. run_state (Middleware next r) s = (writeError 429 ''RATE_LIMITED'', s')) \<and>
    unaudited_db s' = unaudited_db s"
proof -
  obtain allowed audit s1 where c: "run_state (check (ClientIP r)) s = ((allowed, audit), s1)"
    by (metis surj_pair)
  then have s1: "db s1 = db s" "\<not> allowed"
    using check_keeps[of "ClientIP r" s] check_allowed[of "ClientIP r" s] assms by simp_all
  have "keeps unaudited_db (refuse_limited r audit)"
    unfolding refuse_limited_def by (intro keep_rules)
  from keepsD[OF this, of s1] show ?thesis
    using s1 c surjective_pairing[of "run_state (refuse_limited r audit) s1"]
    by (intro exI[of _ "snd (run_state (refuse_limited r audit) s1)"]) (simp add: run_Middleware fst_refuse_limited)
qed

definition spent_limited :: limited where
  "spent_limited = sample_limited\<lparr>buckets := [(''10.0.0.1'', \<lparr>tokens = 0, lastUpdate = clock sample_limited (clock_reads sample_limited), lastAuditAt = zero_time\<rparr>)]\<rparr>"

definition sample_login :: request where
  "sample_login = \<lparr>Method = ''GET'', URL_Path = ''/api/v1/auth/login/github'', URL_RawPath = [], Header = (\<lambda>_. []), Query = [], Cookies = [],
     RemoteAddr = ''10.0.0.1:4000'', URLParam = (\<lambda>k. if k = ''provider'' then ''github'' else []), BasicAuth = None, ReqBody = [], ctx_operator = None\<rparr>"

lemma sample_login_ip: "ClientIP sample_login = ''10.0.0.1''"
proof -
  have "net_SplitHostPort ''10.0.0.1:4000'' = Some (''10.0.0.1'', ''4000'')" by code_simp
  then show ?thesis by (simp add: ClientIP_def sample_login_def)
qed

lemma rate_limit_refuses_witness:
  "\<exists>s'. (\<forall>next. run_state (Middleware next sample_login) spent_limited = (writeError 429 ''RATE_LIMITED'', s')) \<and>
    unaudited_db s' = unaudited_db spent_limited"
proof (rule rate_limit_refuses)
  show "\<not> has_token spent_limited (ClientIP sample_login)"
    by (simp add: sample_login_ip has_token_def spent_limited_def refilled_def Let_def time_Sub_def
        minDuration_def maxDuration_def Seconds_def)
qed

text \<open>
  The key space of the buckets is bounded by IP literals: two requests over the same connection
  address fall into the same bucket unless one of them names an IP literal in its forwarding header,
  and then that literal is its key.
\<close>

lemma client_ip_key:
  assumes "RemoteAddr r = RemoteAddr r'"
  shows "ClientIP r = ClientIP r' \<or>
    (\<exists>q \<in> {r, r'}. net_ParseIP (ClientIP q) \<and> ClientIP q = xff_token (Header q ''X-Forwarded-For''))"
  using assms by (auto simp: ClientIP_def Let_def split: option.splits)

end
