(* ===== verification/Accounts_Handler.thy ===== *)
theory Accounts_Handler
  imports Pagination Guard Rate_Limit Store_Components
begin

text \<open>
  \<^verbatim>\<open>internal/handler/accounts.go\<close>: the subscriber-account endpoints. Each handler is the whole Go
  method: role gate, pre-flight lookup, body, store call, the mapping of every error, audit row and
  response. What the handlers do to access is shown in \<open>Key_Lifecycle\<close>, what they keep in \<open>Router\<close> and what they
  leave in the audit log in \<open>Accountability\<close>.
\<close>

record createAccountRequest =
  car_Email :: string
  car_OrgName :: string

record updateAccountRequest =
  uar_Email :: "string option"
  uar_OrgName :: "string option"
  uar_Status :: "string option"

record createKeyRequest =
  ckr_AccountID :: string
  ckr_Component :: string
  ckr_Label :: string
  ckr_ExpiresAt :: "go_time option"

section \<open>Handlers\<close>

definition requireAdmin :: "request \<Rightarrow> response + auth_Operator" where
  "requireAdmin r = (case OperatorFromContext r of
       None \<Rightarrow> Inl (writeError 401 ''UNAUTHORIZED'')
     | Some opr \<Rightarrow> if \<not> IsAdmin opr then Inl (writeError 403 ''ROLE_DENIED'') else Inr opr)"

text \<open>\<^verbatim>\<open>wrapKey\<close>; the argument \<open>vis\<close> is the handler's map of component visibilities, loaded at startup.\<close>

definition wrapKey :: "(string \<Rightarrow> string) \<Rightarrow> Key \<Rightarrow> Key \<times> string" where
  "wrapKey vis k = (k, if vis (Key_Component k) = [] then ''private'' else vis (Key_Component k))"

definition json_key :: "(string \<Rightarrow> string) \<Rightarrow> Key \<Rightarrow> payload" where
  "json_key vis k = JKey (fst (wrapKey vis k)) (snd (wrapKey vis k))"

definition Accounts_Create :: "createAccountRequest option \<Rightarrow> 'z store_scheme handler" where
  "Accounts_Create body r = (case requireAdmin r of
       Inl w \<Rightarrow> State_Monad.return w
     | Inr opr \<Rightarrow> (case body of
         None \<Rightarrow> State_Monad.return (writeError 400 ''INVALID_REQUEST'')
       | Some req \<Rightarrow> do {
           c \<leftarrow> CreateAccount \<lparr>In_Email = car_Email req, In_OrgName = car_OrgName req\<rparr> (AO_ID opr);
           case c of
             Inl e \<Rightarrow> State_Monad.return
               (if errors_Is e ErrAccountEmailExists then writeError 409 ''ACCOUNT_EMAIL_EXISTS''
                else if errors_Is e ErrAccountInvalid then writeError 400 ''INVALID_REQUEST''
                else writeError 500 ''ACCOUNT_CREATE_FAILED'')
           | Inr account \<Rightarrow> do {
               _ \<leftarrow> WriteFromRequest r (new_entry (AO_ID opr) ''account.create'' ''account'' (Acc_ID account)
                      [(''email'', DStr (Acc_Email account)), (''org_name'', DStr (TruncateAuditField (Acc_OrgName account)))]);
               State_Monad.return (writeJSON 201 (JAccount account)) } }))"

definition Accounts_List :: "'z store_scheme handler" where
  "Accounts_List r =
    (let statusFilter = query_Get r ''status'' in
     if statusFilter \<noteq> [] \<and> statusFilter \<noteq> AccountStatusActive \<and> statusFilter \<noteq> AccountStatusSuspended \<and>
        statusFilter \<noteq> AccountStatusDeleted
       then State_Monad.return (writeError 400 ''INVALID_REQUEST'')
     else case parsePagination r of
         Inl w \<Rightarrow> State_Monad.return w
       | Inr (offset, limit) \<Rightarrow> do {
           l \<leftarrow> ListAccounts statusFilter offset (limit + 1);
           State_Monad.return (case l of
             Inl e \<Rightarrow> writeError 500 ''ACCOUNT_LIST_FAILED''
           | Inr accs \<Rightarrow> writePaginationLinks r (has_more limit accs) offset limit
               (writeJSON 200 (JAccounts (page_of limit accs)))) })"

text \<open>The error mapping of the pre-flight \<^verbatim>\<open>GetAccount\<close>, the same in every handler.\<close>

definition account_get_error :: "goerr \<Rightarrow> response" where
  "account_get_error e = (if errors_Is e ErrAccountNotFound then writeError 404 ''ACCOUNT_NOT_FOUND''
     else writeError 500 ''ACCOUNT_GET_FAILED'')"

definition Accounts_Get :: "'z store_scheme handler" where
  "Accounts_Get r = do {
     g \<leftarrow> GetAccount (URLParam r ''id'');
     State_Monad.return (case g of Inl e \<Rightarrow> account_get_error e | Inr account \<Rightarrow> writeJSON 200 (JAccount account)) }"

text \<open>The status part of a patch: an error response, or the target status and the audit action.\<close>

definition status_change :: "Account \<Rightarrow> string option \<Rightarrow> response + AccountStatus option \<times> string" where
  "status_change existing st = (case st of
       None \<Rightarrow> Inr (None, ''account.update'')
     | Some target \<Rightarrow>
         if target = AccountStatusDeleted \<or> Acc_Status existing = AccountStatusDeleted
           then Inl (writeError 400 ''INVALID_STATUS_TRANSITION'')
         else if target \<noteq> AccountStatusActive \<and> target \<noteq> AccountStatusSuspended
           then Inl (writeError 400 ''INVALID_STATUS_TRANSITION'')
         else Inr (Some target,
           if Acc_Status existing = AccountStatusActive \<and> target = AccountStatusSuspended then ''account.suspend''
           else if Acc_Status existing = AccountStatusSuspended \<and> target = AccountStatusActive then ''account.reactivate''
           else ''account.update''))"

definition account_update_error :: "goerr \<Rightarrow> response" where
  "account_update_error e =
    (if errors_Is e ErrAccountNotFound then writeError 404 ''ACCOUNT_NOT_FOUND''
     else if errors_Is e ErrAccountEmailExists then writeError 409 ''ACCOUNT_EMAIL_EXISTS''
     else if errors_Is e ErrAccountInvalid then writeError 400 ''INVALID_REQUEST''
     else if errors_Is e ErrInvalidStatusTransition then writeError 400 ''INVALID_STATUS_TRANSITION''
     else if errors_Is e ErrLegacyAccountProtected then writeError 403 ''ACCOUNT_RESERVED''
     else writeError 500 ''ACCOUNT_UPDATE_FAILED'')"

definition Accounts_Update :: "updateAccountRequest option \<Rightarrow> 'z store_scheme handler" where
  "Accounts_Update body r = (case requireAdmin r of
       Inl w \<Rightarrow> State_Monad.return w
     | Inr opr \<Rightarrow> do {
         let i = URLParam r ''id'';
         g \<leftarrow> GetAccount i;
         case g of
           Inl e \<Rightarrow> State_Monad.return (account_get_error e)
         | Inr existing \<Rightarrow> (case body of
             None \<Rightarrow> State_Monad.return (writeError 400 ''INVALID_REQUEST'')
           | Some req \<Rightarrow> (case status_change existing (uar_Status req) of
               Inl w \<Rightarrow> State_Monad.return w
             | Inr (target, action) \<Rightarrow> do {
                 u \<leftarrow> UpdateAccount i \<lparr>Upd_Email = uar_Email req, Upd_OrgName = uar_OrgName req, Upd_Status = target\<rparr>;
                 case u of
                   Inl e \<Rightarrow> State_Monad.return (account_update_error e)
                 | Inr updated \<Rightarrow> do {
                     _ \<leftarrow> WriteFromRequest r (new_entry (AO_ID opr) action ''account'' (Acc_ID updated) []);
                     State_Monad.return (writeJSON 200 (JAccount updated)) } })) })"

definition account_delete_error :: "goerr \<Rightarrow> response" where
  "account_delete_error e =
    (if errors_Is e ErrAccountNotFound then writeError 404 ''ACCOUNT_NOT_FOUND''
     else if errors_Is e ErrLegacyAccountProtected then writeError 403 ''ACCOUNT_RESERVED''
     else writeError 500 ''ACCOUNT_DELETE_FAILED'')"

definition Accounts_Delete :: "'z store_scheme handler" where
  "Accounts_Delete r = (case requireAdmin r of
       Inl w \<Rightarrow> State_Monad.return w
     | Inr opr \<Rightarrow> do {
         let i = URLParam r ''id'';
         let confirm = query_Get r ''confirm'';
         g \<leftarrow> GetAccount i;
         case g of
           Inl e \<Rightarrow> State_Monad.return (account_get_error e)
         | Inr _ \<Rightarrow>
             if confirm \<noteq> i then do {
               n \<leftarrow> CountActiveAccountKeys i;
               State_Monad.return (case n of
                 Inl e \<Rightarrow> writeError 500 ''ACCOUNT_DELETE_FAILED''
               | Inr k \<Rightarrow> writeJSON 409 (JDeletePreview k)) }
             else do {
               d \<leftarrow> DeleteAccountWithCascade i;
               case d of
                 Inl e \<Rightarrow> State_Monad.return (account_delete_error e)
               | Inr revoked \<Rightarrow> do {
                   _ \<leftarrow> WriteFromRequest r (new_entry (AO_ID opr) ''account.delete'' ''account'' i [(''keys_revoked'', DInt revoked)]);
                   State_Monad.return (writeJSON 200 (JKeysRevoked revoked)) } } })"

definition Accounts_ListKeys :: "(string \<Rightarrow> string) \<Rightarrow> 'z store_scheme handler" where
  "Accounts_ListKeys vis r = do {
     let i = URLParam r ''id'';
     g \<leftarrow> GetAccount i;
     case g of
       Inl e \<Rightarrow> State_Monad.return (account_get_error e)
     | Inr _ \<Rightarrow> (case parsePagination r of
         Inl w \<Rightarrow> State_Monad.return w
       | Inr (offset, limit) \<Rightarrow> do {
           l \<leftarrow> ListAccountKeys i offset (limit + 1);
           State_Monad.return (case l of
             Inl e \<Rightarrow> writeError 500 ''ACCOUNT_KEYS_LIST_FAILED''
           | Inr keys \<Rightarrow> writePaginationLinks r (has_more limit keys) offset limit
               (writeJSON 200 (JKeys (map (wrapKey vis) (page_of limit keys))))) }) }"

definition Accounts_IssueKey :: "(string \<Rightarrow> string) \<Rightarrow> createKeyRequest option \<Rightarrow> 'z store_scheme handler" where
  "Accounts_IssueKey vis body r = (case requireAdmin r of
       Inl w \<Rightarrow> State_Monad.return w
     | Inr opr \<Rightarrow> do {
         let i = URLParam r ''id'';
         g \<leftarrow> GetAccount i;
         case g of
           Inl e \<Rightarrow> State_Monad.return (account_get_error e)
         | Inr account \<Rightarrow>
             if Acc_Status account \<noteq> AccountStatusActive then State_Monad.return (writeError 409 ''ACCOUNT_SUSPENDED'')
             else (case body of
               None \<Rightarrow> State_Monad.return (writeError 400 ''INVALID_REQUEST'')
             | Some req \<Rightarrow>
                 if ckr_AccountID req \<noteq> [] \<and> ckr_AccountID req \<noteq> i
                   then State_Monad.return (writeError 400 ''INVALID_REQUEST'')
                 else do {
                   c \<leftarrow> GetComponent (ckr_Component req);
                   case c of
                     Inl e \<Rightarrow> State_Monad.return (if errors_Is e ErrComponentNotFound then writeError 400 ''INVALID_COMPONENT''
                             else writeError 500 ''KEY_CREATE_FAILED'')
                   | Inr _ \<Rightarrow> do {
                       k \<leftarrow> CreateKeyForAccount i (ckr_Component req) (ckr_Label req) (ckr_ExpiresAt req);
                       case k of
                         Inl e \<Rightarrow> State_Monad.return (if errors_Is e ErrAccountNotFound then writeError 404 ''ACCOUNT_NOT_FOUND''
                                 else writeError 500 ''KEY_CREATE_FAILED'')
                       | Inr key \<Rightarrow> do {
                           _ \<leftarrow> WriteFromRequest r (new_entry (AO_ID opr) ''key.issue'' ''key'' (Key_ID key)
                                  [(''account_id'', DStr i), (''component'', DStr (ckr_Component req)),
                                   (''label'', DStr (TruncateAuditField (ckr_Label req)))]);
                           State_Monad.return (writeJSON 201 (json_key vis key)) } } }) })"

end
