(* ===== verification/Keys_Handler.thy ===== *)
theory Keys_Handler
  imports Accounts_Handler
begin

text \<open>
  \<^verbatim>\<open>internal/handler/keys.go\<close>: the key endpoints. \<open>vis\<close> and \<open>valid\<close> are the visibility map and the set
  of component names the service loads once at startup; the account and component stores are the
  SQLite store, as \<^verbatim>\<open>main.go\<close> wires them.
\<close>

definition Keys_Get :: "(string \<Rightarrow> string) \<Rightarrow> 'z store_scheme handler" where
  "Keys_Get vis r = do {
     g \<leftarrow> GetByID (URLParam r ''id'');
     State_Monad.return (case g of
       Inl e \<Rightarrow> if errors_Is e ErrNotFound then writeError 404 ''KEY_NOT_FOUND'' else writeError 500 ''KEY_GET_FAILED''
     | Inr key \<Rightarrow> writeJSON 200 (json_key vis key)) }"

definition Keys_Delete :: "'z store_scheme handler" where
  "Keys_Delete r = do {
     let i = URLParam r ''id'';
     d \<leftarrow> RevokeKey i;
     case d of
       Inr _ \<Rightarrow> do {
         _ \<leftarrow> WriteFromRequest r (new_entry [] ''key.revoke'' ''key'' i []);
         State_Monad.return (status_only 204) }
     | Inl e \<Rightarrow>
         if errors_Is e ErrNotFound then do {
           g \<leftarrow> GetByID i;
           State_Monad.return (case g of
             Inr _ \<Rightarrow> status_only 204
           | Inl e2 \<Rightarrow> if errors_Is e2 ErrNotFound then writeError 404 ''KEY_NOT_FOUND''
                      else writeError 500 ''KEY_DELETE_FAILED'') }
         else State_Monad.return (writeError 500 ''KEY_DELETE_FAILED'') }"

definition Keys_List :: "(string \<Rightarrow> bool) \<Rightarrow> (string \<Rightarrow> string) \<Rightarrow> 'z store_scheme handler" where
  "Keys_List valid vis r =
    (let component = query_Get r ''component'' in
     if component \<noteq> [] \<and> \<not> valid component then State_Monad.return (writeError 400 ''INVALID_COMPONENT'')
     else let account = query_Get r ''account'' in
       case parsePagination r of
         Inl w \<Rightarrow> State_Monad.return w
       | Inr (offset, limit) \<Rightarrow> do {
           l \<leftarrow> ListKeys component account offset (limit + 1);
           State_Monad.return (case l of
             Inl e \<Rightarrow> writeError 500 ''KEY_LIST_FAILED''
           | Inr keys \<Rightarrow> writePaginationLinks r (has_more limit keys) offset limit
               (writeJSON 200 (JKeys (map (wrapKey vis) (page_of limit keys))))) })"

definition Keys_Create :: "(string \<Rightarrow> string) \<Rightarrow> createKeyRequest option \<Rightarrow> 'z store_scheme handler" where
  "Keys_Create vis body r = (case body of
       None \<Rightarrow> State_Monad.return (writeError 400 ''INVALID_REQUEST'')
     | Some req \<Rightarrow>
         if ckr_AccountID req = [] then State_Monad.return (writeError 400 ''MISSING_ACCOUNT_ID'')
         else if ckr_AccountID req = ''legacy'' then State_Monad.return (writeError 400 ''ACCOUNT_RESERVED'')
         else do {
           a \<leftarrow> GetAccount (ckr_AccountID req);
           case a of
             Inl e \<Rightarrow> State_Monad.return (if errors_Is e ErrAccountNotFound then writeError 404 ''ACCOUNT_NOT_FOUND''
                     else writeError 500 ''KEY_CREATE_FAILED'')
           | Inr account \<Rightarrow>
               if Acc_Status account \<noteq> AccountStatusActive then State_Monad.return (writeError 409 ''ACCOUNT_SUSPENDED'')
               else do {
                 c \<leftarrow> GetComponent (ckr_Component req);
                 case c of
                   Inl e \<Rightarrow> State_Monad.return (if errors_Is e ErrComponentNotFound then writeError 400 ''INVALID_COMPONENT''
                           else writeError 500 ''KEY_CREATE_FAILED'')
                 | Inr _ \<Rightarrow> do {
                     k \<leftarrow> CreateKey (ckr_AccountID req) (ckr_Component req) (ckr_Label req) (ckr_ExpiresAt req);
                     case k of
                       Inl e \<Rightarrow> State_Monad.return (if errors_Is e ErrAccountNotFound then writeError 404 ''ACCOUNT_NOT_FOUND''
                               else writeError 500 ''KEY_CREATE_FAILED'')
                     | Inr key \<Rightarrow> do {
                         _ \<leftarrow> WriteFromRequest r (new_entry [] ''key.issue'' ''key'' (Key_ID key)
                                [(''account_id'', DStr (Key_AccountID key)), (''component'', DStr (Key_Component key)),
                                 (''label'', DStr (TruncateAuditField (Key_Label key)))]);
                         State_Monad.return (writeJSON 201 (json_key vis key)) } } } })"

end
