(* ===== verification/Operators_Handler.thy ===== *)
theory Operators_Handler
  imports Accounts_Handler Session_Middleware
begin

text \<open>
  \<^verbatim>\<open>internal/handler/operators.go\<close>: operator management, with a gate of its own that is the
  one of the accounts handler.
\<close>

record createOperatorRequest =
  cor_Email :: string
  cor_Role :: string

record updateOperatorRequest =
  uor_Role :: "string option"
  uor_Status :: "string option"

section \<open>Handlers\<close>

definition Operators_requireAdmin :: "request \<Rightarrow> response + auth_Operator" where
  "Operators_requireAdmin r = (case OperatorFromContext r of
       None \<Rightarrow> Inl (writeError 401 ''UNAUTHORIZED'')
     | Some opr \<Rightarrow> if \<not> IsAdmin opr then Inl (writeError 403 ''ROLE_DENIED'') else Inr opr)"

lemma Operators_requireAdmin_same [simp]: "Operators_requireAdmin = requireAdmin"
  by (simp add: fun_eq_iff Operators_requireAdmin_def requireAdmin_def split: option.split)

definition Operators_List :: "'z store_scheme handler" where
  "Operators_List r = (case Operators_requireAdmin r of
       Inl w \<Rightarrow> State_Monad.return w
     | Inr _ \<Rightarrow> (case parsePagination r of
         Inl w \<Rightarrow> State_Monad.return w
       | Inr (offset, limit) \<Rightarrow> do {
           l \<leftarrow> ListOperators offset (limit + 1);
           State_Monad.return (case l of
             Inl e \<Rightarrow> writeError 500 ''OPERATOR_LIST_FAILED''
           | Inr ops \<Rightarrow> writePaginationLinks r (has_more limit ops) offset limit
               (writeJSON 200 (JOperators (page_of limit ops)))) }))"

text \<open>\<^verbatim>\<open>role := store.OperatorRoleAdmin; if req.Role != "" ...\<close>: \<open>None\<close> for an unknown role.\<close>

definition requested_role :: "string \<Rightarrow> OperatorRole option" where
  "requested_role role = (if role = [] then Some OperatorRoleAdmin
     else if role = OperatorRoleAdmin \<or> role = OperatorRoleReadonly then Some role else None)"

definition Operators_Create :: "createOperatorRequest option \<Rightarrow> 'z store_scheme handler" where
  "Operators_Create body r = (case Operators_requireAdmin r of
       Inl w \<Rightarrow> State_Monad.return w
     | Inr opr \<Rightarrow> (case body of
         None \<Rightarrow> State_Monad.return (writeError 400 ''INVALID_REQUEST'')
       | Some req \<Rightarrow> (case requested_role (cor_Role req) of
           None \<Rightarrow> State_Monad.return (writeError 400 ''INVALID_REQUEST'')
         | Some role \<Rightarrow> do {
             c \<leftarrow> AllowlistOperator (cor_Email req) role (AO_ID opr);
             case c of
               Inl e \<Rightarrow> State_Monad.return
                 (if errors_Is e ErrOperatorExists then writeError 409 ''OPERATOR_EMAIL_EXISTS''
                  else if errors_Is e ErrOperatorInvalid then writeError 400 ''INVALID_REQUEST''
                  else writeError 500 ''OPERATOR_CREATE_FAILED'')
             | Inr created \<Rightarrow> do {
                 _ \<leftarrow> WriteFromRequest r (new_entry (AO_ID opr) ''operator.add'' ''operator'' (Op_ID created)
                        [(''email'', DStr (Op_Email created)), (''role'', DStr (Op_Role created))]);
                 State_Monad.return (writeJSON 201 (JOperator created)) } })))"

text \<open>The validation of an optional field against its two values.\<close>

definition valid_field :: "string \<Rightarrow> string \<Rightarrow> string option \<Rightarrow> bool" where
  "valid_field a b v = (case v of None \<Rightarrow> True | Some x \<Rightarrow> x = a \<or> x = b)"

definition operator_update_error :: "goerr \<Rightarrow> response" where
  "operator_update_error e =
    (if errors_Is e ErrOperatorNotFound then writeError 404 ''OPERATOR_NOT_FOUND''
     else if errors_Is e ErrOperatorSelfLockout then writeError 403 ''OPERATOR_SELF_LOCKOUT''
     else writeError 500 ''OPERATOR_UPDATE_FAILED'')"

text \<open>The audit rows and the forced logout after a committed update.\<close>

definition after_operator_update ::
  "request \<Rightarrow> auth_Operator \<Rightarrow> string \<Rightarrow> OperatorRole option \<Rightarrow> OperatorStatus option \<Rightarrow> Operator \<Rightarrow> Operator \<Rightarrow>
   ('z store_scheme, unit) state" where
  "after_operator_update r actor i newRole newStatus before after = do {
     _ \<leftarrow> (if newRole \<noteq> None \<and> Op_Role before \<noteq> Op_Role after
           then WriteFromRequest r (new_entry (AO_ID actor) ''operator.role_change'' ''operator'' i
                  [(''from'', DStr (Op_Role before)), (''to'', DStr (Op_Role after))])
           else State_Monad.return ());
     _ \<leftarrow> (if newStatus \<noteq> None \<and> Op_Status before \<noteq> Op_Status after
           then WriteFromRequest r (new_entry (AO_ID actor)
                  (if Op_Status after = OperatorStatusActive then ''operator.enable'' else ''operator.disable'') ''operator'' i
                  [(''from'', DStr (Op_Status before)), (''to'', DStr (Op_Status after))])
           else State_Monad.return ());
     let demoted = (Op_Role before = OperatorRoleAdmin \<and> Op_Role after = OperatorRoleReadonly);
     let disabled = (Op_Status before = OperatorStatusActive \<and> Op_Status after = OperatorStatusDisabled);
     _ \<leftarrow> (if demoted \<or> disabled then DeleteOperatorSessions i else State_Monad.return (Inr ()));
     State_Monad.return () }"

definition Operators_Update :: "updateOperatorRequest option \<Rightarrow> 'z store_scheme handler" where
  "Operators_Update body r = (case Operators_requireAdmin r of
       Inl w \<Rightarrow> State_Monad.return w
     | Inr actor \<Rightarrow> do {
         let i = URLParam r ''id'';
         (case body of
           None \<Rightarrow> State_Monad.return (writeError 400 ''INVALID_REQUEST'')
         | Some req \<Rightarrow>
             if \<not> valid_field OperatorRoleAdmin OperatorRoleReadonly (uor_Role req)
               then State_Monad.return (writeError 400 ''INVALID_REQUEST'')
             else if \<not> valid_field OperatorStatusActive OperatorStatusDisabled (uor_Status req)
               then State_Monad.return (writeError 400 ''INVALID_REQUEST'')
             else if uor_Role req = None \<and> uor_Status req = None
               then State_Monad.return (writeError 400 ''INVALID_REQUEST'')
             else do {
               u \<leftarrow> UpdateOperatorAtomically i (uor_Role req) (uor_Status req);
               case u of
                 Inl e \<Rightarrow> State_Monad.return (operator_update_error e)
               | Inr (before, after) \<Rightarrow> do {
                   _ \<leftarrow> after_operator_update r actor i (uor_Role req) (uor_Status req) before after;
                   State_Monad.return (writeJSON 200 (JOperator after)) } }) })"

end
