(* ===== verification/Audit_Handler.thy ===== *)
theory Audit_Handler
  imports Pagination Guard Sample_State
begin

text \<open>
  \<^verbatim>\<open>internal/handler/audit.go\<close>: the read endpoint of the audit log. The theorem: the listing is the requested page of exactly the rows that
  match the filter and lie in the half-open window of instants, newest first, although window and order are comparisons of texts.
\<close>

text \<open>\<^verbatim>\<open>t.Truncate(time.Second)\<close>.\<close>

definition Truncate_Second :: "go_time \<Rightarrow> go_time" where
  "Truncate_Second t = t - t mod Second"

definition time_bound :: "string \<Rightarrow> response + go_time option" where
  "time_bound v = (if v = [] then Inr None
     else (case time_Parse v of None \<Rightarrow> Inl (writeError 400 ''INVALID_REQUEST'') | Some t \<Rightarrow> Inr (Some (Truncate_Second t))))"

definition empty_window :: "go_time option \<Rightarrow> go_time option \<Rightarrow> bool" where
  "empty_window since until = (case (since, until) of (Some a, Some b) \<Rightarrow> \<not> a < b | _ \<Rightarrow> False)"

definition Audit_List :: "'z store_scheme handler" where
  "Audit_List r = (case OperatorFromContext r of
       None \<Rightarrow> State_Monad.return (writeError 401 ''UNAUTHORIZED'')
     | Some _ \<Rightarrow> (case time_bound (query_Get r ''since'') of
         Inl w \<Rightarrow> State_Monad.return w
       | Inr since \<Rightarrow> (case time_bound (query_Get r ''until'') of
           Inl w \<Rightarrow> State_Monad.return w
         | Inr until \<Rightarrow>
             if empty_window since until then State_Monad.return (writeError 400 ''INVALID_REQUEST'')
             else (case parsePagination r of
               Inl w \<Rightarrow> State_Monad.return w
             | Inr (offset, limit) \<Rightarrow> do {
                 l \<leftarrow> ListAuditEntries \<lparr>Flt_OperatorID = query_Get r ''operator'', Flt_Action = query_Get r ''action'',
                        Flt_TargetType = query_Get r ''target_type'', Flt_TargetID = query_Get r ''target_id'',
                        Flt_Since = since, Flt_Until = until\<rparr> offset (limit + 1);
                 State_Monad.return (case l of
                   Inl e \<Rightarrow> writeError 500 ''AUDIT_LIST_FAILED''
                 | Inr entries \<Rightarrow> writePaginationLinks r (has_more limit entries) offset limit
                     (writeJSON 200 (JEntries (page_of limit entries)))) }))))"

lemma Audit_List_keeps [keep_rules]: "keeps db (Audit_List r)"
  unfolding Audit_List_def by (intro keep_rules)

section \<open>The window\<close>

text \<open>What a request asks for, in terms of instants.\<close>

definition asked :: "request \<Rightarrow> string \<Rightarrow> string option \<Rightarrow> bool" where
  "asked r name v \<longleftrightarrow> query_Get r name = [] \<or> v = Some (query_Get r name)"

definition in_window :: "go_time option \<Rightarrow> go_time option \<Rightarrow> go_time \<Rightarrow> bool" where
  "in_window since until t \<longleftrightarrow> (\<forall>a. since = Some a \<longrightarrow> a \<le> t) \<and> (\<forall>b. until = Some b \<longrightarrow> t < b)"

definition wanted :: "request \<Rightarrow> go_time option \<Rightarrow> go_time option \<Rightarrow> audit_row \<Rightarrow> bool" where
  "wanted r since until q \<longleftrightarrow> asked r ''operator'' (au_operator_id q) \<and> asked r ''action'' (Some (au_action q)) \<and>
     asked r ''target_type'' (au_target_type q) \<and> asked r ''target_id'' (au_target_id q) \<and>
     in_window since until (parse_rfc3339 (au_ts q))"

text \<open>Bounds are whole seconds.\<close>

lemma bound_seconds: "time_bound v = Inr (Some t) \<Longrightarrow> t = parse_rfc3339 (rfc3339 t)"
  by (auto simp: time_bound_def Truncate_Second_def rfc3339_def parse_rfc3339_def Second_def split: if_splits option.splits)

lemma audit_matches_wanted:
  assumes "in_years (au_ts q)" "time_bound (query_Get r ''since'') = Inr since" "time_bound (query_Get r ''until'') = Inr until"
    and "\<forall>t \<in> set_option since \<union> set_option until. in_years (rfc3339 t)"
  shows "audit_matches \<lparr>Flt_OperatorID = query_Get r ''operator'', Flt_Action = query_Get r ''action'',
      Flt_TargetType = query_Get r ''target_type'', Flt_TargetID = query_Get r ''target_id'', Flt_Since = since, Flt_Until = until\<rparr> q \<longleftrightarrow>
    wanted r since until q"
proof -
  have lt: "parse_rfc3339 (rfc3339 t) \<le> parse_rfc3339 c \<longleftrightarrow> rfc3339 t \<le> c"
    "parse_rfc3339 c < parse_rfc3339 (rfc3339 t) \<longleftrightarrow> c < rfc3339 t" for t c
    by (simp_all add: parse_rfc3339_def Second_def)
  have since: "since = Some a \<Longrightarrow> rfc3339_text (rfc3339 a) \<le> rfc3339_text (au_ts q) \<longleftrightarrow> a \<le> parse_rfc3339 (au_ts q)" for a
    using assms rfc3339_text_le[of "rfc3339 a" "au_ts q"] lt(1)[of a "au_ts q"] bound_seconds[of "query_Get r ''since''" a] by auto
  have until: "until = Some b \<Longrightarrow> rfc3339_text (au_ts q) < rfc3339_text (rfc3339 b) \<longleftrightarrow> parse_rfc3339 (au_ts q) < b" for b
    using assms rfc3339_text_order[of "au_ts q" "rfc3339 b"] lt(2)[of "au_ts q" b] bound_seconds[of "query_Get r ''until''" b] by auto
  show ?thesis using since until
    by (cases since; cases until) (auto simp: audit_matches_def wanted_def asked_def in_window_def)
qed

text \<open>
  C31: The audit listing answers by time. On a log stamped in the years 0 to 9999, a read by an operator whose window has bounds in these years and
  is not empty, with valid paging and a working database, is answered 200 with the requested page of the
  entries whose operator, action and target are those asked for and whose time is at least \<^verbatim>\<open>since\<close> and before \<^verbatim>\<open>until\<close>, the
  latest first and, of one second, the last written first.
\<close>

theorem audit_listing_exact:
  assumes "OperatorFromContext r \<noteq> None" "parsePagination r = Inr (offset, limit)" "fault s (stmts s) = None"
    and "time_bound (query_Get r ''since'') = Inr since" "time_bound (query_Get r ''until'') = Inr until" "\<not> empty_window since until"
    and "\<forall>t \<in> set_option since \<union> set_option until. in_years (rfc3339 t)" "\<forall>q \<in> set (audit_log (db s)). in_years (au_ts q)"
    and "run_state (Audit_List r) s = (w, s')"
  shows "Status w = 200 \<and> Body w = JEntries (map (\<lambda>q. entry_of_row q (parse_rfc3339 (au_ts q)))
      (sql_page limit offset (rev (sort_key (\<lambda>q. (au_ts q, au_id q)) (filter (wanted r since until) (audit_log (db s)))))))"
proof -
  let ?F = "\<lparr>Flt_OperatorID = query_Get r ''operator'', Flt_Action = query_Get r ''action'', Flt_TargetType = query_Get r ''target_type'',
    Flt_TargetID = query_Get r ''target_id'', Flt_Since = since, Flt_Until = until\<rparr>"
  let ?rows = "rev (sort_key (\<lambda>q. (au_ts q, au_id q)) (filter (wanted r since until) (audit_log (db s))))"
  have limit: "0 < limit" using parsePagination_range[of r] by (auto simp: assms(2))
  have "filter (audit_matches ?F) (audit_log (db s)) = filter (wanted r since until) (audit_log (db s))"
    using assms(8) by (intro filter_cong refl audit_matches_wanted[OF _ assms(4,5,7)]) auto
  moreover have "sort_key (\<lambda>q. (rfc3339_text (au_ts q), au_id q)) (filter (wanted r since until) (audit_log (db s))) = rev ?rows"
    using assms(8) by (simp add: audit_order)
  ultimately have q: "run_state (sql_query (\<lambda>t. sql_page (limit + 1) offset (rev (sort_key (\<lambda>q. (rfc3339_text (au_ts q), au_id q))
      (filter (audit_matches ?F) (audit_log t)))))) s = (Inr (sql_page (limit + 1) offset ?rows), s\<lparr>stmts := Suc (stmts s)\<rparr>)"
    using assms(3) by (simp add: run_sql_query)
  have years: "\<forall>q \<in> set (sql_page (limit + 1) offset ?rows). in_years (au_ts q)"
    using assms(8) by (auto simp: sql_page_def Let_def split: if_splits dest!: in_set_takeD in_set_dropD)
  show ?thesis
    using assms(1,2,4-6,9) q scan_audit_rows[OF years]
    by (auto simp: Audit_List_def ListAuditEntries_def writeJSON_def page_of_sql_page[OF limit])
qed

section \<open>An instance\<close>

text \<open>Three rows a day apart, and a read of the second half of November 2023.\<close>

definition sample_row :: "int \<Rightarrow> int \<Rightarrow> audit_row" where
  "sample_row i ts = \<lparr>au_id = i, au_ts = ts, au_operator_id = Some ''op-1'', au_action = ''key.issue'', au_target_type = Some ''key'', au_target_id = Some ''k'',
     au_details = [], au_ip = None, au_user_agent = None\<rparr>"

definition sample_log :: metered where
  "sample_log = sample\<lparr>db := sample_tables\<lparr>audit_log := [sample_row 1 1699900000, sample_row 2 1700010000, sample_row 3 1700010000]\<rparr>\<rparr>"

definition sample_audit_request :: request where
  "sample_audit_request = \<lparr>Method = ''GET'', URL_Path = ''/api/v1/audit'', URL_RawPath = [], Header = (\<lambda>_. []),
     Query = [(''since'', [''2023-11-15T00:00:00Z'']), (''until'', [''2023-12-01T00:00:00+01:00''])], Cookies = [], RemoteAddr = ''10.0.0.1:4000'',
     URLParam = (\<lambda>_. []), BasicAuth = None, ReqBody = [], ctx_operator = Some \<lparr>AO_ID = ''op-3'', AO_Email = ''viewer@example.org'', AO_Role = RoleReadonly\<rparr>\<rparr>"

theorem audit_listing_exact_witness:
  "Body (fst (run_state (Audit_List sample_audit_request) sample_log)) =
     JEntries (map (\<lambda>q. entry_of_row q (1700010000 * Second)) [sample_row 3 1700010000, sample_row 2 1700010000])"
proof -
  have q: "query_Get sample_audit_request ''since'' = ''2023-11-15T00:00:00Z''" "query_Get sample_audit_request ''until'' = ''2023-12-01T00:00:00+01:00''"
    "k \<notin> {''since'', ''until''} \<Longrightarrow> query_Get sample_audit_request k = []" for k
    by (simp_all add: query_Get_def sample_audit_request_def)
  have b: "time_bound ''2023-11-15T00:00:00Z'' = Inr (Some (1700006400 * Second))" "time_bound ''2023-12-01T00:00:00+01:00'' = Inr (Some (1701385200 * Second))"
    by code_simp+
  have p: "parsePagination sample_audit_request = Inr (0, 50)" by (simp add: parsePagination_def q(3) defaultPageLimit_def Let_def)
  have o: "OperatorFromContext sample_audit_request \<noteq> None" by (simp add: OperatorFromContext_def sample_audit_request_def)
  have y: "\<forall>t \<in> set_option (Some (1700006400 * Second)) \<union> set_option (Some (1701385200 * Second)). in_years (rfc3339 t)"
    by (simp add: in_years_def rfc3339_def Second_def)
  have l: "audit_log (db sample_log) = [sample_row 1 1699900000, sample_row 2 1700010000, sample_row 3 1700010000]"
    by (simp add: sample_log_def)
  have ly: "\<forall>q \<in> set (audit_log (db sample_log)). in_years (au_ts q)" unfolding l by (simp add: sample_row_def in_years_def)
  from audit_listing_exact[OF o p _ _ _ _ y ly surjective_pairing]
  have "Body (fst (run_state (Audit_List sample_audit_request) sample_log)) = JEntries (map (\<lambda>q. entry_of_row q (parse_rfc3339 (au_ts q)))
      (sql_page 50 0 (rev (sort_key (\<lambda>q. (au_ts q, au_id q))
        (filter (wanted sample_audit_request (Some (1700006400 * Second)) (Some (1701385200 * Second))) (audit_log (db sample_log)))))))"
    using b by (simp add: q(1,2) sample_log_def empty_window_def Second_def)
  then show ?thesis
    unfolding l by (simp add: wanted_def asked_def q(3) in_window_def sample_row_def parse_rfc3339_def Second_def sql_page_def)
qed

text \<open>A bound past the year 9999 has five digits of year and sorts before the stamps of this millennium: such an \<^verbatim>\<open>until\<close> hides every row.\<close>

lemma far_until_hides_rows:
  "time_bound ''9999-12-31T23:59:59-01:00'' = Inr (Some (253402304399 * Second)) \<and>
   \<not> audit_matches \<lparr>Flt_OperatorID = [], Flt_Action = [], Flt_TargetType = [], Flt_TargetID = [], Flt_Since = None,
       Flt_Until = Some (253402304399 * Second)\<rparr> (sample_row 2 1700010000)"
proof
  have "time_Parse ''9999-12-31T23:59:59-01:00'' = Some (253402304399 * Second)" by code_simp
  then show "time_bound ''9999-12-31T23:59:59-01:00'' = Inr (Some (253402304399 * Second))" by (simp add: time_bound_def Truncate_Second_def)
  have d: "date_of_days 2932897 = (10000, 1, 1)" by code_simp
  have "rfc3339_text 1700010000 = ''2023-11-15T01:00:00Z''" by code_simp
  moreover have "rfc3339_text 253402304399 = ''10000-01-01T00:59:59Z''"
    by (simp add: rfc3339_text_def d appendInt_def zero_pad_def nat_digits.simps Let_def char_of_def bit_0)
  ultimately show "\<not> audit_matches \<lparr>Flt_OperatorID = [], Flt_Action = [], Flt_TargetType = [], Flt_TargetID = [], Flt_Since = None,
      Flt_Until = Some (253402304399 * Second)\<rparr> (sample_row 2 1700010000)"
    by (simp add: audit_matches_def sample_row_def rfc3339_def Second_def less_char_def)
qed

end
