(* ===== verification/Service_Frame.thy ===== *)
theory Service_Frame
  imports Login_Flow Csrf Role_Middleware Rate_Limit_Middleware Keys_Handler Operators_Handler Audit_Handler Components_Handler
begin

text \<open>
  What the operations the handlers call leave alone. The parts of the state the guarantees of the service speak of are the tables and
  the component cache, \<open>seen\<close>: reading operations keep both, and the writing operations of the store keep the cache, which
  only its own operations change.
\<close>

definition seen :: "service \<Rightarrow> tables \<times> duration \<times> (string \<times> cachedComponent) list \<times> (string \<Rightarrow> nat)" where
  "seen s = (db s, cache_part s)"

lemma keeps_seen: "keeps db m \<Longrightarrow> keeps cache_part m \<Longrightarrow> keeps seen m"
  by (simp add: keeps_def seen_def)

lemma seen_eq: "seen s' = seen s \<longleftrightarrow> db s' = db s \<and> cache_part s' = cache_part s"
  by (auto simp: seen_def)

section \<open>Reads\<close>

lemma cache_stmt [keep_rules]: "keeps cache_part (sql_stmt f)"
  by (rule keeps_ext_stmt) simp_all

lemma cache_draws [simp]: "cache_part (s\<lparr>draws := n\<rparr>) = cache_part s"
  by (simp add: cache_part_def)

lemma cache_queries [keep_rules]:
  "keeps cache_part (sql_query q)" "keeps cache_part (sql_query_row q')" "keeps cache_part time_Now" "keeps cache_part (rand_Read k)"
  by (auto intro!: keep_rules)

lemma cache_reads:
  "keeps cache_part (GetAccount i)" "keeps cache_part (ListAccounts f offset limit)" "keeps cache_part (CountActiveAccountKeys i)"
  "keeps cache_part (ListAccountKeys i offset limit)" "keeps cache_part (GetComponent n)" "keeps cache_part (ListComponents offset limit)"
  "keeps cache_part (CountActiveComponentKeys n)" "keeps cache_part (GetByValue v)" "keeps cache_part (GetByID v)"
  "keeps cache_part (ListKeys c a offset limit)" "keeps cache_part (GetOperator i)" "keeps cache_part (GetOperatorByEmail e)"
  "keeps cache_part (ListOperators offset limit)" "keeps cache_part (GetSession i)" "keeps cache_part (ListAuditEntries af offset limit)"
  unfolding GetAccount_def ListAccounts_def CountActiveAccountKeys_def ListAccountKeys_def GetComponent_def ListComponents_def
    CountActiveComponentKeys_def GetByValue_def GetByID_def ListKeys_def GetOperator_def GetOperatorByEmail_def ListOperators_def
    GetSession_def ListAuditEntries_def Let_def
  by (auto intro!: keep_rules)

lemma cache_parts:
  "keeps cache_part (Put h e)" "keeps cache_part (Consume h)" "keeps cache_part state_reap" "keeps cache_part (RandomHex k)"
  "keeps cache_part (inc_RequestsTotal lbl)" "keeps cache_part (observe_RequestDuration d)" "keeps cache_part (answer lbl code)"
  "keeps cache_part (check ip)" "keeps cache_part (MkdirAll dir)"
  by (auto simp: keeps_def run_Put run_Consume run_state_reap RandomHex_def run_simps run_rand_Read run_check MkdirAll_def cache_part_def run_answer
      split: option.splits sum.splits prod.splits)

lemma cache_Audit_List: "keeps cache_part (Audit_List r)"
  unfolding Audit_List_def Let_def by (auto intro!: keep_rules cache_reads)

lemma mkdir_tree_keeps: "(\<And>dir. keeps f (MkdirAll dir)) \<Longrightarrow> keeps f (mkdir_tree root_dir name ts)"
  by (induction ts) (auto intro!: keep_rules)

lemma initRPMTree_keeps: "keeps db (initRPMTree root_dir c)" "keeps cache_part (initRPMTree root_dir c)"
proof -
  have "keeps db (MkdirAll dir)" for dir by (simp add: keeps_def MkdirAll_def)
  then show "keeps db (initRPMTree root_dir c)" "keeps cache_part (initRPMTree root_dir c)"
    by (auto simp: initRPMTree_def intro!: mkdir_tree_keeps cache_parts)
qed

lemma check_keeps_db: "keeps db (check ip)"
  by (simp add: keeps_def check_keeps)

lemmas store_reads = GetAccount_keeps ListAccounts_keeps CountActiveAccountKeys_keeps ListAccountKeys_keeps
  GetComponent_keeps ListComponents_keeps CountActiveComponentKeys_keeps GetByValue_keeps GetByID_keeps ListKeys_keeps
  GetOperator_keeps GetOperatorByEmail_keeps ListOperators_keeps GetSession_keeps ListAuditEntries_keeps
  Audit_List_keeps keeps_state_db RandomHex_keeps answer_keeps keeps_metrics(1,2)

lemmas seen_reads = GetAccount_keeps[THEN keeps_seen, OF cache_reads(1)] ListAccounts_keeps[THEN keeps_seen, OF cache_reads(2)]
  CountActiveAccountKeys_keeps[THEN keeps_seen, OF cache_reads(3)] ListAccountKeys_keeps[THEN keeps_seen, OF cache_reads(4)]
  GetComponent_keeps[THEN keeps_seen, OF cache_reads(5)] ListComponents_keeps[THEN keeps_seen, OF cache_reads(6)]
  CountActiveComponentKeys_keeps[THEN keeps_seen, OF cache_reads(7)] GetByValue_keeps[THEN keeps_seen, OF cache_reads(8)]
  GetByID_keeps[THEN keeps_seen, OF cache_reads(9)] ListKeys_keeps[THEN keeps_seen, OF cache_reads(10)]
  GetOperator_keeps[THEN keeps_seen, OF cache_reads(11)] GetOperatorByEmail_keeps[THEN keeps_seen, OF cache_reads(12)]
  ListOperators_keeps[THEN keeps_seen, OF cache_reads(13)] GetSession_keeps[THEN keeps_seen, OF cache_reads(14)]
  ListAuditEntries_keeps[THEN keeps_seen, OF cache_reads(15)] Audit_List_keeps[THEN keeps_seen, OF cache_Audit_List]
  keeps_state_db(1)[THEN keeps_seen, OF cache_parts(1)] keeps_state_db(2)[THEN keeps_seen, OF cache_parts(2)]
  keeps_state_db(3)[THEN keeps_seen, OF cache_parts(3)] RandomHex_keeps[THEN keeps_seen, OF cache_parts(4)]
  keeps_metrics(1)[THEN keeps_seen, OF cache_parts(5)] keeps_metrics(2)[THEN keeps_seen, OF cache_parts(6)]
  answer_keeps[THEN keeps_seen, OF cache_parts(7)] check_keeps_db[THEN keeps_seen, OF cache_parts(8)]
  initRPMTree_keeps(1)[THEN keeps_seen, OF initRPMTree_keeps(2)]

section \<open>Writes\<close>

lemma cache_tx [keep_rules]: "keeps cache_part body \<Longrightarrow> keeps cache_part (sql_tx a b body)"
  by (rule keeps_ext_tx) simp_all

lemma cache_writes:
  "keeps cache_part (CreateAccount inp opid)" "keeps cache_part (UpdateAccount i upd)" "keeps cache_part (DeleteAccountWithCascade i)"
  "keeps cache_part (CreateKey i cname lbl ex)" "keeps cache_part (CreateKeyForAccount i cname lbl ex)" "keeps cache_part (RevokeKey i)"
  "keeps cache_part (IncrementUsage i)" "keeps cache_part (AllowlistOperator em rl byid)" "keeps cache_part (UpdateOperatorAtomically i nr ns)"
  "keeps cache_part (UpdateLastLogin i t)" "keeps cache_part (UpdateLoginProvider i pn u)" "keeps cache_part (CreateSession i ip ua)"
  "keeps cache_part (TouchSession i t)" "keeps cache_part (DeleteSession i)" "keeps cache_part (DeleteOperatorSessions i)" "keeps cache_part (Write ent)"
  unfolding CreateAccount_def UpdateAccount_def DeleteAccountWithCascade_def CreateKey_def CreateKeyForAccount_def RevokeKey_def IncrementUsage_def
    AllowlistOperator_def UpdateOperatorAtomically_def UpdateLastLogin_def UpdateLoginProvider_def CreateSession_def TouchSession_def DeleteSession_def
    DeleteOperatorSessions_def Write_def generateAccountID_def generateKeyValue_def generateOperatorID_def generateSessionID_def lockout_guard_def Let_def
  by (auto intro!: keep_rules)

end
