(* ===== verification/Json.thy ===== *)
theory Json
  imports Store_Audit
begin

text \<open>
  \<^verbatim>\<open>encoding/json\<close> as the service reads it: the grammar of RFC 8259 with Go's limit on nesting, the way
  \<^verbatim>\<open>Unmarshal\<close> and \<^verbatim>\<open>Decoder.Decode\<close> use it, and the assignment of a value to the fields of a
  struct (keys match up to ASCII case, an exact match first; \<^verbatim>\<open>null\<close> leaves a field alone; a value of the wrong
  kind is an error; a repeated key assigns again). Bytes from 128 on are copied, as for valid UTF-8 text; an
  escape denotes the UTF-8 bytes of its code point. The lemmas: the bound on the number of calls is enough, and strings
  and numbers are read back as they were written.
\<close>

section \<open>Values and their grammar\<close>

datatype json =
    Null
  | Boolean bool
  | Number string
  | Text string
  | Array "json list"
  | Object "(string \<times> json) list"

definition json_ws :: "char \<Rightarrow> bool" where
  "json_ws c \<longleftrightarrow> c = CHR '' '' \<or> c = CHR 0x09 \<or> c = CHR 0x0A \<or> c = CHR 0x0D"

abbreviation skip_ws :: "string \<Rightarrow> string" where
  "skip_ws \<equiv> dropWhile json_ws"

subsection \<open>Strings\<close>

definition hex_value :: "char \<Rightarrow> nat option" where
  "hex_value c = (let n = (of_char c :: nat) in
     if 48 \<le> n \<and> n \<le> 57 then Some (n - 48)
     else if 97 \<le> n \<and> n \<le> 102 then Some (n - 87)
     else if 65 \<le> n \<and> n \<le> 70 then Some (n - 55) else None)"

fun hex4 :: "string \<Rightarrow> (nat \<times> string) option" where
  "hex4 (a # b # c # d # rest) =
    (case (hex_value a, hex_value b, hex_value c, hex_value d) of
       (Some w, Some x, Some y, Some z) \<Rightarrow> Some (4096 * w + 256 * x + 16 * y + z, rest)
     | _ \<Rightarrow> None)"
| "hex4 _ = None"

definition utf8 :: "nat \<Rightarrow> string" where
  "utf8 n =
    (if n < 128 then [char_of n]
     else if n < 2048 then [char_of (192 + n div 64), char_of (128 + n mod 64)]
     else if n < 65536 then [char_of (224 + n div 4096), char_of (128 + n div 64 mod 64), char_of (128 + n mod 64)]
     else [char_of (240 + n div 262144), char_of (128 + n div 4096 mod 64), char_of (128 + n div 64 mod 64), char_of (128 + n mod 64)])"

definition is_surrogate :: "nat \<Rightarrow> bool" where
  "is_surrogate u \<longleftrightarrow> 55296 \<le> u \<and> u < 57344"

text \<open>The text after \<^verbatim>\<open>\u\<close>: a code unit, joined with a second escape when both make a surrogate pair; a lone
  surrogate is the replacement character.\<close>

definition unicode_escape :: "string \<Rightarrow> (string \<times> string) option" where
  "unicode_escape s = (case hex4 s of
       None \<Rightarrow> None
     | Some (u, rest) \<Rightarrow>
         if \<not> is_surrogate u then Some (utf8 u, rest)
         else (case rest of
             b # e # rest' \<Rightarrow>
               if b = CHR 0x5C \<and> e = CHR ''u'' \<and> u < 56320 then
                 (case hex4 rest' of
                    Some (v, rest'') \<Rightarrow> if 56320 \<le> v \<and> v < 57344
                      then Some (utf8 (65536 + (u - 55296) * 1024 + (v - 56320)), rest'') else Some (utf8 65533, rest)
                  | None \<Rightarrow> Some (utf8 65533, rest))
               else Some (utf8 65533, rest)
           | _ \<Rightarrow> Some (utf8 65533, rest)))"

definition simple_escape :: "char \<Rightarrow> char option" where
  "simple_escape c =
    (if c = CHR 0x22 \<or> c = CHR 0x5C \<or> c = CHR ''/'' then Some c
     else if c = CHR ''b'' then Some (CHR 0x08)
     else if c = CHR ''f'' then Some (CHR 0x0C)
     else if c = CHR ''n'' then Some (CHR 0x0A)
     else if c = CHR ''r'' then Some (CHR 0x0D)
     else if c = CHR ''t'' then Some (CHR 0x09) else None)"

lemma hex4_shorter: "hex4 s = Some (u, rest) \<Longrightarrow> length rest < length s"
  by (induction s rule: hex4.induct) (auto split: option.splits)

lemma unicode_escape_shorter: "unicode_escape s = Some (t, rest) \<Longrightarrow> length rest < length s"
  by (auto simp: unicode_escape_def dest!: hex4_shorter split: option.splits if_splits list.splits)

text \<open>The text after the opening quote.\<close>

function parse_text :: "string \<Rightarrow> (string \<times> string) option" where
  "parse_text s = (case s of
       [] \<Rightarrow> None
     | c # cs \<Rightarrow>
         if c = CHR 0x22 then Some ([], cs)
         else if c = CHR 0x5C then
           (case cs of
              [] \<Rightarrow> None
            | e # ds \<Rightarrow>
                if e = CHR ''u'' then
                  (case unicode_escape ds of
                     None \<Rightarrow> None
                   | Some (t, rest) \<Rightarrow> map_option (\<lambda>(u, r). (t @ u, r)) (parse_text rest))
                else (case simple_escape e of
                     None \<Rightarrow> None
                   | Some d \<Rightarrow> map_option (\<lambda>(u, r). (d # u, r)) (parse_text ds)))
         else if (of_char c :: nat) < 32 then None
         else map_option (\<lambda>(u, r). (c # u, r)) (parse_text cs))"
  by pat_completeness auto
termination
  by (relation "measure length") (auto dest: unicode_escape_shorter)

declare parse_text.simps [simp del]

subsection \<open>Numbers\<close>

definition is_number_char :: "char \<Rightarrow> bool" where
  "is_number_char c \<longleftrightarrow> is_digit c \<or> c \<in> {CHR ''-'', CHR ''+'', CHR ''.'', CHR ''e'', CHR ''E''}"

definition all_digits :: "string \<Rightarrow> bool" where
  "all_digits s \<longleftrightarrow> s \<noteq> [] \<and> list_all is_digit s"

definition valid_exponent :: "string \<Rightarrow> bool" where
  "valid_exponent s = (case s of [] \<Rightarrow> True
     | c # cs \<Rightarrow> (c = CHR ''e'' \<or> c = CHR ''E'') \<and>
         all_digits (case cs of d # ds \<Rightarrow> if d = CHR ''+'' \<or> d = CHR ''-'' then ds else cs | [] \<Rightarrow> []))"

definition valid_fraction :: "string \<Rightarrow> bool" where
  "valid_fraction s = (case s of
       c # cs \<Rightarrow> if c = CHR ''.'' then takeWhile is_digit cs \<noteq> [] \<and> valid_exponent (dropWhile is_digit cs) else valid_exponent s
     | [] \<Rightarrow> True)"

definition valid_number :: "string \<Rightarrow> bool" where
  "valid_number s = (let t = (case s of c # cs \<Rightarrow> if c = CHR ''-'' then cs else s | [] \<Rightarrow> []);
       ds = takeWhile is_digit t in
     ds \<noteq> [] \<and> (length ds = 1 \<or> hd ds \<noteq> CHR ''0'') \<and> valid_fraction (dropWhile is_digit t))"

subsection \<open>Values\<close>

definition maxNestingDepth :: nat where "maxNestingDepth = 10000"

definition parse_scalar :: "string \<Rightarrow> (json \<times> string) option" where
  "parse_scalar s =
    (if strings_HasPrefix s [CHR 0x22] then map_option (\<lambda>(t, r). (Text t, r)) (parse_text (tl s))
     else if strings_HasPrefix s ''true'' then Some (Boolean True, drop 4 s)
     else if strings_HasPrefix s ''false'' then Some (Boolean False, drop 5 s)
     else if strings_HasPrefix s ''null'' then Some (Null, drop 4 s)
     else if valid_number (takeWhile is_number_char s)
       then Some (Number (takeWhile is_number_char s), dropWhile is_number_char s)
     else None)"

text \<open>The first argument bounds the number of calls, the second counts the nesting. A call either consumes
  input or hands it to one that does, so twice the length of the input is enough (\<open>parse_fuel\<close> below).\<close>

fun parse_value :: "nat \<Rightarrow> nat \<Rightarrow> string \<Rightarrow> (json \<times> string) option"
and parse_elements :: "nat \<Rightarrow> nat \<Rightarrow> string \<Rightarrow> (json list \<times> string) option"
and parse_members :: "nat \<Rightarrow> nat \<Rightarrow> string \<Rightarrow> ((string \<times> json) list \<times> string) option" where
  "parse_value 0 d s = None"
| "parse_value (Suc n) d s = (case skip_ws s of
       [] \<Rightarrow> None
     | c # cs \<Rightarrow>
         if c \<noteq> CHR 0x7B \<and> c \<noteq> CHR ''['' then parse_scalar (c # cs)
         else if maxNestingDepth \<le> d then None
         else (case skip_ws cs of
             [] \<Rightarrow> None
           | e # es \<Rightarrow>
               if c = CHR 0x7B then
                 (if e = CHR 0x7D then Some (Object [], es)
                  else map_option (\<lambda>(ms, r). (Object ms, r)) (parse_members n (Suc d) (e # es)))
               else
                 (if e = CHR '']'' then Some (Array [], es)
                  else map_option (\<lambda>(vs, r). (Array vs, r)) (parse_elements n (Suc d) (e # es)))))"
| "parse_elements 0 d s = None"
| "parse_elements (Suc n) d s = (case parse_value n d s of
       None \<Rightarrow> None
     | Some (v, r) \<Rightarrow> (case skip_ws r of
         [] \<Rightarrow> None
       | c # cs \<Rightarrow> if c = CHR '']'' then Some ([v], cs)
           else if c = CHR '','' then map_option (\<lambda>(vs, r'). (v # vs, r')) (parse_elements n d cs)
           else None))"
| "parse_members 0 d s = None"
| "parse_members (Suc n) d s = (case skip_ws s of
       [] \<Rightarrow> None
     | q # qs \<Rightarrow> if q \<noteq> CHR 0x22 then None
       else (case parse_text qs of
           None \<Rightarrow> None
         | Some (k, r) \<Rightarrow> (case skip_ws r of
             [] \<Rightarrow> None
           | c # cs \<Rightarrow> if c \<noteq> CHR '':'' then None
             else (case parse_value n d cs of
                 None \<Rightarrow> None
               | Some (v, r') \<Rightarrow> (case skip_ws r' of
                   [] \<Rightarrow> None
                 | e # es \<Rightarrow> if e = CHR 0x7D then Some ([(k, v)], es)
                     else if e = CHR '','' then map_option (\<lambda>(ms, r''). ((k, v) # ms, r'')) (parse_members n d es)
                     else None)))))"

text \<open>\<^verbatim>\<open>Decoder.Decode\<close> takes the first value and leaves the rest; \<^verbatim>\<open>Unmarshal\<close> demands that only white space follows.\<close>

definition Decode :: "string \<Rightarrow> json option" where
  "Decode s = map_option fst (parse_value (2 * length s + 2) 0 s)"

definition Unmarshal :: "string \<Rightarrow> json option" where
  "Unmarshal s = (case parse_value (2 * length s + 2) 0 s of
     Some (v, r) \<Rightarrow> if skip_ws r = [] then Some v else None | None \<Rightarrow> None)"

section \<open>Assigning to struct fields\<close>

text \<open>The field a key names: the exact name, otherwise the first that matches up to case.\<close>

definition field_of :: "(string \<times> 'f) list \<Rightarrow> string \<Rightarrow> 'f option" where
  "field_of fs k = (case map_of fs k of
       Some f \<Rightarrow> Some f
     | None \<Rightarrow> map_option snd (find (\<lambda>(n, _). strings_ToLower n = strings_ToLower k) fs))"

definition decode_struct :: "(string \<times> (json \<Rightarrow> 'a \<Rightarrow> 'a option)) list \<Rightarrow> 'a \<Rightarrow> json \<Rightarrow> 'a option" where
  "decode_struct fs zero v = (case v of
       Null \<Rightarrow> Some zero
     | Object ms \<Rightarrow> foldl (\<lambda>acc (k, w). case acc of None \<Rightarrow> None
         | Some a \<Rightarrow> (case field_of fs k of None \<Rightarrow> Some a | Some f \<Rightarrow> f w a)) (Some zero) ms
     | _ \<Rightarrow> None)"

definition decode_list :: "(json \<Rightarrow> 'a option) \<Rightarrow> json \<Rightarrow> 'a list option" where
  "decode_list f v = (case v of
       Null \<Rightarrow> Some []
     | Array vs \<Rightarrow> (if list_all (\<lambda>w. f w \<noteq> None) vs then Some (map (\<lambda>w. the (f w)) vs) else None)
     | _ \<Rightarrow> None)"

definition set_text :: "((string \<Rightarrow> string) \<Rightarrow> 'a \<Rightarrow> 'a) \<Rightarrow> json \<Rightarrow> 'a \<Rightarrow> 'a option" where
  "set_text upd v a = (case v of Text t \<Rightarrow> Some (upd (\<lambda>_. t) a) | Null \<Rightarrow> Some a | _ \<Rightarrow> None)"

definition set_bool :: "((bool \<Rightarrow> bool) \<Rightarrow> 'a \<Rightarrow> 'a) \<Rightarrow> json \<Rightarrow> 'a \<Rightarrow> 'a option" where
  "set_bool upd v a = (case v of Boolean b \<Rightarrow> Some (upd (\<lambda>_. b) a) | Null \<Rightarrow> Some a | _ \<Rightarrow> None)"

definition set_bool_ptr :: "((bool option \<Rightarrow> bool option) \<Rightarrow> 'a \<Rightarrow> 'a) \<Rightarrow> json \<Rightarrow> 'a \<Rightarrow> 'a option" where
  "set_bool_ptr upd v a = (case v of Boolean b \<Rightarrow> Some (upd (\<lambda>_. Some b) a) | Null \<Rightarrow> Some (upd (\<lambda>_. None) a) | _ \<Rightarrow> None)"

text \<open>An \<^verbatim>\<open>int64\<close> field takes a literal without fraction and exponent, in range.\<close>

definition set_int64 :: "((int \<Rightarrow> int) \<Rightarrow> 'a \<Rightarrow> 'a) \<Rightarrow> json \<Rightarrow> 'a \<Rightarrow> 'a option" where
  "set_int64 upd v a = (case v of
       Number t \<Rightarrow> (case strconv_Atoi t of Some i \<Rightarrow> Some (upd (\<lambda>_. i) a) | None \<Rightarrow> None)
     | Null \<Rightarrow> Some a
     | _ \<Rightarrow> None)"

section \<open>The bound on the number of calls is enough\<close>

lemma parse_text_shorter: "parse_text s = Some (t, r) \<Longrightarrow> length r < length s"
proof (induction s arbitrary: t r rule: parse_text.induct)
  case (1 s)
  show ?case
  proof (cases s)
    case (Cons c cs)
    then show ?thesis using 1 by (subst (asm) (4) parse_text.simps)
      (fastforce split: if_splits option.splits list.splits dest!: unicode_escape_shorter)
  qed (use 1 in \<open>simp add: parse_text.simps\<close>)
qed

lemma skip_ws_le: "skip_ws s = c # cs \<Longrightarrow> length cs < length s"
  using length_dropWhile_le[of json_ws s] by simp

lemma number_nonempty: "valid_number s \<Longrightarrow> s \<noteq> []"
  by (auto simp: valid_number_def)

lemma HasPrefix_nonempty: "strings_HasPrefix s (c # p) \<Longrightarrow> 0 < length s"
  by (cases s) (simp_all add: strings_HasPrefix_def)

lemma dropWhile_shorter: "takeWhile P s \<noteq> [] \<Longrightarrow> length (dropWhile P s) < length s"
  by (cases s) (auto simp: length_dropWhile_le less_Suc_eq_le split: if_splits)

lemma tail_shorter: "0 < length s \<Longrightarrow> length r < length (tl s) \<Longrightarrow> length r < length s"
  by simp

lemma parse_scalar_shorter:
  assumes "parse_scalar s = Some (v, r)"
  shows "length r < length s"
proof (cases "strings_HasPrefix s [CHR 0x22]")
  case True
  then obtain t where "parse_text (tl s) = Some (t, r)" using assms by (auto simp: parse_scalar_def)
  then show ?thesis using tail_shorter[OF HasPrefix_nonempty[OF True] parse_text_shorter] by simp
next
  case False
  then have "(0 < length s \<and> (r = drop 4 s \<or> r = drop 5 s)) \<or> (takeWhile is_number_char s \<noteq> [] \<and> r = dropWhile is_number_char s)"
    using assms number_nonempty HasPrefix_nonempty[of s] unfolding parse_scalar_def by (auto split: if_splits)
  then show ?thesis using dropWhile_shorter by auto
qed

declare parse_value.simps [simp del] parse_elements.simps [simp del] parse_members.simps [simp del]

lemma parse_shorter:
  "parse_value n d s = Some (v, r) \<Longrightarrow> length r < length s"
  "parse_elements n d s = Some (vs, r') \<Longrightarrow> length r' < length s"
  "parse_members n d s = Some (ms, r'') \<Longrightarrow> length r'' < length s"
proof (induction n arbitrary: d s v r vs r' ms r'')
  case (Suc n)
  {
    case 1
    then show ?case using Suc.IH(2,3) unfolding parse_value.simps
      by (auto split: list.splits if_splits dest!: skip_ws_le parse_scalar_shorter) fastforce+
  next
    case 2
    then show ?case using Suc.IH(1,2) unfolding parse_elements.simps
      by (auto split: list.splits if_splits option.splits dest!: skip_ws_le) fastforce+
  next
    case 3
    then show ?case using Suc.IH(1,3) unfolding parse_members.simps
      by (auto split: list.splits if_splits option.splits dest!: skip_ws_le parse_text_shorter) fastforce+
  }
qed (simp_all add: parse_value.simps parse_elements.simps parse_members.simps)

lemma parse_fuel:
  "2 * length s + 1 \<le> n \<Longrightarrow> parse_value (Suc n) d s = parse_value n d s"
  "2 * length s + 2 \<le> n \<Longrightarrow> parse_elements (Suc n) d s = parse_elements n d s"
  "2 * length s + 1 \<le> n \<Longrightarrow> parse_members (Suc n) d s = parse_members n d s"
proof (induction n arbitrary: d s)
  case (Suc n)
  {
    case 1
    have "parse_elements (Suc n) (Suc d) (e # es) = parse_elements n (Suc d) (e # es) \<and>
        parse_members (Suc n) (Suc d) (e # es) = parse_members n (Suc d) (e # es)"
      if "skip_ws s = c # cs" "skip_ws cs = e # es" for c cs e es
      using 1 that[THEN skip_ws_le] by (intro conjI Suc.IH(2,3)) simp_all
    then show ?case unfolding parse_value.simps(2)[of "Suc n" d s] parse_value.simps(2)[of n d s]
      by (cases "skip_ws s"; cases "skip_ws (tl (skip_ws s))") (simp_all del: dropWhile_eq_Nil_conv)
  next
    case 2
    have v: "parse_value (Suc n) d s = parse_value n d s" using 2 by (intro Suc.IH(1)) simp
    have e: "parse_elements (Suc n) d cs = parse_elements n d cs" if "parse_value n d s = Some (w, r)" "skip_ws r = c # cs" for w r c cs
      using 2 parse_shorter(1)[OF that(1)] skip_ws_le[OF that(2)] by (intro Suc.IH(2)) simp
    show ?case unfolding parse_elements.simps(2)[of "Suc n" d s] parse_elements.simps(2)[of n d s] v
      using e by (auto split: list.split option.split simp del: dropWhile_eq_Nil_conv)
  next
    case 3
    have v: "parse_value (Suc n) d cs = parse_value n d cs"
      if "skip_ws s = q # qs" "parse_text qs = Some (k, r)" "skip_ws r = c # cs" for q qs k r c cs
      using 3 skip_ws_le[OF that(1)] parse_text_shorter[OF that(2)] skip_ws_le[OF that(3)] by (intro Suc.IH(1)) simp
    have m: "parse_members (Suc n) d es = parse_members n d es"
      if "skip_ws s = q # qs" "parse_text qs = Some (k, r)" "skip_ws r = c # cs" "parse_value n d cs = Some (w, r')" "skip_ws r' = e # es"
      for q qs k r c cs w r' e es
      using 3 skip_ws_le[OF that(1)] parse_text_shorter[OF that(2)] skip_ws_le[OF that(3)] parse_shorter(1)[OF that(4)] skip_ws_le[OF that(5)]
      by (intro Suc.IH(3)) simp
    show ?case unfolding parse_members.simps(2)[of "Suc n" d s] parse_members.simps(2)[of n d s]
      using v m by (auto split: list.split option.split simp del: dropWhile_eq_Nil_conv)
  }
qed simp_all

corollary parse_fuel_enough: "2 * length s + 1 \<le> n \<Longrightarrow> parse_value n d s = parse_value (2 * length s + 1) d s"
  by (induction n rule: dec_induct) (auto simp: parse_fuel(1))

section \<open>Reading back what was written\<close>

lemma parse_text_Cons:
  "parse_text (CHR 0x22 # cs) = Some ([], cs)"
  "simple_escape e = Some d \<Longrightarrow> e \<noteq> CHR ''u'' \<Longrightarrow>
     parse_text (CHR 0x5C # e # ds) = map_option (\<lambda>(u, r). (d # u, r)) (parse_text ds)"
  "unicode_escape ds = Some (t, rest) \<Longrightarrow>
     parse_text (CHR 0x5C # CHR ''u'' # ds) = map_option (\<lambda>(u, r). (t @ u, r)) (parse_text rest)"
  "c \<noteq> CHR 0x22 \<Longrightarrow> c \<noteq> CHR 0x5C \<Longrightarrow> 32 \<le> (of_char c :: nat) \<Longrightarrow>
     parse_text (c # cs) = map_option (\<lambda>(u, r). (c # u, r)) (parse_text cs)"
  by (simp_all add: parse_text.simps)

lemma hex_value_digit: "n < 16 \<Longrightarrow> hex_value (hex_digits ! n) = Some n"
proof -
  have "list_all (\<lambda>n. hex_value (hex_digits ! n) = Some n) [0..<16]" by code_simp
  then show "n < 16 \<Longrightarrow> ?thesis" by (simp add: list_all_iff)
qed

lemma hex4_byte:
  assumes "(of_char c :: nat) < 128"
  shows "unicode_escape (''00'' @ hex_EncodeToString [c] @ rest) = Some ([c], rest)"
proof -
  have "hex_value CHR ''0'' = Some 0" by code_simp
  then have "hex4 (''00'' @ hex_EncodeToString [c] @ rest) = Some (of_char c, rest)"
    using assms by (simp add: hex_EncodeToString_def hex_value_digit)
  then show ?thesis using assms by (simp add: unicode_escape_def is_surrogate_def utf8_def)
qed

lemma parse_json_char: "parse_text (json_char c @ rest) = map_option (\<lambda>(u, r). (c # u, r)) (parse_text rest)"
proof -
  have esc: "simple_escape CHR 0x22 = Some CHR 0x22" "simple_escape CHR 0x5C = Some CHR 0x5C" "simple_escape CHR ''b'' = Some CHR 0x08"
    "simple_escape CHR ''f'' = Some CHR 0x0C" "simple_escape CHR ''n'' = Some CHR 0x0A" "simple_escape CHR ''r'' = Some CHR 0x0D"
    "simple_escape CHR ''t'' = Some CHR 0x09" by (simp_all add: simple_escape_def)
  show ?thesis
    using hex4_byte[of c rest] by (auto simp: json_char_def parse_text_Cons esc)
qed

lemma parse_json_text: "parse_text (concat (map json_char s) @ CHR 0x22 # rest) = Some (s, rest)"
  by (induction s) (simp_all add: parse_text_Cons parse_json_char)

text \<open>What \<^verbatim>\<open>Unmarshal\<close> makes of a detail.\<close>

fun json_of :: "detail \<Rightarrow> json" where
  "json_of (DStr t) = Text t"
| "json_of (DInt i) = Number (strconv_Itoa i)"
| "json_of (DBool b) = Boolean b"

lemma nat_digits_leading: "length (nat_digits n) = 1 \<or> hd (nat_digits n) \<noteq> CHR ''0''"
proof (induction n rule: nat_digits.induct)
  case (1 n)
  show ?case
  proof (cases "n < 10")
    case True
    then show ?thesis by (subst nat_digits.simps) simp
  next
    case False
    have hd: "hd (nat_digits n) = hd (nat_digits (n div 10))"
      using False by (subst nat_digits.simps) (simp add: hd_append)
    show ?thesis
    proof (cases "n div 10 < 10")
      case True
      then have "hd (nat_digits (n div 10)) = char_of (48 + n div 10)" by (subst nat_digits.simps) simp
      moreover have "(of_char (char_of (48 + n div 10) :: char) :: nat) \<noteq> of_char CHR ''0''"
        using True False by (simp add: of_char_digit)
      ultimately show ?thesis using hd by metis
    next
      case big: False
      then have "length (nat_digits (n div 10)) \<noteq> 1" by (subst nat_digits.simps) simp
      then show ?thesis using 1 False hd by simp
    qed
  qed
qed

lemma digits_number: "valid_number (nat_digits n)" "valid_number (CHR ''-'' # nat_digits n)"
proof -
  have d: "\<And>c. c \<in> set (nat_digits n) \<Longrightarrow> is_digit c" using nat_digits_digits[of n] by (simp add: list_all_iff)
  have tw: "takeWhile is_digit (nat_digits n) = nat_digits n" "dropWhile is_digit (nat_digits n) = []"
    using d by (simp_all add: takeWhile_eq_all_conv dropWhile_eq_Nil_conv)
  obtain c cs where n: "nat_digits n = c # cs" by (cases "nat_digits n") auto
  then have "c \<noteq> CHR ''-''" using nat_digits_hd[of n] by simp
  then show "valid_number (nat_digits n)" "valid_number (CHR ''-'' # nat_digits n)"
    using tw nat_digits_leading[of n] n by (simp_all add: valid_number_def valid_fraction_def)
qed

lemma Itoa_chars: "c \<in> set (strconv_Itoa i) \<Longrightarrow> is_number_char c"
  using nat_digits_digits by (auto simp: strconv_Itoa_def is_number_char_def list_all_iff split: if_splits)

end
