(* ===== verification/Json_Text.thy ===== *)
theory Json_Text
  imports Json
begin

text \<open>
  The text of any JSON value as \<^verbatim>\<open>json.Marshal\<close> writes it: no white space, HTML characters escaped in strings. The
  main lemma: reading the text gives the value back, for every value whose numbers are JSON numbers and whose nesting
  the decoder accepts, whatever follows the text.
\<close>

section \<open>Writing\<close>

fun json_text :: "json \<Rightarrow> string" where
  "json_text Null = ''null''"
| "json_text (Boolean b) = (if b then ''true'' else ''false'')"
| "json_text (Number t) = t"
| "json_text (Text s) = json_string s"
| "json_text (Array vs) = ''['' @ json_join (map json_text vs) @ '']''"
| "json_text (Object ms) = ''{'' @ json_join (map (\<lambda>(k, v). json_string k @ '':'' @ json_text v) ms) @ ''}''"

fun plain :: "json \<Rightarrow> bool" where
  "plain (Number t) \<longleftrightarrow> valid_number t \<and> list_all is_number_char t"
| "plain (Array vs) \<longleftrightarrow> list_all plain vs"
| "plain (Object ms) \<longleftrightarrow> list_all (\<lambda>(k, v). plain v) ms"
| "plain v \<longleftrightarrow> True"

fun depth :: "json \<Rightarrow> nat" where
  "depth (Array vs) = Suc (foldr (\<lambda>v n. max (depth v) n) vs 0)"
| "depth (Object ms) = Suc (foldr (\<lambda>(k, v) n. max (depth v) n) ms 0)"
| "depth v = 0"

section \<open>Reading back\<close>

text \<open>The number of calls reading takes.\<close>

fun calls :: "json \<Rightarrow> nat" where
  "calls (Array vs) = Suc (foldr (\<lambda>v n. Suc (max (calls v) n)) vs 0)"
| "calls (Object ms) = Suc (foldr (\<lambda>(k, v) n. Suc (max (calls v) n)) ms 0)"
| "calls v = 1"

text \<open>What follows a value must not continue a number.\<close>

definition stops :: "string \<Rightarrow> bool" where
  "stops rest = (case rest of [] \<Rightarrow> True | c # _ \<Rightarrow> \<not> is_number_char c)"

definition reads_back :: "nat \<Rightarrow> json \<Rightarrow> bool" where
  "reads_back d v \<longleftrightarrow> (\<forall>n rest. calls v \<le> n \<longrightarrow> stops rest \<longrightarrow> parse_value n d (json_text v @ rest) = Some (v, rest))"

lemma punctuation:
  "\<not> json_ws CHR 0x22" "\<not> json_ws CHR '':''" "\<not> json_ws CHR '',''" "\<not> json_ws CHR 0x7D" "\<not> json_ws CHR 0x7B"
  "\<not> json_ws CHR ''[''" "\<not> json_ws CHR '']''" "\<not> is_number_char CHR '',''" "\<not> is_number_char CHR 0x7D" "\<not> is_number_char CHR '']''"
  by (simp_all add: json_ws_def is_number_char_def is_digit_def)

lemma number_first:
  assumes "valid_number t" "list_all is_number_char t"
  shows "\<exists>c cs. t = c # cs \<and> (is_digit c \<or> c = CHR ''-'')"
proof (cases t)
  case (Cons c cs)
  have "is_digit c" if "c \<noteq> CHR ''-''" using assms(1) that Cons by (auto simp: valid_number_def Let_def split: if_splits)
  then show ?thesis using Cons by blast
qed (use assms in \<open>simp add: valid_number_def\<close>)

lemma json_text_first: "plain v \<Longrightarrow> \<exists>c cs. json_text v = c # cs \<and> \<not> json_ws c \<and> c \<noteq> CHR '']'' \<and> c \<noteq> CHR 0x7D"
proof (cases v)
  case (Number t)
  assume "plain v"
  then obtain c cs where "t = c # cs" "is_digit c \<or> c = CHR ''-''" using number_first[of t] Number by auto
  then show ?thesis using Number by (auto simp: json_ws_def is_digit_def)
qed (auto simp: json_string_def json_ws_def)

lemma parse_scalar_text:
  assumes "plain v" "\<not> (\<exists>vs. v = Array vs)" "\<not> (\<exists>ms. v = Object ms)" "stops rest"
  shows "parse_scalar (json_text v @ rest) = Some (v, rest)"
proof (cases v)
  case (Number t)
  then have t: "valid_number t" "list_all is_number_char t" using assms(1) by simp_all
  have tw: "takeWhile is_number_char (t @ rest) = t" "dropWhile is_number_char (t @ rest) = rest"
    using t(2) assms(4) by (induction t) (auto simp: stops_def split: list.splits)
  obtain c cs where c: "t = c # cs" "is_digit c \<or> c = CHR ''-''" using number_first[OF t] by blast
  then have "c \<noteq> CHR 0x22 \<and> c \<noteq> CHR ''t'' \<and> c \<noteq> CHR ''f'' \<and> c \<noteq> CHR ''n''" by (auto simp: is_digit_def)
  then show ?thesis using tw t(1) c(1) Number by (simp add: parse_scalar_def strings_HasPrefix_def)
qed (use assms in \<open>auto simp: parse_scalar_def strings_HasPrefix_def json_string_def parse_json_text\<close>)

lemma scalar_reads_back:
  assumes "plain v" "\<not> (\<exists>vs. v = Array vs)" "\<not> (\<exists>ms. v = Object ms)"
  shows "reads_back d v"
  unfolding reads_back_def
proof (intro allI impI)
  fix n rest assume n: "calls v \<le> n" "stops rest"
  obtain m where m: "n = Suc m" using n(1) assms by (cases n; cases v) auto
  obtain c cs where c: "json_text v = c # cs" "\<not> json_ws c" using json_text_first[OF assms(1)] by blast
  have "c \<noteq> CHR 0x7B \<and> c \<noteq> CHR ''[''"
  proof (cases v)
    case (Number t)
    then show ?thesis using c(1) number_first[of t] assms(1) by (auto simp: is_digit_def)
  qed (use c assms in \<open>auto simp: json_string_def split: if_splits\<close>)
  then show "parse_value n d (json_text v @ rest) = Some (v, rest)"
    using parse_scalar_text[OF assms n(2)] c by (simp add: m parse_value.simps(2)[of m])
qed

lemma parse_elements_text:
  assumes "vs \<noteq> []" "\<forall>v \<in> set vs. reads_back d v" "foldr (\<lambda>v n. Suc (max (calls v) n)) vs 0 \<le> n"
  shows "parse_elements n d (json_join (map json_text vs) @ CHR '']'' # rest) = Some (vs, rest)"
  using assms
proof (induction vs arbitrary: n)
  case (Cons v vs)
  obtain m where m: "n = Suc m" "calls v \<le> m" "foldr (\<lambda>v n. Suc (max (calls v) n)) vs 0 \<le> m" using Cons.prems(3) by (cases n) auto
  have v: "stops r \<Longrightarrow> parse_value m d (json_text v @ r) = Some (v, r)" for r using Cons.prems(2) m(2) by (simp add: reads_back_def)
  show ?case
  proof (cases vs)
    case Nil
    then show ?thesis using v[of "CHR '']'' # rest"] by (simp add: m(1) parse_elements.simps(2)[of m] stops_def punctuation)
  next
    case (Cons w ws)
    have "parse_elements m d (json_join (map json_text vs) @ CHR '']'' # rest) = Some (vs, rest)"
      using Cons.IH Cons Cons.prems m(3) by simp
    then show ?thesis using Cons v[of "CHR '','' # json_join (map json_text vs) @ CHR '']'' # rest"]
      by (simp add: m(1) parse_elements.simps(2)[of m] stops_def punctuation)
  qed
qed simp

lemma parse_members_text:
  assumes "ms \<noteq> []" "\<forall>(k, v) \<in> set ms. reads_back d v" "foldr (\<lambda>(k, v) n. Suc (max (calls v) n)) ms 0 \<le> n"
  shows "parse_members n d (json_join (map (\<lambda>(k, v). json_string k @ '':'' @ json_text v) ms) @ CHR 0x7D # rest) = Some (ms, rest)"
  using assms
proof (induction ms arbitrary: n)
  case (Cons m' ms)
  obtain k v where kv: "m' = (k, v)" by fastforce
  obtain m where m: "n = Suc m" "calls v \<le> m" "foldr (\<lambda>(k, v) n. Suc (max (calls v) n)) ms 0 \<le> m"
    using Cons.prems(3) by (cases n) (auto simp: kv)
  have v: "stops r \<Longrightarrow> parse_value m d (json_text v @ r) = Some (v, r)" for r
    using Cons.prems(2) m(2) by (simp add: reads_back_def kv)
  note step = m(1) kv parse_members.simps(2)[of m] json_string_def parse_json_text stops_def punctuation
  show ?case
  proof (cases ms)
    case Nil
    then show ?thesis using v[of "CHR 0x7D # rest"] by (simp add: step)
  next
    case (Cons w ws)
    let ?t = "json_join (map (\<lambda>(k, v). json_string k @ '':'' @ json_text v) ms)"
    have "parse_members m d (?t @ CHR 0x7D # rest) = Some (ms, rest)"
      using Cons.IH Cons Cons.prems m(3) by simp
    moreover have "json_join (map (\<lambda>(k, v). json_string k @ '':'' @ json_text v) (m' # ms)) = json_string k @ '':'' @ json_text v @ '','' @ ?t"
      using Cons by (simp add: kv)
    ultimately show ?thesis using v[of "CHR '','' # ?t @ CHR 0x7D # rest"] by (simp add: step del: list.map)
  qed
qed simp

lemma fold_depth_le: "v \<in> set vs \<Longrightarrow> depth v \<le> foldr (\<lambda>v n. max (depth v) n) vs 0"
  "(k, v) \<in> set ms \<Longrightarrow> depth v \<le> foldr (\<lambda>(k, v) n. max (depth v) n) ms 0"
  by (induction vs; auto) (induction ms; auto)

lemma json_reads_back: "plain v \<Longrightarrow> depth v + d \<le> maxNestingDepth \<Longrightarrow> reads_back d v"
proof (induction v arbitrary: d)
  case (Array vs)
  have d: "\<not> maxNestingDepth \<le> d" using Array.prems(2) by simp
  have el: "\<forall>v \<in> set vs. reads_back (Suc d) v"
  proof
    fix v assume v: "v \<in> set vs"
    then have "depth v + Suc d \<le> maxNestingDepth" using fold_depth_le(1)[OF v] Array.prems(2) by simp
    then show "reads_back (Suc d) v" using Array.IH v Array.prems(1) by (simp add: list_all_iff)
  qed
  show ?case unfolding reads_back_def
  proof (intro allI impI)
    fix n rest assume n: "calls (Array vs) \<le> n" "stops rest"
    obtain m where m: "n = Suc m" "foldr (\<lambda>v n. Suc (max (calls v) n)) vs 0 \<le> m" using n(1) by (cases n) auto
    show "parse_value n d (json_text (Array vs) @ rest) = Some (Array vs, rest)"
    proof (cases vs)
      case Nil
      then show ?thesis using d by (simp add: m(1) parse_value.simps(2)[of m] punctuation)
    next
      case (Cons w ws)
      obtain c cs where c: "json_text w = c # cs" "\<not> json_ws c" "c \<noteq> CHR '']''"
        using json_text_first[of w] Array.prems(1) Cons by auto
      then obtain es where "json_join (map json_text vs) = c # es" using Cons by (cases ws) auto
      then show ?thesis using parse_elements_text[OF _ el m(2), of rest] Cons c d
        by (simp add: m(1) parse_value.simps(2)[of m] punctuation)
    qed
  qed
next
  case (Object ms)
  have d: "\<not> maxNestingDepth \<le> d" using Object.prems(2) by simp
  have el: "\<forall>(k, v) \<in> set ms. reads_back (Suc d) v"
  proof (clarify)
    fix k v assume v: "(k, v) \<in> set ms"
    then have "depth v + Suc d \<le> maxNestingDepth" using fold_depth_le(2)[OF v] Object.prems(2) by simp
    then show "reads_back (Suc d) v" using Object.IH[of "(k, v)" v] v Object.prems(1) by (auto simp: list_all_iff)
  qed
  show ?case unfolding reads_back_def
  proof (intro allI impI)
    fix n rest assume n: "calls (Object ms) \<le> n" "stops rest"
    obtain m where m: "n = Suc m" "foldr (\<lambda>(k, v) n. Suc (max (calls v) n)) ms 0 \<le> m" using n(1) by (cases n) auto
    let ?t = "json_join (map (\<lambda>(k, v). json_string k @ '':'' @ json_text v) ms)"
    show "parse_value n d (json_text (Object ms) @ rest) = Some (Object ms, rest)"
    proof (cases ms)
      case Nil
      then show ?thesis using d by (simp add: m(1) parse_value.simps(2)[of m] punctuation)
    next
      case (Cons w ws)
      then obtain es where "?t = CHR 0x22 # es" by (cases w; cases ws) (auto simp: json_string_def)
      then show ?thesis using parse_members_text[OF _ el m(2), of rest] Cons d
        by (simp add: m(1) parse_value.simps(2)[of m] punctuation)
    qed
  qed
qed (rule scalar_reads_back; simp)+

text \<open>With the number of calls the decoder allows.\<close>

lemma parse_json_text_value:
  assumes "plain v" "depth v \<le> maxNestingDepth" "stops rest"
  shows "parse_value (2 * length (json_text v @ rest) + 2) 0 (json_text v @ rest) = Some (v, rest)"
proof -
  let ?s = "json_text v @ rest" and ?n = "max (calls v) (2 * length (json_text v @ rest) + 2)"
  have "parse_value (2 * length ?s + 2) 0 ?s = parse_value ?n 0 ?s"
    using parse_fuel_enough[of ?s ?n 0] parse_fuel_enough[of ?s "2 * length ?s + 2" 0] by simp
  then show ?thesis using json_reads_back[OF assms(1), of 0] assms(2,3) by (simp add: reads_back_def)
qed

lemma Decode_json_text: "plain v \<Longrightarrow> depth v \<le> maxNestingDepth \<Longrightarrow> stops rest \<Longrightarrow> Decode (json_text v @ rest) = Some v"
  using parse_json_text_value[of v rest] by (simp add: Decode_def)

lemma Unmarshal_json_text: "plain v \<Longrightarrow> depth v \<le> maxNestingDepth \<Longrightarrow> Unmarshal (json_text v) = Some v"
  using parse_json_text_value[of v "[]"] by (simp add: Unmarshal_def stops_def)

text \<open>The details of an audit row: \<^verbatim>\<open>json.Marshal\<close> of the map, and the map read back in the order of its sorted keys.\<close>

lemma Itoa_plain [simp]: "valid_number (strconv_Itoa i)" "list_all is_number_char (strconv_Itoa i)"
  using Itoa_chars[of _ i] by (simp_all add: strconv_Itoa_def digits_number list_all_iff)

lemma plain_detail [simp]: "plain (json_of v)" "depth (json_of v) = 0" "json_text (json_of v) = json_detail v"
  by (cases v, simp_all)+

lemma json_Marshal_text: "json_Marshal ds = json_text (Object (map (apsnd json_of) (sort_key fst ds)))"
  by (simp add: json_Marshal_def comp_def case_prod_unfold)

lemma plain_details: "plain (Object (map (apsnd json_of) ds))" "depth (Object (map (apsnd json_of) ds)) \<le> maxNestingDepth"
proof -
  have "foldr (\<lambda>(k, v) n. max (depth v) n) (map (apsnd json_of) ds) 0 = 0" by (induction ds) auto
  then show "depth (Object (map (apsnd json_of) ds)) \<le> maxNestingDepth" by (simp add: maxNestingDepth_def)
qed (auto simp: list_all_iff)

lemma Unmarshal_Marshal: "Unmarshal (json_Marshal ds) = Some (Object (map (apsnd json_of) (sort_key fst ds)))"
  unfolding json_Marshal_text by (rule Unmarshal_json_text[OF plain_details])

end
