(* ===== verification/Logging.thy ===== *)
theory Logging
  imports Forward_Auth Pkce
begin

text \<open>
  \<^verbatim>\<open>internal/middleware/logging.go\<close> and \<^verbatim>\<open>internal/logsafe/logsafe.go\<close>: the request log. The middleware is a program that
  returns, beside the response, the attributes it logs. The lemmas: a logged value never holds a line break and other values are
  logged as they are; the middleware changes neither the response nor the tables; a request that names a key in
  its path puts that key, which is its own secret, into the log.
\<close>

section \<open>Safe values\<close>

definition strings_ReplaceChar :: "char \<Rightarrow> string \<Rightarrow> string \<Rightarrow> string" where
  "strings_ReplaceChar c new s = concat (map (\<lambda>d. if d = c then new else [d]) s)"

definition logsafe_String :: "string \<Rightarrow> string" where
  "logsafe_String s = strings_ReplaceChar CHR 0x0A [CHR 0x5C, CHR ''n''] (strings_ReplaceChar CHR 0x0D [CHR 0x5C, CHR ''r''] s)"

datatype attr_value = LText string | LInt int | LDuration duration

type_synonym attr = "string \<times> attr_value"

definition logsafe_Attr :: "string \<Rightarrow> string \<Rightarrow> attr" where
  "logsafe_Attr key value = (key, LText (logsafe_String value))"

section \<open>The middleware\<close>

text \<open>The writer that remembers the status, 200 until \<^verbatim>\<open>WriteHeader\<close> is called; every handler calls it once, with the status of its response.\<close>

record responseWriter =
  rw_status :: nat

definition rw_new :: responseWriter where
  "rw_new = \<lparr>rw_status = 200\<rparr>"

definition rw_WriteHeader :: "nat \<Rightarrow> responseWriter \<Rightarrow> responseWriter" where
  "rw_WriteHeader code rw = rw\<lparr>rw_status := code\<rparr>"

definition request_attrs :: "request \<Rightarrow> nat \<Rightarrow> duration \<Rightarrow> attr list" where
  "request_attrs r status latency = [(''method'', LText (Method r)), logsafe_Attr ''path'' (URL_Path r),
     (''status'', LInt (int status)), (''latency'', LDuration latency)]"

definition RequestLogger :: "(request \<Rightarrow> ('z env_scheme, response) state) \<Rightarrow> request \<Rightarrow> ('z env_scheme, response \<times> attr list) state" where
  "RequestLogger next r = do {
     start \<leftarrow> time_Now;
     w \<leftarrow> next r;
     now \<leftarrow> time_Now;
     let rw = rw_WriteHeader (Status w) rw_new;
     State_Monad.return (w, request_attrs r (rw_status rw) (time_Sub now start)) }"

text \<open>Session ids enter the log as a prefix of their digest only.\<close>

definition sessionIDLogPrefix :: "string \<Rightarrow> string" where
  "sessionIDLogPrefix i = hex_EncodeToString (map char_of (take 4 (sha256_Sum256 i)))"

section \<open>Facts\<close>

lemma set_ReplaceChar: "c \<notin> set new \<Longrightarrow> c \<notin> set (strings_ReplaceChar c new s)"
  "d \<notin> set new \<Longrightarrow> d \<notin> set s \<Longrightarrow> d \<notin> set (strings_ReplaceChar c new s)"
  by (auto simp: strings_ReplaceChar_def)

lemma ReplaceChar_absent: "c \<notin> set s \<Longrightarrow> strings_ReplaceChar c new s = s"
  by (induction s) (auto simp: strings_ReplaceChar_def)

text \<open>A logged value cannot start a new line.\<close>

lemma logsafe_no_break: "CHR 0x0A \<notin> set (logsafe_String s) \<and> CHR 0x0D \<notin> set (logsafe_String s)"
  unfolding logsafe_String_def by (intro conjI set_ReplaceChar(1) set_ReplaceChar(2)) simp_all

lemma logsafe_plain: "CHR 0x0A \<notin> set s \<Longrightarrow> CHR 0x0D \<notin> set s \<Longrightarrow> logsafe_String s = s"
  by (simp add: logsafe_String_def ReplaceChar_absent)

lemma sessionIDLogPrefix_length: "length (sessionIDLogPrefix i) = 8"
  by (simp add: sessionIDLogPrefix_def length_hex length_sha256)

text \<open>The wrapped handler answers as it would on its own, one clock reading later.\<close>

lemma RequestLogger_transparent:
  "run_state (next r) (s\<lparr>clock_reads := Suc (clock_reads s)\<rparr>) = (w, s') \<Longrightarrow>
   \<exists>attrs. run_state (RequestLogger next r) s = ((w, attrs), s'\<lparr>clock_reads := Suc (clock_reads s')\<rparr>)"
  by (simp add: RequestLogger_def run_simps)

text \<open>
  The path of the key endpoints ends in the key itself, the password that forward-auth accepts, so a request for an active key is logged with a credential.
\<close>

lemma request_log_reveals_key:
  assumes "entitled (db s) v c" "CHR 0x0A \<notin> set v" "CHR 0x0D \<notin> set v"
    and "URL_Path r = ''/api/v1/keys/'' @ v" "run_state (RequestLogger next r) s = ((w, attrs), s')"
  shows "\<exists>k \<in> set (subscription_key (db s)). k_id k = v \<and> map_of attrs ''path'' = Some (LText (''/api/v1/keys/'' @ k_id k))"
proof -
  have "logsafe_String (''/api/v1/keys/'' @ v) = ''/api/v1/keys/'' @ v" using assms(2,3) by (intro logsafe_plain) auto
  then have "map_of attrs ''path'' = Some (LText (''/api/v1/keys/'' @ v))"
    using assms(4,5) by (auto simp: RequestLogger_def request_attrs_def logsafe_Attr_def run_simps split: prod.splits)
  with assms(1) show ?thesis by (auto simp: entitled_def)
qed

end
