(* ===== verification/Router.thy ===== *)
theory Router
  imports Routes Request_Bodies Logging
begin

text \<open>
  The wiring of \<^verbatim>\<open>cmd/server/main.go\<close>: which handler serves which route behind which middleware, and the request log around it
  all. Which route a request takes is an argument of type \<open>matcher\<close>, specified in the theory \<open>Routes\<close>.

  The locale \<open>service_invariant\<close> is the contract between the operations and the service: a property that reads only the tables and the
  component cache and that every mutating operation preserves is preserved by every handler, by the whole service and by its
  runs. The locale \<open>request_invariant\<close> is the case of the tables alone, over the operations of the store and the handler that patches
  accounts; \<open>store_invariant\<close> asks for the store operation \<open>UpdateAccount\<close> instead of that handler. \<open>base_invariant\<close>, \<open>stmt_invariant\<close> and
  \<open>row_invariant\<close> start from single statements. They are interpreted for the schema invariant with an active admin, for the audit log
  being append-only and for revoked keys, and in later theories for unreadable expiries, interleaved operations and deleted accounts.
\<close>

section \<open>Wiring\<close>

record config =
  cfg_origin :: originParts
  cfg_providers :: "string \<rightharpoonup> OAuthProvider"
  cfg_visibility :: "string \<Rightarrow> string"
  cfg_valid :: "string \<Rightarrow> bool"
  cfg_rpmDataRoot :: string
  cfg_bundle :: dist

text \<open>The handlers of the \<^verbatim>\<open>/api/v1\<close> group, innermost. Those that take a body decode it.\<close>

fun api_handler :: "config \<Rightarrow> endpoint \<Rightarrow> service handler" where
  "api_handler cfg E_Whoami r = Whoami r"
| "api_handler cfg E_Logout r = Logout r"
| "api_handler cfg E_Keys_Create r = Keys_Create (cfg_visibility cfg) (decode_createKeyRequest (ReqBody r)) r"
| "api_handler cfg E_Keys_List r = Keys_List (cfg_valid cfg) (cfg_visibility cfg) r"
| "api_handler cfg E_Keys_Get r = Keys_Get (cfg_visibility cfg) r"
| "api_handler cfg E_Keys_Delete r = Keys_Delete r"
| "api_handler cfg E_Components_Create r = Components_Create (cfg_rpmDataRoot cfg) (decode_createComponentRequest (ReqBody r)) r"
| "api_handler cfg E_Components_List r = Components_List r"
| "api_handler cfg E_Components_GetOne r = Components_GetOne r"
| "api_handler cfg E_Components_Update r = Components_Update (cfg_rpmDataRoot cfg) (decode_updateComponentRequest (ReqBody r)) r"
| "api_handler cfg E_Components_Delete r = Components_Delete r"
| "api_handler cfg E_Accounts_Create r = Accounts_Create (decode_createAccountRequest (ReqBody r)) r"
| "api_handler cfg E_Accounts_List r = Accounts_List r"
| "api_handler cfg E_Accounts_Get r = Accounts_Get r"
| "api_handler cfg E_Accounts_Update r = Accounts_Update (decode_updateAccountRequest (ReqBody r)) r"
| "api_handler cfg E_Accounts_Delete r = Accounts_Delete r"
| "api_handler cfg E_Accounts_ListKeys r = Accounts_ListKeys (cfg_visibility cfg) r"
| "api_handler cfg E_Accounts_IssueKey r = Accounts_IssueKey (cfg_visibility cfg) (decode_createKeyRequest (ReqBody r)) r"
| "api_handler cfg E_Audit_List r = Audit_List r"
| "api_handler cfg E_Operators_List r = Operators_List r"
| "api_handler cfg E_Operators_Create r = Operators_Create (decode_createOperatorRequest (ReqBody r)) r"
| "api_handler cfg E_Operators_Update r = Operators_Update (decode_updateOperatorRequest (ReqBody r)) r"
| "api_handler cfg E_Api_MethodNotAllowed r = State_Monad.return (status_only 405)"
| "api_handler cfg _ r = State_Monad.return http_NotFound"

text \<open>The stack in front of it: cross-site guard, session, role.\<close>

definition admin_stack :: "config \<Rightarrow> service handler \<Rightarrow> service handler" where
  "admin_stack cfg h = csrf_check (cfg_origin cfg) (RequireSession (RequireRole h))"

definition endpoint_handler :: "config \<Rightarrow> endpoint \<Rightarrow> service handler" where
  "endpoint_handler cfg e =
    (if e = E_Health then (\<lambda>_. State_Monad.return (status_only 200))
     else if e = E_Auth then ServeHTTP Cached_GetComponent
     else if e = E_Login then Middleware (Login (cfg_providers cfg))
     else if e = E_Callback then Middleware (Callback (cfg_providers cfg) [])
     else if e = E_Admin then admin_app (cfg_bundle cfg)
     else if e = E_NotFound then (\<lambda>_. State_Monad.return http_NotFound)
     else if e = E_MethodNotAllowed then (\<lambda>_. State_Monad.return (status_only 405))
     else admin_stack cfg (api_handler cfg e))"

text \<open>A request arrives with no operator in its context and no URL parameters. The log is around the router.\<close>

definition serve_request :: "config \<Rightarrow> matcher \<Rightarrow> service handler" where
  "serve_request cfg match r = (case match r of (e, ps) \<Rightarrow> endpoint_handler cfg e (r\<lparr>URLParam := ps, ctx_operator := None\<rparr>))"

definition serve_http :: "config \<Rightarrow> matcher \<Rightarrow> request \<Rightarrow> (service, response \<times> attr list) state" where
  "serve_http cfg match = RequestLogger (serve_request cfg match)"

text \<open>The startup: \<^verbatim>\<open>main\<close> loads the component sets before it serves.\<close>

definition startup_visibility :: "string set \<Rightarrow> string set \<Rightarrow> string \<Rightarrow> string" where
  "startup_visibility valid public name = (if name \<notin> valid then [] else if name \<in> public then ''public'' else ''private'')"

section \<open>The contract between store and service\<close>

locale service_invariant =
  fixes J :: "service \<Rightarrow> bool"
  assumes frame: "seen s' = seen s \<Longrightarrow> J s \<Longrightarrow> J s'"
    and CreateAccount: "preserves J (CreateAccount inp opid)"
    and Accounts_Update: "preserves J (Accounts_Update bu r)"
    and DeleteAccountWithCascade: "preserves J (DeleteAccountWithCascade i)"
    and CreateKey: "preserves J (CreateKey i cname lbl ex)"
    and CreateKeyForAccount: "preserves J (CreateKeyForAccount i cname lbl ex)"
    and RevokeKey: "preserves J (RevokeKey i)"
    and IncrementUsage: "preserves J (IncrementUsage i)"
    and Cached_GetComponent: "preserves J (Cached_GetComponent i)"
    and CreateComponent: "preserves J (CreateComponent c)"
    and Cached_UpdateComponent: "preserves J (Cached_UpdateComponent i patch)"
    and Cached_DeleteComponent: "preserves J (Cached_DeleteComponent i)"
    and Cached_DeleteComponentWithRevoke: "preserves J (Cached_DeleteComponentWithRevoke i)"
    and AllowlistOperator: "preserves J (AllowlistOperator em rl byid)"
    and UpdateOperatorAtomically: "preserves J (UpdateOperatorAtomically i nr ns)"
    and UpdateLastLogin: "preserves J (UpdateLastLogin i t)"
    and UpdateLoginProvider: "preserves J (UpdateLoginProvider i pn u)"
    and CreateSession: "preserves J (CreateSession i ip ua)"
    and TouchSession: "preserves J (TouchSession i t)"
    and DeleteSession: "preserves J (DeleteSession i)"
    and DeleteOperatorSessions: "preserves J (DeleteOperatorSessions i)"
    and AuditWrite: "preserves J (Write ent)"
begin

lemma WriteRequest: "preserves J (WriteFromRequest r ent)"
  by (simp add: WriteFromRequest_def AuditWrite)

lemma reading: "keeps seen m \<Longrightarrow> preserves J m"
  using frame by (auto simp: keeps_def preserves_def)

lemma sources: "preserves J time_Now" "preserves J (rand_Read n)"
  by (rule reading, rule keeps_seen; auto intro!: keep_rules)+

lemmas service_ops = CreateAccount DeleteAccountWithCascade CreateKey CreateKeyForAccount RevokeKey IncrementUsage
  Cached_GetComponent CreateComponent Cached_UpdateComponent Cached_DeleteComponent Cached_DeleteComponentWithRevoke
  AllowlistOperator UpdateOperatorAtomically UpdateLastLogin UpdateLoginProvider CreateSession TouchSession DeleteSession
  DeleteOperatorSessions WriteRequest sources seen_reads[THEN reading]

lemma account_handlers:
  "preserves J (Accounts_Create ba r)" "preserves J (Accounts_List r)"
  "preserves J (Accounts_Get r)"
  "preserves J (Accounts_Delete r)" "preserves J (Accounts_ListKeys vis r)"
  "preserves J (Accounts_IssueKey vis bk r)"
  unfolding Accounts_Create_def Accounts_List_def Accounts_Get_def Accounts_Delete_def
    Accounts_ListKeys_def Accounts_IssueKey_def
  by (intro service_ops pres_rules)+

lemma key_handlers:
  "preserves J (Keys_Get vis r)" "preserves J (Keys_Delete r)"
  "preserves J (Keys_List valid vis r)" "preserves J (Keys_Create vis bk r)"
  unfolding Keys_Get_def Keys_Delete_def Keys_List_def Keys_Create_def
  by (intro service_ops pres_rules)+

lemma operator_handlers:
  "preserves J (Operators_List r)" "preserves J (Operators_Create bo r)"
  "preserves J (Operators_Update bp r)"
  unfolding Operators_List_def Operators_Create_def Operators_Update_def after_operator_update_def
  by (intro service_ops pres_rules)+

lemma component_handlers:
  "preserves J (Components_Create root_dir bc r)" "preserves J (Components_List r)"
  "preserves J (Components_GetOne r)" "preserves J (Components_Delete r)"
  "preserves J (Components_Update root_dir bp r)"
  unfolding Components_Create_def Components_List_def Components_GetOne_def Components_Delete_def Components_Update_def
  by (intro service_ops pres_rules)+

lemma auth_handlers:
  "preserves J (Whoami r)" "preserves J (Logout r)"
  "preserves J (Login providers r)" "preserves J (Callback providers dest r)"
  unfolding Whoami_def Logout_def Login_def Callback_def resolve_operator_def open_session_def record_login_def
    exchange_failed_def failCallback_def
  by (intro service_ops pres_rules)+

lemma forward_auth_handler: "preserves J (ServeHTTP Cached_GetComponent r)"
  unfolding ServeHTTP_def serve_def check_credentials_def account_gate_def
  by (intro service_ops pres_rules)

lemma session_stack:
  assumes "\<And>r. preserves J (h r)"
  shows "preserves J (RequireSession h r)"
  unfolding RequireSession_def drop_session_def touch_if_accepted_def
  by (intro service_ops pres_rules assms)

lemma role_stack:
  assumes "\<And>r. preserves J (h r)"
  shows "preserves J (RequireRole h r)"
  unfolding RequireRole_def by (intro service_ops pres_rules assms)

lemma limiter_stack:
  assumes "\<And>r. preserves J (h r)"
  shows "preserves J (Middleware h r)"
  unfolding Middleware_def by (intro service_ops pres_rules assms)

lemma api_handlers: "preserves J (api_handler cfg e r)"
  by (cases e) (simp_all add: account_handlers Accounts_Update key_handlers operator_handlers component_handlers auth_handlers
      service_ops preserves_return)

lemma admin_site: "preserves J (admin_app d r)"
  unfolding admin_app_def AdminCSP_def by (intro service_ops pres_rules)

lemma whole_service: "preserves J (serve_request cfg match r)"
proof -
  have "preserves J (endpoint_handler cfg e r')" for e r'
    unfolding endpoint_handler_def admin_stack_def csrf_check_def
    by (auto intro!: pres_rules limiter_stack auth_handlers forward_auth_handler session_stack role_stack api_handlers admin_site)
  then show ?thesis unfolding serve_request_def by (auto split: prod.split)
qed

lemma logged_service: "preserves J (serve_http cfg match r)"
  unfolding serve_http_def RequestLogger_def by (intro service_ops pres_rules whole_service)

end

locale op_invariant =
  fixes I :: "tables \<Rightarrow> bool"
  assumes CreateAccount: "preserves (\<lambda>s :: service. I (db s)) (CreateAccount inp opid)"
    and DeleteAccountWithCascade: "preserves (\<lambda>s :: service. I (db s)) (DeleteAccountWithCascade i)"
    and CreateKey: "preserves (\<lambda>s :: service. I (db s)) (CreateKey i cname lbl ex)"
    and CreateKeyForAccount: "preserves (\<lambda>s :: service. I (db s)) (CreateKeyForAccount i cname lbl ex)"
    and RevokeKey: "preserves (\<lambda>s :: service. I (db s)) (RevokeKey i)"
    and IncrementUsage: "preserves (\<lambda>s :: service. I (db s)) (IncrementUsage i)"
    and CreateComponent: "preserves (\<lambda>s :: service. I (db s)) (CreateComponent c)"
    and UpdateComponent: "preserves (\<lambda>s :: service. I (db s)) (UpdateComponent i patch)"
    and DeleteComponent: "preserves (\<lambda>s :: service. I (db s)) (DeleteComponent i)"
    and DeleteComponentWithRevoke: "preserves (\<lambda>s :: service. I (db s)) (DeleteComponentWithRevoke i)"
    and AllowlistOperator: "preserves (\<lambda>s :: service. I (db s)) (AllowlistOperator em rl byid)"
    and UpdateOperatorAtomically: "preserves (\<lambda>s :: service. I (db s)) (UpdateOperatorAtomically i nr ns)"
    and UpdateLastLogin: "preserves (\<lambda>s :: service. I (db s)) (UpdateLastLogin i t)"
    and UpdateLoginProvider: "preserves (\<lambda>s :: service. I (db s)) (UpdateLoginProvider i pn u)"
    and CreateSession: "preserves (\<lambda>s :: service. I (db s)) (CreateSession i ip ua)"
    and TouchSession: "preserves (\<lambda>s :: service. I (db s)) (TouchSession i t)"
    and DeleteSession: "preserves (\<lambda>s :: service. I (db s)) (DeleteSession i)"
    and DeleteOperatorSessions: "preserves (\<lambda>s :: service. I (db s)) (DeleteOperatorSessions i)"
    and AuditWrite: "preserves (\<lambda>s :: service. I (db s)) (Write ent)"
begin

text \<open>The cache passes writes through to the store and evicts.\<close>

lemma cached_writes:
  "preserves (\<lambda>s :: service. I (db s)) (Cached_UpdateComponent i patch)"
  "preserves (\<lambda>s :: service. I (db s)) (Cached_DeleteComponent i)"
  "preserves (\<lambda>s :: service. I (db s)) (Cached_DeleteComponentWithRevoke i)"
  unfolding Cached_UpdateComponent_def Cached_DeleteComponent_def Cached_DeleteComponentWithRevoke_def evict_on_success_def
  by (intro pres_rules UpdateComponent DeleteComponent DeleteComponentWithRevoke keeps_preserves keep_rules)+

end

text \<open>The update of an account is the one write whose handler checks first what the store does not, so it comes in two strengths: for the handler, and for the operation.\<close>

locale request_invariant = op_invariant +
  assumes Accounts_Update: "preserves (\<lambda>s :: service. I (db s)) (Accounts_Update bu r)"

sublocale request_invariant \<subseteq> on_tables: service_invariant "\<lambda>s. I (db s)"
  by unfold_locales (auto simp: seen_eq intro: cached_writes keeps_preserves Cached_GetComponent_keeps CreateAccount Accounts_Update
    DeleteAccountWithCascade CreateKey CreateKeyForAccount RevokeKey IncrementUsage CreateComponent AllowlistOperator
    UpdateOperatorAtomically UpdateLastLogin UpdateLoginProvider CreateSession TouchSession DeleteSession DeleteOperatorSessions AuditWrite)

locale store_invariant = op_invariant +
  assumes UpdateAccount: "preserves (\<lambda>s :: service. I (db s)) (UpdateAccount i upd)"

sublocale store_invariant \<subseteq> request_invariant I
proof unfold_locales
  show "preserves (\<lambda>s :: service. I (db s)) (Accounts_Update bu r)" for bu r
    unfolding Accounts_Update_def WriteFromRequest_def by (intro pres_rules UpdateAccount AuditWrite keeps_preserves[OF GetAccount_keeps])
qed

section \<open>From statements to store operations\<close>

text \<open>
  A table property that every single statement keeps is kept by the operations built from them. The
  updates of operators keep identity, role and status, and those of keys keep the expiry and never activate one. The
  one \<^verbatim>\<open>UPDATE\<close> of role and status is left out: its guard is the transaction around it.
\<close>

locale base_invariant =
  fixes I :: "tables \<Rightarrow> bool"
  assumes s_insert_account: "stmt_keeps I (insert_account a)"
    and s_delete_account: "stmt_keeps I (update_account i (\<lambda>q. q\<lparr>ac_status := ''deleted''\<rparr>))"
    and s_insert_operator: "stmt_keeps I (insert_operator p)"
    and s_update_operators: "(\<And>q. identity_columns (g q) = identity_columns q) \<Longrightarrow> stmt_keeps I (update_operators P g)"
    and s_insert_session: "stmt_keeps I (insert_session q)"
    and s_update_sessions: "stmt_keeps I (update_sessions Q h)"
    and s_delete_sessions: "stmt_keeps I (delete_sessions Q)"
    and s_insert_audit: "stmt_keeps I (insert_audit e)"
    and s_insert_key: "stmt_keeps I (insert_key k)"
    and s_update_keys: "(\<And>k. k_id (u k) = k_id k \<and> k_expires_at (u k) = k_expires_at k \<and> (k_active (u k) = k_active k \<or> k_active (u k) = 0)) \<Longrightarrow> stmt_keeps I (update_keys K u)"
    and s_insert_component: "stmt_keeps I (insert_component c)"
    and s_update_component: "stmt_keeps I (update_component n v)"
    and s_delete_component: "stmt_keeps I (delete_component n)"
begin

lemmas statements = s_insert_account s_delete_account s_insert_operator s_insert_session s_update_sessions s_delete_sessions
  s_insert_audit s_insert_key s_update_keys s_insert_component s_update_component s_delete_component

lemma account_ops:
  "preserves (\<lambda>s :: 'z store_scheme. I (db s)) (CreateAccount inp opid)"
  "preserves (\<lambda>s :: 'z store_scheme. I (db s)) (DeleteAccountWithCascade ai)"
  unfolding CreateAccount_def DeleteAccountWithCascade_def generateAccountID_def Let_def
  by (intro pres_rules statements; simp)+

lemma key_ops:
  "preserves (\<lambda>s :: 'z store_scheme. I (db s)) (CreateKey ai cname lbl ex)"
  "preserves (\<lambda>s :: 'z store_scheme. I (db s)) (CreateKeyForAccount ai cname lbl ex)"
  "preserves (\<lambda>s :: 'z store_scheme. I (db s)) (RevokeKey ki)"
  "preserves (\<lambda>s :: 'z store_scheme. I (db s)) (IncrementUsage ki)"
  unfolding CreateKey_def CreateKeyForAccount_def RevokeKey_def IncrementUsage_def generateKeyValue_def Let_def
  by (intro pres_rules statements; simp)+

lemma component_ops:
  "preserves (\<lambda>s :: 'z store_scheme. I (db s)) (CreateComponent cmp)"
  "preserves (\<lambda>s :: 'z store_scheme. I (db s)) (UpdateComponent cn patch)"
  "preserves (\<lambda>s :: 'z store_scheme. I (db s)) (DeleteComponent cn)"
  "preserves (\<lambda>s :: 'z store_scheme. I (db s)) (DeleteComponentWithRevoke cn)"
  unfolding CreateComponent_def UpdateComponent_def DeleteComponent_def DeleteComponentWithRevoke_def Let_def
  by (intro pres_rules statements; simp)+

lemma session_ops:
  "preserves (\<lambda>s :: 'z store_scheme. I (db s)) (CreateSession oi ip ua)"
  "preserves (\<lambda>s :: 'z store_scheme. I (db s)) (TouchSession si t)"
  "preserves (\<lambda>s :: 'z store_scheme. I (db s)) (DeleteSession si)"
  "preserves (\<lambda>s :: 'z store_scheme. I (db s)) (DeleteOperatorSessions oi)"
  unfolding CreateSession_def TouchSession_def DeleteSession_def DeleteOperatorSessions_def generateSessionID_def Let_def
  by (intro pres_rules statements; simp)+

lemma operator_ops:
  "preserves (\<lambda>s :: 'z store_scheme. I (db s)) (AllowlistOperator em rl byid)"
  "preserves (\<lambda>s :: 'z store_scheme. I (db s)) (UpdateLastLogin oi t)"
  "preserves (\<lambda>s :: 'z store_scheme. I (db s)) (UpdateLoginProvider oi pn u)"
  "preserves (\<lambda>s :: 'z store_scheme. I (db s)) (Write ent)"
  unfolding AllowlistOperator_def UpdateLastLogin_def UpdateLoginProvider_def Write_def generateOperatorID_def Let_def
  by (intro pres_rules statements s_update_operators; simp add: identity_columns_def)+

lemmas base_ops = account_ops key_ops component_ops session_ops operator_ops

end

locale stmt_invariant = base_invariant +
  assumes s_update_account: "stmt_keeps I (update_account i f)"
begin

lemma update_op: "preserves (\<lambda>s :: 'z store_scheme. I (db s)) (UpdateAccount ai upd)"
  unfolding UpdateAccount_def by (intro pres_rules s_update_account)

lemmas all_ops = base_ops update_op

end

lemmas stmt_defs = insert_account_def update_account_def insert_operator_def update_operators_def insert_session_def
  update_sessions_def delete_sessions_def insert_audit_def insert_key_def update_keys_def insert_component_def
  update_component_def delete_component_def

text \<open>A table property that does not look at the operators at all: the guarded update keeps it too.\<close>

locale row_invariant = stmt_invariant +
  assumes s_update_any_operators: "stmt_keeps I (update_operators P g)"
begin

lemma guarded_update: "preserves (\<lambda>s :: 'z store_scheme. I (db s)) (UpdateOperatorAtomically i nr ns)"
  unfolding UpdateOperatorAtomically_def lockout_guard_def by (intro pres_rules s_update_any_operators)

end

sublocale row_invariant \<subseteq> ops: store_invariant I
  by unfold_locales (rule all_ops guarded_update)+

interpretation log: row_invariant "log_grows t0" for t0
  by unfold_locales (auto simp: stmt_keeps_def stmt_defs log_grows_def split: if_splits option.splits)

lemma active_admin_alt:
  "has_active_admin t \<longleftrightarrow> (\<exists>x \<in> set (map identity_columns (operators t)). snd (snd x) = (''admin'', ''active''))"
  by (simp add: has_active_admin_def list_ex_iff is_active_admin_def identity_columns_def)

interpretation admins: stmt_invariant has_active_admin
proof unfold_locales
  fix g :: "operator_row \<Rightarrow> operator_row" and P
  assume "\<And>q. identity_columns (g q) = identity_columns q"
  then have "map identity_columns (update_rows P g ops) = map identity_columns ops" for ops
    by (simp add: update_rows_def)
  then show "stmt_keeps has_active_admin (update_operators P g)"
    by (auto simp: stmt_keeps_def update_operators_def active_admin_alt simp del: set_map split: if_splits)
qed (auto simp: stmt_keeps_def stmt_defs has_active_admin_def split: if_splits option.splits)

section \<open>The invariants of the running service\<close>

lemma preserves_conj_right: "preserves Q m \<Longrightarrow> preserves P m \<Longrightarrow> preserves (\<lambda>s. P s \<and> Q s) m"
  by (simp add: preserves_def)

text \<open>A revoked key: its row is there and inactive.\<close>

definition revoked :: "string \<Rightarrow> tables \<Rightarrow> bool" where
  "revoked i t \<longleftrightarrow> (\<exists>k \<in> set (subscription_key t). k_id k = i \<and> k_active k = 0)"

interpretation revocation: row_invariant "revoked i0" for i0
proof unfold_locales
  fix u :: "key_row \<Rightarrow> key_row" and K
  assume u: "\<And>k. k_id (u k) = k_id k \<and> k_expires_at (u k) = k_expires_at k \<and> (k_active (u k) = k_active k \<or> k_active (u k) = 0)"
  show "stmt_keeps (revoked i0) (update_keys K u)"
  proof (rule stmt_keepsI)
    fix t a t'
    assume "revoked i0 t" "update_keys K u t = Inr (a, t')"
    then obtain k where k: "k \<in> set (subscription_key t)" "k_id k = i0" "k_active k = 0"
        and t': "subscription_key t' = map (\<lambda>k. if K k then u k else k) (subscription_key t)"
      by (auto simp: revoked_def update_keys_def update_rows_def)
    have "k_active (u k) = 0" "k_id (u k) = i0" using u[of k] k by auto
    then show "revoked i0 t'" unfolding revoked_def t' using k by (intro bexI[of _ "if K k then u k else k"]) auto
  qed
qed (auto simp: stmt_keeps_def stmt_defs revoked_def split: if_splits option.splits)

interpretation schema: store_invariant "\<lambda>t. tables_ok t \<and> has_active_admin t"
  by unfold_locales (rule admins.all_ops[THEN preserves_conj_right] UpdateOperatorAtomically_admin pres_rules)+

section \<open>Runs of the service\<close>

text \<open>Requests in the order their handlers run, and the two reapers in between.\<close>

inductive runs :: "config \<Rightarrow> matcher \<Rightarrow> service \<Rightarrow> service \<Rightarrow> bool" for cfg match where
  runs_start: "runs cfg match s s"
| runs_request: "runs cfg match s s1 \<Longrightarrow> run_state (serve_http cfg match r) s1 = ((w, attrs), s2) \<Longrightarrow> runs cfg match s s2"
| runs_reap: "runs cfg match s s1 \<Longrightarrow> run_state reap s1 = (u, s2) \<Longrightarrow> runs cfg match s s2"
| runs_state_reap: "runs cfg match s s1 \<Longrightarrow> run_state state_reap s1 = (u, s2) \<Longrightarrow> runs cfg match s s2"

lemma reap_keeps_seen: "keeps seen reap"
  by (simp add: keeps_def reap_def run_simps seen_def cache_part_def)

context service_invariant
begin

lemma runs_keep: "runs cfg match s s' \<Longrightarrow> J s \<Longrightarrow> J s'"
proof (induction rule: runs.induct)
  case (runs_request s s1 r w attrs s2)
  then show ?case using preservesD[OF logged_service, of s1 cfg match r] by simp
next
  case (runs_reap s s1 u s2)
  then show ?case using preservesD[OF reading[OF reap_keeps_seen], of s1] by simp
next
  case (runs_state_reap s s1 u s2)
  then show ?case using preservesD[OF reading[OF seen_reads(19)], of s1] by simp
qed

end

text \<open>The reaper loops are runs of single reaps.\<close>

lemma runs_reapLoop: "run_state (reapLoop n) s1 = (u, s2) \<Longrightarrow> runs cfg match s s1 \<Longrightarrow> runs cfg match s s2"
  by (induction n arbitrary: s1) (auto simp: run_simps split: prod.splits intro: runs_reap)

lemma runs_state_reapLoop: "run_state (state_reapLoop n) s1 = (u, s2) \<Longrightarrow> runs cfg match s s1 \<Longrightarrow> runs cfg match s s2"
  by (induction n arbitrary: s1) (auto simp: run_simps split: prod.splits intro: runs_state_reap)

lemma serve_http_run:
  assumes "run_state (serve_http cfg match r) s = ((w, attrs), s')"
  shows "\<exists>s1. run_state (serve_request cfg match r) (s\<lparr>clock_reads := Suc (clock_reads s)\<rparr>) = (w, s1) \<and> db s' = db s1"
  using assms by (auto simp: serve_http_def RequestLogger_def run_simps split: prod.splits)

section \<open>Passing the gates\<close>

text \<open>Without database failures the session gate lets every admitted request through.\<close>

lemma RequireSession_admitted:
  assumes "db_ok s" "\<forall>n. fault s n = None"
    and "q \<in> set (sessions (db s))" "p \<in> set (operators (db s))" "req_Cookie r SessionCookieName = Some (se_id q)" "se_id q \<noteq> []"
    and "in_lifetime (clock s (clock_reads s)) q" "op_id p = se_operator_id q" "op_status p = ''active''"
  shows "run_state (RequireSession next r) s =
    run_state (do { w \<leftarrow> next (WithOperator r (context_operator p)); touch_if_accepted (se_id q) (clock s (clock_reads s)) w })
      (s\<lparr>clock_reads := Suc (clock_reads s), stmts := Suc (Suc (stmts s))\<rparr>)"
proof -
  have "find (\<lambda>x. se_id x = se_id q \<and> se_operator_id x \<in> op_id ` set (operators (db s))) (sessions (db s)) = Some q"
    using assms(1,3,4,8) by (intro find_key_and) (auto simp: tables_ok_def sessions_ok_def list_all_iff)
  moreover have "find (\<lambda>x. op_id x = se_operator_id q) (operators (db s)) = Some p"
    using assms(1,4,8) by (subst find_key_iff) (auto simp: tables_ok_def operators_ok_def)
  ultimately show ?thesis using assms
    by (simp add: RequireSession_def run_GetSession run_GetOperator run_time_Now expired_scan role_defs context_operator_def)
qed

text \<open>An admin's write from the admin site reaches its handler, and the gates keep what it did to the core.\<close>

lemma admin_stack_passes:
  assumes "same_origin (cfg_origin cfg) r" "db_ok s" "\<forall>n. fault s n = None"
    and "q \<in> set (sessions (db s))" "p \<in> set (operators (db s))" "req_Cookie r SessionCookieName = Some (se_id q)" "se_id q \<noteq> []"
    and "in_lifetime (clock s (clock_reads s)) q" "op_id p = se_operator_id q" "op_status p = ''active''" "op_role p = ''admin''"
    and "run_state (h (WithOperator r (context_operator p))) (s\<lparr>clock_reads := Suc (clock_reads s), stmts := Suc (Suc (stmts s))\<rparr>) = (w, s1)"
  shows "\<exists>s'. run_state (admin_stack cfg h r) s = (w, s') \<and> core_db s' = core_db s1"
proof -
  have "role_lets (WithOperator r (context_operator p))"
    using assms(11) by (simp add: role_lets_def may_write_def context_operator_def auth_role_defs)
  then have run: "run_state (admin_stack cfg h r) s = run_state (touch_if_accepted (se_id q) (clock s (clock_reads s)) w) s1"
    using assms(1,12) RequireSession_admitted[OF assms(2-10)] by (simp add: admin_stack_def run_csrf_check RequireRole_alt)
  show ?thesis
    using keepsD[OF core_touch, of "se_id q" "clock s (clock_reads s)" w s1] fst_touch[of "se_id q" "clock s (clock_reads s)" w s1]
    unfolding run by (metis surjective_pairing)
qed

text \<open>What stands in front of every handler off the public routes.\<close>

lemma serve_gated:
  "match r = (e, ps) \<Longrightarrow> \<not> public_endpoint e \<Longrightarrow> serve_request cfg match r =
    csrf_check (cfg_origin cfg) (RequireSession (RequireRole (api_handler cfg e))) (r\<lparr>URLParam := ps, ctx_operator := None\<rparr>)"
  by (auto simp: serve_request_def endpoint_handler_def admin_stack_def public_endpoint_def)

section \<open>Who can change the core\<close>

lemma core_Logout: "keeps core_db (Logout r)"
  unfolding Logout_def by (intro keep_rules)

lemma read_endpoints:
  assumes "endpoint_method e \<in> {None, Some ''GET''} \<or> e = E_Logout" "\<not> public_endpoint e"
  shows "keeps core_db (api_handler cfg e r)"
proof -
  note defs = Whoami_def Keys_List_def Keys_Get_def Components_List_def Components_GetOne_def Accounts_List_def
    Accounts_Get_def Accounts_ListKeys_def Operators_List_def
  have "keeps core_db (Whoami r)" "keeps core_db (Keys_List v vis r)" "keeps core_db (Keys_Get vis r)"
    "keeps core_db (Components_List r)" "keeps core_db (Components_GetOne r)" "keeps core_db (Accounts_List r)"
    "keeps core_db (Accounts_Get r)" "keeps core_db (Accounts_ListKeys vis r)" "keeps core_db (Operators_List r)"
    for v vis and r
    unfolding defs by (intro keep_rules keeps_core)+
  with assms keeps_core[OF Audit_List_keeps] core_Logout show ?thesis
    by (cases e) (simp_all add: public_endpoint_def keep_rules)
qed

text \<open>A request whose body holds no JSON value, or is too long, changes the core only by deleting.\<close>

lemma refused_bodies:
  assumes "decode_limited (ReqBody r) = None" "\<not> public_endpoint e" "endpoint_method e \<noteq> Some ''DELETE''"
  shows "keeps core_db (api_handler cfg e r)"
proof (cases "endpoint_method e \<in> {None, Some ''GET''} \<or> e = E_Logout")
  case True
  then show ?thesis using assms(2) by (rule read_endpoints)
next
  case False
  have "keeps core_db (Accounts_Update None r)" "keeps core_db (Accounts_IssueKey vis None r)" for vis and r
    unfolding Accounts_Update_def Accounts_IssueKey_def option.case by (intro keep_rules keeps_core[OF GetAccount_keeps])+
  then show ?thesis using False assms(2,3)
    by (cases e) (auto simp: no_bodies[OF assms(1)] public_endpoint_def Keys_Create_def Components_Create_def
        Components_Update_def Accounts_Create_def Operators_Create_def Operators_Update_def Let_def
        intro!: keep_rules)
qed

section \<open>What the public routes can change\<close>

text \<open>What an admin administers: accounts, components, who the operators are with role and status, and
  the keys up to their usage counters.\<close>

definition administered :: "tables \<Rightarrow> account_row list \<times> component_row list \<times> (string \<times> string \<times> string \<times> string) list \<times> key_row list" where
  "administered t = (accounts t, components t, map identity_columns (operators t),
     map (\<lambda>k. k\<lparr>k_usage_count := 0\<rparr>) (subscription_key t))"

abbreviation administered_db :: "'z store_scheme \<Rightarrow> account_row list \<times> component_row list \<times> (string \<times> string \<times> string \<times> string) list \<times> key_row list" where
  "administered_db s \<equiv> administered (db s)"

lemmas administered_stmt = keeps_table_stmt[where F = administered]

lemma administered_stmts:
  "keeps administered_db (sql_stmt (update_keys P (\<lambda>q. q\<lparr>k_usage_count := n q\<rparr>)))"
  "keeps administered_db (sql_stmt (insert_session q))" "keeps administered_db (sql_stmt (insert_audit e))"
  "(\<And>q. identity_columns (g q) = identity_columns q) \<Longrightarrow> keeps administered_db (sql_stmt (update_operators O' g))"
  by (rule administered_stmt, force simp: administered_def update_keys_def insert_session_def update_operators_def insert_audit_def
      update_rows_def split: if_splits)+

lemma administered_ops [keep_rules]:
  "keeps administered_db (IncrementUsage i)" "keeps administered_db (CreateSession i ip ua)"
  "keeps administered_db (UpdateLastLogin i t)" "keeps administered_db (UpdateLoginProvider i pn u)" "keeps administered_db (Write e)"
  unfolding IncrementUsage_def CreateSession_def generateSessionID_def UpdateLastLogin_def UpdateLoginProvider_def Write_def Let_def
  by (auto intro!: keep_rules administered_stmts simp: identity_columns_def)

lemma administered_Write [keep_rules]: "keeps administered_db (WriteFromRequest r e)"
  by (simp add: WriteFromRequest_def administered_ops)

lemma keeps_administered: "keeps db m \<Longrightarrow> keeps administered_db m"
  by (simp add: keeps_def)

lemmas administered_reads = store_reads[THEN keeps_administered] Cached_GetComponent_keeps[THEN keeps_administered]

lemma administered_public:
  "keeps administered_db (ServeHTTP Cached_GetComponent r)" "keeps administered_db (Login providers r)"
  "keeps administered_db (Callback providers dest r)"
  unfolding ServeHTTP_def serve_def check_credentials_def account_gate_def Login_def Callback_def resolve_operator_def open_session_def
    record_login_def exchange_failed_def failCallback_def
  by (auto intro!: keep_rules administered_reads)

lemma administered_limiter: "(\<And>r. keeps administered_db (h r)) \<Longrightarrow> keeps administered_db (Middleware h r)"
  unfolding Middleware_def by (intro keep_rules check_keeps_db[THEN keeps_administered])

lemma administered_admin_app: "keeps administered_db (admin_app d r)"
  unfolding admin_app_def AdminCSP_def by (intro keep_rules; simp)

lemma administered_public_endpoint: "public_endpoint e \<Longrightarrow> keeps administered_db (endpoint_handler cfg e r)"
  by (auto simp: public_endpoint_def endpoint_handler_def intro!: administered_public administered_limiter administered_admin_app keeps_return)

section \<open>Instances\<close>

definition sample_config :: config where
  "sample_config = \<lparr>cfg_origin = \<lparr>or_scheme = ''https'', or_host = ''admin.example.org'', or_port = []\<rparr>,
     cfg_providers = sample_providers, cfg_visibility = (\<lambda>_. []), cfg_valid = (\<lambda>_. False), cfg_rpmDataRoot = ''/data'',
     cfg_bundle = sample_dist\<rparr>"

end
