(* ===== verification/Http_Client.thy ===== *)
theory Http_Client
  imports OAuth_State Net_Url Json
begin

text \<open>
  What the two OAuth providers share: the requests they send and the responses they read. The network is a
  parameter, a function from a request to the response or to nothing on a transport error, so the theorems hold
  for every behaviour of the identity providers. \<^verbatim>\<open>http.NewRequestWithContext\<close> fails on a URL that does not parse.
  Every error the providers build wraps one of the sentinels of \<^verbatim>\<open>oauth.go\<close>; the message is left out.
\<close>

record outgoing =
  Req_Method :: string
  Req_URL :: string
  Req_Header :: "(string \<times> string) list"
  Req_Body :: string

record incoming =
  Resp_Status :: nat
  Resp_Body :: string

type_synonym http_client = "outgoing \<Rightarrow> incoming option"

definition client_Do :: "http_client \<Rightarrow> outgoing \<Rightarrow> auth_sentinel + incoming" where
  "client_Do client q = (if url_Parse (Req_URL q) = None then Inl ErrTokenExchange
     else case client q of None \<Rightarrow> Inl ErrTokenExchange | Some resp \<Rightarrow> Inr resp)"

text \<open>\<^verbatim>\<open>url.PathEscape\<close>.\<close>

definition path_char :: "char \<Rightarrow> string" where
  "path_char c = (if unreserved c \<or> c \<in> set ''$&+=:@'' then [c]
     else [CHR ''%'', upper_hex ((of_char c :: nat) div 16), upper_hex ((of_char c :: nat) mod 16)])"

definition PathEscape :: "string \<Rightarrow> string" where
  "PathEscape s = concat (map path_char s)"

text \<open>A form and the request that posts it, as both token exchanges build it.\<close>

definition url_values :: "(string \<times> string) list \<Rightarrow> (string \<times> string list) list" where
  "url_values kvs = foldl (\<lambda>q (k, v). values_Set q k v) [] kvs"

definition post_form :: "string \<Rightarrow> (string \<times> string) list \<Rightarrow> outgoing" where
  "post_form endpoint form = \<lparr>Req_Method = ''POST'', Req_URL = endpoint,
     Req_Header = [(''Content-Type'', ''application/x-www-form-urlencoded''), (''Accept'', ''application/json'')],
     Req_Body = values_Encode (url_values form)\<rparr>"

lemma client_Do_Inr: "client_Do client q = Inr resp \<longleftrightarrow> url_Parse (Req_URL q) \<noteq> None \<and> client q = Some resp"
  by (auto simp: client_Do_def split: option.splits)

lemma client_Do_Inl: "client_Do client q = Inl e \<Longrightarrow> e = ErrTokenExchange"
  by (auto simp: client_Do_def split: if_splits option.splits)

text \<open>\<^verbatim>\<open>json.NewDecoder(resp.Body).Decode(&v)\<close>.\<close>

definition decode_body :: "(json \<Rightarrow> 'a option) \<Rightarrow> incoming \<Rightarrow> auth_sentinel + 'a" where
  "decode_body f resp = (case Option.bind (Decode (Resp_Body resp)) f of None \<Rightarrow> Inl ErrTokenExchange | Some x \<Rightarrow> Inr x)"

text \<open>The successful answer to a request, read as \<open>f\<close> reads it.\<close>

definition answered :: "http_client \<Rightarrow> outgoing \<Rightarrow> (json \<Rightarrow> 'a option) \<Rightarrow> 'a \<Rightarrow> bool" where
  "answered client q f x \<longleftrightarrow> url_Parse (Req_URL q) \<noteq> None \<and>
     (\<exists>resp v. client q = Some resp \<and> Resp_Status resp = 200 \<and> Decode (Resp_Body resp) = Some v \<and> f v = Some x)"

lemma decode_body_Inr: "decode_body f resp = Inr x \<longleftrightarrow> (\<exists>v. Decode (Resp_Body resp) = Some v \<and> f v = Some x)"
  by (auto simp: decode_body_def bind_eq_Some_conv split: option.splits)

end
