(* ===== verification/Github_Provider.thy ===== *)
theory Github_Provider
  imports Http_Client
begin

text \<open>
  \<^verbatim>\<open>internal/auth/github/provider.go\<close>: the GitHub provider. The lemmas: an identity is returned exactly when the
  token endpoint gave a token for this code and verifier, and with that token GitHub listed a primary verified
  email, named the user, and confirmed an active membership of the allowed organisation; every other outcome
  is one of the sentinels.
\<close>

definition defaultAuthBaseURL :: string where "defaultAuthBaseURL = ''https://github.com''"
definition defaultAPIBaseURL :: string where "defaultAPIBaseURL = ''https://api.github.com''"

record github_Config =
  GH_ClientID :: string
  GH_ClientSecret :: string
  GH_RedirectURI :: string
  GH_AllowedOrg :: string
  GH_BaseAuthURL :: string
  GH_BaseAPIURL :: string

text \<open>\<^verbatim>\<open>New\<close>; \<open>None\<close> is the panic.\<close>

definition github_New :: "github_Config \<Rightarrow> github_Config option" where
  "github_New cfg = (if GH_AllowedOrg cfg = [] then None
     else Some (cfg\<lparr>GH_BaseAuthURL := (if GH_BaseAuthURL cfg = [] then defaultAuthBaseURL else GH_BaseAuthURL cfg),
                    GH_BaseAPIURL := (if GH_BaseAPIURL cfg = [] then defaultAPIBaseURL else GH_BaseAPIURL cfg)\<rparr>))"

definition github_AuthorizeURL :: "github_Config \<Rightarrow> string \<Rightarrow> string \<Rightarrow> string" where
  "github_AuthorizeURL cfg state codeChallenge = GH_BaseAuthURL cfg @ ''/login/oauth/authorize?'' @
     values_Encode (url_values [(''client_id'', GH_ClientID cfg), (''redirect_uri'', GH_RedirectURI cfg),
       (''response_type'', ''code''), (''scope'', ''user:email read:org''), (''state'', state),
       (''code_challenge'', codeChallenge), (''code_challenge_method'', ''S256'')])"

section \<open>Responses\<close>

record github_tokenResponse =
  GT_AccessToken :: string
  GT_TokenType :: string
  GT_Scope :: string
  GT_Error :: string

record emailRow =
  ER_Email :: string
  ER_Primary :: bool
  ER_Verified :: bool

definition decode_github_token :: "json \<Rightarrow> github_tokenResponse option" where
  "decode_github_token = decode_struct [(''access_token'', set_text GT_AccessToken_update), (''token_type'', set_text GT_TokenType_update),
     (''scope'', set_text GT_Scope_update), (''error'', set_text GT_Error_update)]
     \<lparr>GT_AccessToken = [], GT_TokenType = [], GT_Scope = [], GT_Error = []\<rparr>"

definition decode_emailRow :: "json \<Rightarrow> emailRow option" where
  "decode_emailRow = decode_struct [(''email'', set_text ER_Email_update), (''primary'', set_bool ER_Primary_update),
     (''verified'', set_bool ER_Verified_update)] \<lparr>ER_Email = [], ER_Primary = False, ER_Verified = False\<rparr>"

text \<open>\<^verbatim>\<open>userResponse\<close> and \<^verbatim>\<open>membershipResponse\<close>, structs of one string.\<close>

definition decode_user :: "json \<Rightarrow> string option" where
  "decode_user = decode_struct [(''login'', set_text (\<lambda>f. f))] []"

definition decode_membership :: "json \<Rightarrow> string option" where
  "decode_membership = decode_struct [(''state'', set_text (\<lambda>f. f))] []"

section \<open>Calls\<close>

definition github_token_request :: "github_Config \<Rightarrow> string \<Rightarrow> string \<Rightarrow> outgoing" where
  "github_token_request cfg code codeVerifier = post_form (GH_BaseAuthURL cfg @ ''/login/oauth/access_token'')
     [(''client_id'', GH_ClientID cfg), (''client_secret'', GH_ClientSecret cfg), (''code'', code),
      (''redirect_uri'', GH_RedirectURI cfg), (''code_verifier'', codeVerifier)]"

definition github_exchangeToken :: "github_Config \<Rightarrow> http_client \<Rightarrow> string \<Rightarrow> string \<Rightarrow> auth_sentinel + github_tokenResponse" where
  "github_exchangeToken cfg client code codeVerifier =
    (case client_Do client (github_token_request cfg code codeVerifier) of
       Inl e \<Rightarrow> Inl e
     | Inr resp \<Rightarrow>
         if Resp_Status resp \<noteq> 200 then Inl ErrTokenExchange
         else (case decode_body decode_github_token resp of
             Inl e \<Rightarrow> Inl e
           | Inr tok \<Rightarrow> if GT_Error tok \<noteq> [] \<or> GT_AccessToken tok = [] then Inl ErrTokenExchange else Inr tok))"

definition github_get :: "github_Config \<Rightarrow> string \<Rightarrow> string \<Rightarrow> outgoing" where
  "github_get cfg token path = \<lparr>Req_Method = ''GET'', Req_URL = GH_BaseAPIURL cfg @ path,
     Req_Header = [(''Authorization'', ''Bearer '' @ token), (''Accept'', ''application/vnd.github+json'')], Req_Body = []\<rparr>"

definition apiGet :: "github_Config \<Rightarrow> http_client \<Rightarrow> (json \<Rightarrow> 'a option) \<Rightarrow> string \<Rightarrow> string \<Rightarrow> auth_sentinel + 'a" where
  "apiGet cfg client f token path =
    (case client_Do client (github_get cfg token path) of
       Inl e \<Rightarrow> Inl e
     | Inr resp \<Rightarrow> if Resp_Status resp \<noteq> 200 then Inl ErrTokenExchange else decode_body f resp)"

definition fetchPrimaryVerifiedEmail :: "github_Config \<Rightarrow> http_client \<Rightarrow> string \<Rightarrow> auth_sentinel + string" where
  "fetchPrimaryVerifiedEmail cfg client token =
    (case apiGet cfg client (decode_list decode_emailRow) token ''/user/emails'' of
       Inl e \<Rightarrow> Inl e
     | Inr rows \<Rightarrow> (case find (\<lambda>q. ER_Primary q \<and> ER_Verified q \<and> ER_Email q \<noteq> []) rows of
           Some q \<Rightarrow> Inr (ER_Email q)
         | None \<Rightarrow> if rows = [] then Inl ErrNoEmail else Inl ErrUnverifiedEmail))"

definition fetchUser :: "github_Config \<Rightarrow> http_client \<Rightarrow> string \<Rightarrow> auth_sentinel + string" where
  "fetchUser cfg client token = apiGet cfg client decode_user token ''/user''"

definition membership_path :: "github_Config \<Rightarrow> string" where
  "membership_path cfg = ''/user/memberships/orgs/'' @ PathEscape (GH_AllowedOrg cfg)"

definition requireOrgMembership :: "github_Config \<Rightarrow> http_client \<Rightarrow> string \<Rightarrow> auth_sentinel + unit" where
  "requireOrgMembership cfg client token =
    (case client_Do client (github_get cfg token (membership_path cfg)) of
       Inl e \<Rightarrow> Inl e
     | Inr resp \<Rightarrow>
         if Resp_Status resp = 200 then
           (case decode_body decode_membership resp of
              Inl e \<Rightarrow> Inl e
            | Inr st \<Rightarrow> if st \<noteq> ''active'' then Inl ErrNotOrgMember else Inr ())
         else if Resp_Status resp = 404 then Inl ErrNotOrgMember
         else if Resp_Status resp = 403 then Inl ErrTokenExchange
         else Inl ErrTokenExchange)"

definition github_Exchange :: "github_Config \<Rightarrow> http_client \<Rightarrow> string \<Rightarrow> string \<Rightarrow> auth_sentinel + OAuthIdentity" where
  "github_Exchange cfg client code codeVerifier =
    (case github_exchangeToken cfg client code codeVerifier of
       Inl e \<Rightarrow> Inl e
     | Inr tok \<Rightarrow> (case fetchPrimaryVerifiedEmail cfg client (GT_AccessToken tok) of
         Inl e \<Rightarrow> Inl e
       | Inr email \<Rightarrow> (case fetchUser cfg client (GT_AccessToken tok) of
           Inl e \<Rightarrow> Inl e
         | Inr login \<Rightarrow> (case requireOrgMembership cfg client (GT_AccessToken tok) of
             Inl e \<Rightarrow> Inl e
           | Inr _ \<Rightarrow> Inr \<lparr>OI_Email = strings_ToLower email, OI_OrgMember = True, OI_ProviderUserID = login,
                           OI_Provider = ProviderGitHub\<rparr>))))"

definition github_provider :: "github_Config \<Rightarrow> http_client \<Rightarrow> OAuthProvider" where
  "github_provider cfg client = \<lparr>OP_Name = ProviderGitHub, OP_AuthorizeURL = github_AuthorizeURL cfg,
     OP_Exchange = (\<lambda>code v. map_sum Some id (github_Exchange cfg client code v))\<rparr>"

section \<open>What an identity means\<close>

lemma apiGet_Inr: "apiGet cfg client f token path = Inr x \<longleftrightarrow> answered client (github_get cfg token path) f x"
  by (auto simp: apiGet_def answered_def client_Do_def decode_body_def bind_eq_Some_conv split: sum.splits if_splits option.splits)

lemma exchangeToken_Inr:
  "github_exchangeToken cfg client code v = Inr tok \<longleftrightarrow>
   answered client (github_token_request cfg code v) decode_github_token tok \<and> GT_Error tok = [] \<and> GT_AccessToken tok \<noteq> []"
  by (auto simp: github_exchangeToken_def answered_def client_Do_def decode_body_def bind_eq_Some_conv split: sum.splits if_splits option.splits)

lemma membership_Inr:
  "requireOrgMembership cfg client token = Inr () \<longleftrightarrow>
   answered client (github_get cfg token (membership_path cfg)) decode_membership ''active''"
  by (auto simp: requireOrgMembership_def answered_def client_Do_def decode_body_def bind_eq_Some_conv split: sum.splits if_splits option.splits)

text \<open>The first primary, verified, non-empty address of a list.\<close>

definition primary_address :: "emailRow list \<Rightarrow> string \<Rightarrow> bool" where
  "primary_address rows email \<longleftrightarrow>
     map_option ER_Email (find (\<lambda>q. ER_Primary q \<and> ER_Verified q \<and> ER_Email q \<noteq> []) rows) = Some email"

lemma primary_address_row:
  "primary_address rows email \<Longrightarrow> email \<noteq> [] \<and> (\<exists>q \<in> set rows. ER_Primary q \<and> ER_Verified q \<and> ER_Email q = email)"
  by (auto simp: primary_address_def dest!: find_Some_set)

lemma fetchEmail_Inr:
  "fetchPrimaryVerifiedEmail cfg client token = Inr email \<longleftrightarrow>
   (\<exists>rows. answered client (github_get cfg token ''/user/emails'') (decode_list decode_emailRow) rows \<and> primary_address rows email)"
  by (auto simp: fetchPrimaryVerifiedEmail_def primary_address_def simp flip: apiGet_Inr split: sum.splits option.splits if_splits)

text \<open>The declarative reading of the exchange.\<close>

definition github_vouches :: "github_Config \<Rightarrow> http_client \<Rightarrow> string \<Rightarrow> string \<Rightarrow> string \<Rightarrow> string \<Rightarrow> bool" where
  "github_vouches cfg client code v email login \<longleftrightarrow> (\<exists>tok rows.
     answered client (github_token_request cfg code v) decode_github_token tok \<and> GT_Error tok = [] \<and> GT_AccessToken tok \<noteq> [] \<and>
     answered client (github_get cfg (GT_AccessToken tok) ''/user/emails'') (decode_list decode_emailRow) rows \<and>
     primary_address rows email \<and>
     answered client (github_get cfg (GT_AccessToken tok) ''/user'') decode_user login \<and>
     answered client (github_get cfg (GT_AccessToken tok) (membership_path cfg)) decode_membership ''active'')"

lemma github_Exchange_Inr:
  "github_Exchange cfg client code v = Inr identity \<longleftrightarrow>
   (\<exists>email login. github_vouches cfg client code v email login \<and>
      identity = \<lparr>OI_Email = strings_ToLower email, OI_OrgMember = True, OI_ProviderUserID = login, OI_Provider = ProviderGitHub\<rparr>)"
proof -
  have "github_Exchange cfg client code v = Inr identity \<longleftrightarrow>
    (\<exists>tok email login. github_exchangeToken cfg client code v = Inr tok \<and>
       fetchPrimaryVerifiedEmail cfg client (GT_AccessToken tok) = Inr email \<and> fetchUser cfg client (GT_AccessToken tok) = Inr login \<and>
       requireOrgMembership cfg client (GT_AccessToken tok) = Inr () \<and>
       identity = \<lparr>OI_Email = strings_ToLower email, OI_OrgMember = True, OI_ProviderUserID = login, OI_Provider = ProviderGitHub\<rparr>)"
    by (auto simp: github_Exchange_def split: sum.splits)
  then show ?thesis
    unfolding exchangeToken_Inr fetchEmail_Inr fetchUser_def apiGet_Inr membership_Inr github_vouches_def by blast
qed

text \<open>C27: The GitHub exchange returns an identity exactly when GitHub vouches for it: the token endpoint
  answered this code and verifier with a token, and with that token GitHub listed the email as primary and verified,
  named the user, and confirmed an active membership of the allowed organisation. The
  identity carries that email in lower case. Every other behaviour of the network gives an error.\<close>

theorem github_exchange_exact:
  "github_Exchange cfg client code v = Inr identity \<longleftrightarrow>
   (\<exists>email login. github_vouches cfg client code v email login \<and>
      identity = \<lparr>OI_Email = strings_ToLower email, OI_OrgMember = True, OI_ProviderUserID = login, OI_Provider = ProviderGitHub\<rparr>)"
  by (rule github_Exchange_Inr)

end
