(* ===== verification/Microsoft_Provider.thy ===== *)
theory Microsoft_Provider
  imports Http_Client Pkce
begin

text \<open>
  \<^verbatim>\<open>internal/auth/microsoft/provider.go\<close>: the Microsoft Entra provider, with the \<^verbatim>\<open>base64\<close> decoding of the
  token's claims. \<^verbatim>\<open>time.Now\<close> in \<^verbatim>\<open>validateClaims\<close> is an argument. \<^verbatim>\<open>strings.EqualFold\<close> is modelled on ASCII text. The
  lemmas: decoding inverts the URL-safe encoding; an identity is returned exactly when the token endpoint
  answered this code and verifier with an id token whose claims name the configured tenant, client and issuer, are
  valid at this time, carry an address and do not deny that it is verified.
\<close>

definition defaultAuthorityBaseURL :: string where
  "defaultAuthorityBaseURL = ''https://login.microsoftonline.com''"

record microsoft_Config =
  MS_TenantID :: string
  MS_ClientID :: string
  MS_ClientSecret :: string
  MS_RedirectURI :: string
  MS_AuthorityBaseURL :: string

definition microsoft_New :: "microsoft_Config \<Rightarrow> microsoft_Config option" where
  "microsoft_New cfg = (if MS_TenantID cfg = [] then None
     else Some (cfg\<lparr>MS_AuthorityBaseURL := (if MS_AuthorityBaseURL cfg = [] then defaultAuthorityBaseURL else MS_AuthorityBaseURL cfg)\<rparr>))"

definition microsoft_AuthorizeURL :: "microsoft_Config \<Rightarrow> string \<Rightarrow> string \<Rightarrow> string" where
  "microsoft_AuthorizeURL cfg state codeChallenge = MS_AuthorityBaseURL cfg @ ''/'' @ PathEscape (MS_TenantID cfg) @
     ''/oauth2/v2.0/authorize?'' @
     values_Encode (url_values [(''client_id'', MS_ClientID cfg), (''response_type'', ''code''), (''redirect_uri'', MS_RedirectURI cfg),
       (''response_mode'', ''query''), (''scope'', ''openid email profile''), (''state'', state),
       (''code_challenge'', codeChallenge), (''code_challenge_method'', ''S256'')])"

section \<open>Responses\<close>

record microsoft_tokenResponse =
  MT_AccessToken :: string
  MT_IDToken :: string
  MT_TokenType :: string
  MT_Error :: string
  MT_ErrorDescription :: string

record idTokenClaims =
  CL_TenantID :: string
  CL_Audience :: string
  CL_Issuer :: string
  CL_ExpiresAt :: int
  CL_NotBefore :: int
  CL_Email :: string
  CL_PreferredUsername :: string
  CL_EmailVerified :: "bool option"

definition decode_microsoft_token :: "json \<Rightarrow> microsoft_tokenResponse option" where
  "decode_microsoft_token = decode_struct [(''access_token'', set_text MT_AccessToken_update), (''id_token'', set_text MT_IDToken_update),
     (''token_type'', set_text MT_TokenType_update), (''error'', set_text MT_Error_update),
     (''error_description'', set_text MT_ErrorDescription_update)]
     \<lparr>MT_AccessToken = [], MT_IDToken = [], MT_TokenType = [], MT_Error = [], MT_ErrorDescription = []\<rparr>"

definition decode_claims :: "json \<Rightarrow> idTokenClaims option" where
  "decode_claims = decode_struct [(''tid'', set_text CL_TenantID_update), (''aud'', set_text CL_Audience_update),
     (''iss'', set_text CL_Issuer_update), (''exp'', set_int64 CL_ExpiresAt_update), (''nbf'', set_int64 CL_NotBefore_update),
     (''email'', set_text CL_Email_update), (''preferred_username'', set_text CL_PreferredUsername_update),
     (''email_verified'', set_bool_ptr CL_EmailVerified_update)]
     \<lparr>CL_TenantID = [], CL_Audience = [], CL_Issuer = [], CL_ExpiresAt = 0, CL_NotBefore = 0, CL_Email = [],
      CL_PreferredUsername = [], CL_EmailVerified = None\<rparr>"

section \<open>The claims segment\<close>

text \<open>\<^verbatim>\<open>base64.RawURLEncoding.DecodeString\<close>: line breaks are skipped, unused low bits of the last character ignored.\<close>

definition b64_value :: "char \<Rightarrow> int option" where
  "b64_value c = map_option (\<lambda>n. int n) (find (\<lambda>n. base64url ! n = c) [0..<64])"

fun b64_groups :: "int list \<Rightarrow> int list option" where
  "b64_groups (a # b # c # d # vs) = (let v = a * 262144 + b * 4096 + c * 64 + d in
     map_option (\<lambda>bs. [v div 65536, v div 256 mod 256, v mod 256] @ bs) (b64_groups vs))"
| "b64_groups [a, b, c] = (let v = a * 262144 + b * 4096 + c * 64 in Some [v div 65536, v div 256 mod 256])"
| "b64_groups [a, b] = (let v = a * 262144 + b * 4096 in Some [v div 65536])"
| "b64_groups [a] = None"
| "b64_groups [] = Some []"

definition RawURL_DecodeString :: "string \<Rightarrow> string option" where
  "RawURL_DecodeString s =
    (let cs = filter (\<lambda>c. c \<noteq> CHR 0x0A \<and> c \<noteq> CHR 0x0D) s in
     if list_all (\<lambda>c. b64_value c \<noteq> None) cs
     then map_option (map (\<lambda>b. char_of (nat b))) (b64_groups (map (\<lambda>c. the (b64_value c)) cs))
     else None)"

definition decodeIDTokenClaims :: "string \<Rightarrow> idTokenClaims option" where
  "decodeIDTokenClaims idToken =
    (let parts = strings_Split idToken CHR ''.'' in
     if length parts \<noteq> 3 then None
     else case RawURL_DecodeString (parts ! 1) of
         None \<Rightarrow> None
       | Some payload \<Rightarrow> Option.bind (Unmarshal payload) decode_claims)"

section \<open>Validation and exchange\<close>

definition EqualFold :: "string \<Rightarrow> string \<Rightarrow> bool" where
  "EqualFold a b \<longleftrightarrow> strings_ToLower a = strings_ToLower b"

definition expectedIssuer :: "microsoft_Config \<Rightarrow> string" where
  "expectedIssuer cfg = MS_AuthorityBaseURL cfg @ ''/'' @ MS_TenantID cfg @ ''/v2.0''"

definition validateClaims :: "microsoft_Config \<Rightarrow> go_time \<Rightarrow> idTokenClaims \<Rightarrow> auth_sentinel + unit" where
  "validateClaims cfg nowTime c =
    (if CL_TenantID c = [] \<or> \<not> EqualFold (CL_TenantID c) (MS_TenantID cfg) then Inl ErrNotOrgMember
     else if CL_Audience c \<noteq> MS_ClientID cfg then Inl ErrTokenExchange
     else if CL_Issuer c \<noteq> expectedIssuer cfg then Inl ErrTokenExchange
     else if CL_ExpiresAt c \<le> 0 then Inl ErrTokenExchange
     else let now = nowTime div Second in
       if CL_ExpiresAt c < now then Inl ErrTokenExchange
       else if CL_NotBefore c < 0 then Inl ErrTokenExchange
       else if 0 < CL_NotBefore c \<and> now < CL_NotBefore c then Inl ErrTokenExchange
       else Inr ())"

definition microsoft_token_request :: "microsoft_Config \<Rightarrow> string \<Rightarrow> string \<Rightarrow> outgoing" where
  "microsoft_token_request cfg code codeVerifier =
     post_form (MS_AuthorityBaseURL cfg @ ''/'' @ PathEscape (MS_TenantID cfg) @ ''/oauth2/v2.0/token'')
     [(''client_id'', MS_ClientID cfg), (''client_secret'', MS_ClientSecret cfg), (''code'', code),
      (''redirect_uri'', MS_RedirectURI cfg), (''grant_type'', ''authorization_code''), (''code_verifier'', codeVerifier),
      (''scope'', ''openid email profile'')]"

definition microsoft_exchangeToken :: "microsoft_Config \<Rightarrow> http_client \<Rightarrow> string \<Rightarrow> string \<Rightarrow> auth_sentinel + microsoft_tokenResponse" where
  "microsoft_exchangeToken cfg client code codeVerifier =
    (case client_Do client (microsoft_token_request cfg code codeVerifier) of
       Inl e \<Rightarrow> Inl e
     | Inr resp \<Rightarrow>
         if Resp_Status resp \<noteq> 200 then Inl ErrTokenExchange
         else (case decode_body decode_microsoft_token resp of
             Inl e \<Rightarrow> Inl e
           | Inr tok \<Rightarrow> if MT_Error tok \<noteq> [] then Inl ErrTokenExchange else Inr tok))"

definition claims_email :: "idTokenClaims \<Rightarrow> string" where
  "claims_email c = (if CL_Email c = [] then CL_PreferredUsername c else CL_Email c)"

definition microsoft_Exchange :: "microsoft_Config \<Rightarrow> http_client \<Rightarrow> go_time \<Rightarrow> string \<Rightarrow> string \<Rightarrow> auth_sentinel + OAuthIdentity" where
  "microsoft_Exchange cfg client nowTime code codeVerifier =
    (case microsoft_exchangeToken cfg client code codeVerifier of
       Inl e \<Rightarrow> Inl e
     | Inr tok \<Rightarrow>
         if MT_IDToken tok = [] then Inl ErrTokenExchange
         else (case decodeIDTokenClaims (MT_IDToken tok) of
             None \<Rightarrow> Inl ErrTokenExchange
           | Some claims \<Rightarrow> (case validateClaims cfg nowTime claims of
               Inl e \<Rightarrow> Inl e
             | Inr _ \<Rightarrow>
                 let email = claims_email claims in
                 if email = [] then Inl ErrNoEmail
                 else if CL_EmailVerified claims = Some False then Inl ErrUnverifiedEmail
                 else Inr \<lparr>OI_Email = strings_ToLower email, OI_OrgMember = True, OI_ProviderUserID = email,
                           OI_Provider = ProviderMicrosoft\<rparr>)))"

definition microsoft_provider :: "microsoft_Config \<Rightarrow> http_client \<Rightarrow> go_time \<Rightarrow> OAuthProvider" where
  "microsoft_provider cfg client nowTime = \<lparr>OP_Name = ProviderMicrosoft, OP_AuthorizeURL = microsoft_AuthorizeURL cfg,
     OP_Exchange = (\<lambda>code v. map_sum Some id (microsoft_Exchange cfg client nowTime code v))\<rparr>"

section \<open>Decoding inverts encoding\<close>

lemma b64_value_char: "b64_value (b64_char n) = Some (n mod 64)"
proof -
  have "list_all (\<lambda>k. b64_value (base64url ! k) = Some (int k)) [0..<64]" by code_simp
  then have "b64_value (base64url ! nat (n mod 64)) = Some (int (nat (n mod 64)))" by (simp add: list_all_iff)
  then show ?thesis by (simp add: b64_char_def)
qed

lemma split_sextets:
  assumes "0 \<le> v" "v < (16777216 :: int)"
  shows "v div 262144 mod 64 * 262144 + v div 4096 mod 64 * 4096 + v div 64 mod 64 * 64 + v mod 64 = v"
proof -
  have d: "v div 4096 = v div 64 div 64" "v div 262144 = v div 64 div 64 div 64"
    by (simp_all add: zdiv_zmult2_eq[symmetric])
  have "v div 64 div 64 div 64 mod 64 = v div 64 div 64 div 64" using assms by simp
  then show ?thesis unfolding d
    using div_mult_mod_eq[of v 64] div_mult_mod_eq[of "v div 64" 64] div_mult_mod_eq[of "v div 64 div 64" 64] by linarith
qed

lemma join_octets:
  assumes "0 \<le> a" "a < 256" "0 \<le> b" "b < 256" "0 \<le> c" "c < (256 :: int)"
  shows "(a * 65536 + b * 256 + c) div 65536 = a" "(a * 65536 + b * 256 + c) div 256 mod 256 = b"
    "(a * 65536 + b * 256 + c) mod 256 = c" "0 \<le> a * 65536 + b * 256 + c" "a * 65536 + b * 256 + c < 16777216"
proof -
  show "(a * 65536 + b * 256 + c) div 65536 = a" by (rule int_div_pos_eq[where r = "b * 256 + c"]) (use assms in auto)
  have "(a * 65536 + b * 256 + c) div 256 = a * 256 + b" by (rule int_div_pos_eq[where r = c]) (use assms in auto)
  then show "(a * 65536 + b * 256 + c) div 256 mod 256 = b" using assms by simp
  show "(a * 65536 + b * 256 + c) mod 256 = c" by (rule int_mod_pos_eq[where q = "a * 256 + b"]) (use assms in auto)
qed (use assms in auto)

lemma low_bits: "(a * 65536 + b * 256) mod 64 = 0" "(a * 65536) div 64 mod 64 = 0" for a b :: int
proof -
  have "(a * 65536 + b * 256) mod 64 = ((a * 1024 + b * 4) * 64) mod 64" by simp
  then show "(a * 65536 + b * 256) mod 64 = 0" by (metis mod_mult_self2_is_0)
  have "(a * 65536) div 64 = a * 1024" using nonzero_mult_div_cancel_right[of 64 "a * 1024"] by simp
  then have "(a * 65536) div 64 mod 64 = ((a * 16) * 64) mod 64" by simp
  then show "(a * 65536) div 64 mod 64 = 0" by (metis mod_mult_self2_is_0)
qed

lemma groups_of:
  "w * 262144 + x * 4096 + y * 64 + z = v \<Longrightarrow>
     b64_groups (w # x # y # z # vs) = map_option (\<lambda>bs. [v div 65536, v div 256 mod 256, v mod 256] @ bs) (b64_groups vs)"
  "w * 262144 + x * 4096 + y * 64 = v \<Longrightarrow> b64_groups [w, x, y] = Some [v div 65536, v div 256 mod 256]"
  "w * 262144 + x * 4096 = v \<Longrightarrow> b64_groups [w, x] = Some [v div 65536]"
  by (cases "b64_groups vs"; force simp: Let_def)+

lemma groups_encoding:
  "list_all (\<lambda>b. 0 \<le> b \<and> b < 256) bs \<Longrightarrow> b64_groups (map (\<lambda>c. the (b64_value c)) (RawURLEncoding bs)) = Some bs"
proof (induction bs rule: RawURLEncoding.induct)
  case (1 a b c bs)
  then have r: "0 \<le> a" "a < 256" "0 \<le> b" "b < 256" "0 \<le> c" "c < 256" "list_all (\<lambda>b. 0 \<le> b \<and> b < 256) bs" by auto
  note j = join_octets[OF r(1-6)]
  show ?case using 1(1)[OF refl r(7)] j(1-3)
    by (simp add: Let_def b64_value_char groups_of(1)[OF split_sextets[OF j(4,5)]] del: b64_groups.simps)
next
  case (2 a b)
  then have r: "0 \<le> a" "a < 256" "0 \<le> b" "b < 256" "0 \<le> (0 :: int)" "(0 :: int) < 256" by auto
  obtain v where v: "v = a * 65536 + b * 256" by simp
  note j = join_octets[OF r, unfolded add_0_right, folded v]
  have e: "RawURLEncoding [a, b] = [b64_char (v div 262144), b64_char (v div 4096), b64_char (v div 64)]"
    by (simp only: RawURLEncoding.simps Let_def v)
  have "v div 262144 mod 64 * 262144 + v div 4096 mod 64 * 4096 + v div 64 mod 64 * 64 = v"
    using split_sextets[OF j(4,5)] low_bits(1)[of a b, folded v] by linarith
  from groups_of(2)[OF this] show ?case using j(1,2) unfolding e by (simp add: b64_value_char del: b64_groups.simps)
next
  case (3 a)
  then have r: "0 \<le> a" "a < 256" "0 \<le> (0 :: int)" "(0 :: int) < 256" "0 \<le> (0 :: int)" "(0 :: int) < 256" by auto
  obtain v where v: "v = a * 65536" by simp
  note j = join_octets[OF r, unfolded mult_zero_left add_0_right, folded v]
  have e: "RawURLEncoding [a] = [b64_char (v div 262144), b64_char (v div 4096)]"
    by (simp only: RawURLEncoding.simps Let_def v)
  have "v div 262144 mod 64 * 262144 + v div 4096 mod 64 * 4096 = v"
    using split_sextets[OF j(4,5)] low_bits(1)[of a 0, unfolded mult_zero_left add_0_right, folded v]
      low_bits(2)[of a, folded v] by linarith
  from groups_of(3)[OF this] show ?case using j(1) unfolding e by (simp add: b64_value_char del: b64_groups.simps)
qed simp

lemma encoding_chars: "set (RawURLEncoding bs) \<subseteq> range b64_char"
  by (induction bs rule: RawURLEncoding.induct) (auto simp: Let_def)

lemma decode_encode:
  assumes "list_all (\<lambda>b. 0 \<le> b \<and> b < 256) bs"
  shows "RawURL_DecodeString (RawURLEncoding bs) = Some (map (\<lambda>b. char_of (nat b)) bs)"
proof -
  have "b64_char n \<noteq> CHR 0x0A \<and> b64_char n \<noteq> CHR 0x0D" for n
    using b64_char_unreserved[of n] by (auto simp: unreserved_def)
  then have "filter (\<lambda>c. c \<noteq> CHR 0x0A \<and> c \<noteq> CHR 0x0D) (RawURLEncoding bs) = RawURLEncoding bs"
    using encoding_chars[of bs] by (fastforce simp: filter_id_conv)
  moreover have "list_all (\<lambda>c. b64_value c \<noteq> None) (RawURLEncoding bs)"
    using encoding_chars[of bs] b64_value_char by (fastforce simp: list_all_iff)
  ultimately show ?thesis by (simp add: RawURL_DecodeString_def Let_def groups_encoding[OF assms])
qed

section \<open>What an identity means\<close>

text \<open>The claims of a token accepted at a time: for this tenant, client and issuer, begun and not expired.\<close>

definition claims_accepted :: "microsoft_Config \<Rightarrow> go_time \<Rightarrow> idTokenClaims \<Rightarrow> bool" where
  "claims_accepted cfg nowTime c \<longleftrightarrow> CL_TenantID c \<noteq> [] \<and> EqualFold (CL_TenantID c) (MS_TenantID cfg) \<and>
     CL_Audience c = MS_ClientID cfg \<and> CL_Issuer c = expectedIssuer cfg \<and>
     0 < CL_ExpiresAt c \<and> nowTime < (CL_ExpiresAt c + 1) * Second \<and>
     0 \<le> CL_NotBefore c \<and> (0 < CL_NotBefore c \<longrightarrow> CL_NotBefore c * Second \<le> nowTime)"

lemma validateClaims_Inr: "validateClaims cfg nowTime c = Inr () \<longleftrightarrow> claims_accepted cfg nowTime c"
proof -
  have "(CL_ExpiresAt c < nowTime div Second) = (\<not> nowTime < (CL_ExpiresAt c + 1) * Second)"
    "(nowTime div Second < CL_NotBefore c) = (\<not> CL_NotBefore c * Second \<le> nowTime)"
    by (auto simp: Second_def)
  then show ?thesis by (auto simp: validateClaims_def claims_accepted_def Let_def)
qed

lemma microsoft_token_Inr:
  "microsoft_exchangeToken cfg client code v = Inr tok \<longleftrightarrow>
   answered client (microsoft_token_request cfg code v) decode_microsoft_token tok \<and> MT_Error tok = []"
  by (auto simp: microsoft_exchangeToken_def answered_def client_Do_def decode_body_def bind_eq_Some_conv
      split: sum.splits if_splits option.splits)

definition microsoft_vouches :: "microsoft_Config \<Rightarrow> http_client \<Rightarrow> go_time \<Rightarrow> string \<Rightarrow> string \<Rightarrow> string \<Rightarrow> bool" where
  "microsoft_vouches cfg client nowTime code v email \<longleftrightarrow> (\<exists>tok claims.
     answered client (microsoft_token_request cfg code v) decode_microsoft_token tok \<and> MT_Error tok = [] \<and> MT_IDToken tok \<noteq> [] \<and>
     decodeIDTokenClaims (MT_IDToken tok) = Some claims \<and> claims_accepted cfg nowTime claims \<and>
     email = claims_email claims \<and> email \<noteq> [] \<and> CL_EmailVerified claims \<noteq> Some False)"

lemma microsoft_Exchange_Inr:
  "microsoft_Exchange cfg client nowTime code v = Inr identity \<longleftrightarrow>
   (\<exists>email. microsoft_vouches cfg client nowTime code v email \<and>
      identity = \<lparr>OI_Email = strings_ToLower email, OI_OrgMember = True, OI_ProviderUserID = email, OI_Provider = ProviderMicrosoft\<rparr>)"
proof -
  have "microsoft_Exchange cfg client nowTime code v = Inr identity \<longleftrightarrow>
    (\<exists>tok claims. microsoft_exchangeToken cfg client code v = Inr tok \<and> MT_IDToken tok \<noteq> [] \<and>
       decodeIDTokenClaims (MT_IDToken tok) = Some claims \<and> validateClaims cfg nowTime claims = Inr () \<and>
       claims_email claims \<noteq> [] \<and> CL_EmailVerified claims \<noteq> Some False \<and>
       identity = \<lparr>OI_Email = strings_ToLower (claims_email claims), OI_OrgMember = True,
         OI_ProviderUserID = claims_email claims, OI_Provider = ProviderMicrosoft\<rparr>)"
    by (auto simp: microsoft_Exchange_def Let_def split: sum.splits option.splits)
  then show ?thesis
    unfolding microsoft_token_Inr validateClaims_Inr microsoft_vouches_def by blast
qed


end
