(* ===== verification/Startup.thy ===== *)
theory Startup
  imports Router Github_Provider Microsoft_Provider
begin

text \<open>
  \<^verbatim>\<open>cmd/server/config.go\<close> and the part of \<^verbatim>\<open>main\<close> between opening the database and serving: the component sets, the
  bootstrap operator, the providers, the cache, the limiter and the cross-site guard, each of which can end
  the process. A start is a program that returns the configuration the router serves with, or the point at which the process
  exited or panicked. The environment, the mail address parser, the built admin application and the
  float product inside \<^verbatim>\<open>time.ParseDuration\<close> are arguments. The lemmas: no start panics; the duration read is in range;
  the bootstrap operator is created once, on an empty table; a started service lets in only whom a configured
  provider vouches for.
\<close>

section \<open>Durations\<close>

text \<open>\<^verbatim>\<open>time.ParseDuration\<close>, on \<^verbatim>\<open>uint64\<close> sums. \<open>fmul f unit digits\<close> is the \<^verbatim>\<open>float64\<close> product for a fraction of that many digits.\<close>

definition duration_unit :: "string \<Rightarrow> nat option" where
  "duration_unit u =
    (if u = ''ns'' then Some 1
     else if u = ''us'' \<or> u = [CHR 0xC2, CHR 0xB5, CHR ''s''] \<or> u = [CHR 0xCE, CHR 0xBC, CHR ''s''] then Some 1000
     else if u = ''ms'' then Some 1000000
     else if u = ''s'' then Some 1000000000
     else if u = ''m'' then Some 60000000000
     else if u = ''h'' then Some 3600000000000 else None)"

fun leadingInt :: "nat \<Rightarrow> string \<Rightarrow> (nat \<times> string) option" where
  "leadingInt x [] = Some (x, [])"
| "leadingInt x (c # cs) = (if \<not> is_digit c then Some (x, c # cs)
     else if 2 ^ 63 div 10 < x then None
     else let y = x * 10 + (of_char c - 48) in if 2 ^ 63 < y then None else leadingInt y cs)"

text \<open>The value of a fraction and its number of digits; further digits are dropped once it would overflow.\<close>

fun leadingFraction :: "nat \<Rightarrow> nat \<Rightarrow> bool \<Rightarrow> string \<Rightarrow> nat \<times> nat \<times> string" where
  "leadingFraction x k over [] = (x, k, [])"
| "leadingFraction x k over (c # cs) = (if \<not> is_digit c then (x, k, c # cs)
     else if over \<or> (2 ^ 63 - 1) div 10 < x then leadingFraction x k True cs
     else let y = x * 10 + (of_char c - 48) in
       if 2 ^ 63 < y then leadingFraction x k True cs else leadingFraction y (Suc k) False cs)"

definition unit_stop :: "char \<Rightarrow> bool" where
  "unit_stop c \<longleftrightarrow> c = CHR ''.'' \<or> is_digit c"

text \<open>One round of the loop: the nanoseconds of the next number and unit, and the rest.\<close>

definition duration_step :: "(nat \<Rightarrow> nat \<Rightarrow> nat \<Rightarrow> nat) \<Rightarrow> string \<Rightarrow> (nat \<times> string) option" where
  "duration_step fmul s = (case leadingInt 0 s of
       None \<Rightarrow> None
     | Some (v, s1) \<Rightarrow>
         let pre = (s1 \<noteq> s);
             (f, k, s2) = (if s1 \<noteq> [] \<and> hd s1 = CHR ''.'' then leadingFraction 0 0 False (tl s1) else (0, 0, s1));
             post = (s1 \<noteq> [] \<and> hd s1 = CHR ''.'' \<and> s2 \<noteq> tl s1);
             u = takeWhile (\<lambda>c. \<not> unit_stop c) s2
         in if \<not> unit_stop (hd s) \<or> \<not> pre \<and> \<not> post \<or> u = [] then None
         else (case duration_unit u of
             None \<Rightarrow> None
           | Some unit \<Rightarrow>
               if 2 ^ 63 div unit < v then None
               else let w = (v * unit + (if 0 < f then fmul f unit k else 0)) mod 2 ^ 64 in
                 if 2 ^ 63 < w then None else Some (w, drop (length u) s2)))"

text \<open>The loop; every round consumes a unit, so the length of the text bounds the rounds.\<close>

fun duration_loop :: "(nat \<Rightarrow> nat \<Rightarrow> nat \<Rightarrow> nat) \<Rightarrow> nat \<Rightarrow> nat \<Rightarrow> string \<Rightarrow> nat option" where
  "duration_loop fmul 0 d s = (if s = [] then Some d else None)"
| "duration_loop fmul (Suc n) d s = (if s = [] then Some d
     else case duration_step fmul s of
         None \<Rightarrow> None
       | Some (v, r) \<Rightarrow> let d' = (d + v) mod 2 ^ 64 in if 2 ^ 63 < d' then None else duration_loop fmul n d' r)"

definition ParseDuration :: "(nat \<Rightarrow> nat \<Rightarrow> nat \<Rightarrow> nat) \<Rightarrow> string \<Rightarrow> duration option" where
  "ParseDuration fmul raw =
    (let neg = (raw \<noteq> [] \<and> hd raw = CHR ''-'');
         s = (if raw \<noteq> [] \<and> (hd raw = CHR ''-'' \<or> hd raw = CHR ''+'') then tl raw else raw)
     in if s = ''0'' then Some 0
     else if s = [] then None
     else case duration_loop fmul (length s) 0 s of
         None \<Rightarrow> None
       | Some d \<Rightarrow> if neg then Some (- int d) else if 2 ^ 63 - 1 < d then None else Some (int d))"

definition envDuration :: "(nat \<Rightarrow> nat \<Rightarrow> nat \<Rightarrow> nat) \<Rightarrow> (string \<Rightarrow> string option) \<Rightarrow> string \<Rightarrow> duration \<Rightarrow> duration \<Rightarrow> duration option" where
  "envDuration fmul lookupEnv key def mx = (case lookupEnv key of
       None \<Rightarrow> Some def
     | Some raw \<Rightarrow>
         if raw = [] then Some def
         else (case ParseDuration fmul raw of
             None \<Rightarrow> None
           | Some d \<Rightarrow> if d < 0 then None else if mx < d then None else Some d))"

section \<open>Providers\<close>

definition Getenv :: "(string \<Rightarrow> string option) \<Rightarrow> string \<Rightarrow> string" where
  "Getenv lookupEnv key = (case lookupEnv key of None \<Rightarrow> [] | Some v \<Rightarrow> v)"

datatype stop =
    Exit_LoadComponents | Exit_Bootstrap | Exit_GitHub | Exit_Microsoft | Exit_CacheTTL | Exit_NoAdminHost | Exit_AdminHost
  | Panic_GitHub | Panic_Microsoft | Panic_CSRFGuard

definition is_panic :: "stop \<Rightarrow> bool" where
  "is_panic x \<longleftrightarrow> x \<in> {Panic_GitHub, Panic_Microsoft, Panic_CSRFGuard}"

definition github_env :: "(string \<Rightarrow> string) \<Rightarrow> github_Config" where
  "github_env getenv = \<lparr>GH_ClientID = getenv ''PACKYARD_GITHUB_CLIENT_ID'', GH_ClientSecret = getenv ''PACKYARD_GITHUB_CLIENT_SECRET'',
     GH_RedirectURI = getenv ''PACKYARD_GITHUB_REDIRECT_URI'', GH_AllowedOrg = getenv ''PACKYARD_GITHUB_ORG'',
     GH_BaseAuthURL = [], GH_BaseAPIURL = []\<rparr>"

definition buildGitHubProvider :: "(string \<Rightarrow> string) \<Rightarrow> http_client \<Rightarrow> stop + OAuthProvider option" where
  "buildGitHubProvider getenv client =
    (let cfg = github_env getenv;
         vals = [GH_ClientID cfg, GH_ClientSecret cfg, GH_RedirectURI cfg, GH_AllowedOrg cfg]
     in if list_all (\<lambda>v. v = []) vals then Inr None
     else if list_ex (\<lambda>v. v = []) vals then Inl Exit_GitHub
     else case github_New cfg of None \<Rightarrow> Inl Panic_GitHub | Some p \<Rightarrow> Inr (Some (github_provider p client)))"

definition microsoft_env :: "(string \<Rightarrow> string) \<Rightarrow> microsoft_Config" where
  "microsoft_env getenv = \<lparr>MS_TenantID = getenv ''PACKYARD_MICROSOFT_TENANT_ID'', MS_ClientID = getenv ''PACKYARD_MICROSOFT_CLIENT_ID'',
     MS_ClientSecret = getenv ''PACKYARD_MICROSOFT_CLIENT_SECRET'', MS_RedirectURI = getenv ''PACKYARD_MICROSOFT_REDIRECT_URI'',
     MS_AuthorityBaseURL = []\<rparr>"

definition buildMicrosoftProvider :: "(string \<Rightarrow> string) \<Rightarrow> http_client \<Rightarrow> go_time \<Rightarrow> stop + OAuthProvider option" where
  "buildMicrosoftProvider getenv client nowTime =
    (let cfg = microsoft_env getenv;
         vals = [MS_ClientID cfg, MS_ClientSecret cfg, MS_RedirectURI cfg, MS_TenantID cfg]
     in if list_all (\<lambda>v. v = []) vals then Inr None
     else if list_ex (\<lambda>v. v = []) vals then Inl Exit_Microsoft
     else case microsoft_New cfg of None \<Rightarrow> Inl Panic_Microsoft | Some p \<Rightarrow> Inr (Some (microsoft_provider p client nowTime)))"

definition provider_map :: "OAuthProvider option \<Rightarrow> OAuthProvider option \<Rightarrow> string \<rightharpoonup> OAuthProvider" where
  "provider_map gh ms name = (if name = ProviderGitHub then gh else if name = ProviderMicrosoft then ms else None)"

section \<open>The start\<close>

definition NewMemStateStore :: "('z service_scheme, unit) state" where
  "NewMemStateStore = set_state_entries []"

definition NewCachedComponentStore :: "duration \<Rightarrow> ('z cached_scheme, unit) state" where
  "NewCachedComponentStore t = State (\<lambda>s. ((), s\<lparr>ttl := t, entries := [], gen := \<lambda>_. 0\<rparr>))"

record surroundings =
  lookupEnv :: "string \<Rightarrow> string option"
  http_do :: http_client
  exchange_time :: go_time
  mail_ok :: "string \<Rightarrow> bool"
  float_product :: "nat \<Rightarrow> nat \<Rightarrow> nat \<Rightarrow> nat"
  adminDist :: dist

definition guard_origin :: "(string \<Rightarrow> string) \<Rightarrow> stop + originParts" where
  "guard_origin getenv =
    (let adminHost = getenv ''PACKYARD_ADMIN_HOST'' in
     if adminHost = [] then Inl Exit_NoAdminHost
     else if \<not> validAdminHost adminHost then Inl Exit_AdminHost
     else case parseAdminHostStrict adminHost of None \<Rightarrow> Inl Panic_CSRFGuard | Some o' \<Rightarrow> Inr o')"

text \<open>From the providers to the guard.\<close>

definition build_config :: "surroundings \<Rightarrow> string set \<Rightarrow> string set \<Rightarrow> ('z service_scheme, stop + config) state" where
  "build_config w valid public = (let getenv = Getenv (lookupEnv w) in
     case buildGitHubProvider getenv (http_do w) of
       Inl x \<Rightarrow> State_Monad.return (Inl x)
     | Inr gh \<Rightarrow> (case buildMicrosoftProvider getenv (http_do w) (exchange_time w) of
         Inl x \<Rightarrow> State_Monad.return (Inl x)
       | Inr ms \<Rightarrow> do {
           _ \<leftarrow> NewMemStateStore;
           case envDuration (float_product w) (lookupEnv w) ''PACKYARD_PUBLIC_COMPONENT_CACHE_TTL'' (30 * Second) Hour of
             None \<Rightarrow> State_Monad.return (Inl Exit_CacheTTL)
           | Some cacheTTL \<Rightarrow> do {
               _ \<leftarrow> NewCachedComponentStore cacheTTL;
               _ \<leftarrow> NewRateLimiter 0 0;
               State_Monad.return (case guard_origin getenv of
                 Inl x \<Rightarrow> Inl x
               | Inr o' \<Rightarrow> Inr \<lparr>cfg_origin = o', cfg_providers = provider_map gh ms,
                   cfg_visibility = startup_visibility valid public, cfg_valid = (\<lambda>n. n \<in> valid),
                   cfg_rpmDataRoot = NewComponentsHandler (getenv ''RPM_DATA_ROOT''), cfg_bundle = adminDist w\<rparr>) } }))"

definition start :: "surroundings \<Rightarrow> ('z service_scheme, stop + config) state" where
  "start w = do {
     l \<leftarrow> LoadComponentSets;
     case l of
       Inl e \<Rightarrow> State_Monad.return (Inl Exit_LoadComponents)
     | Inr (valid, public) \<Rightarrow> do {
         b \<leftarrow> BootstrapOperatorFromEnv (mail_ok w) (Getenv (lookupEnv w) ''PACKYARD_BOOTSTRAP_OPERATOR_EMAIL'');
         case b of
           Inl e \<Rightarrow> State_Monad.return (Inl Exit_Bootstrap)
         | Inr _ \<Rightarrow> build_config w valid public } }"

text \<open>The path of the database file, and the mode the container's health check runs the binary in, with its exit code.\<close>

definition dbPath :: "(string \<Rightarrow> string) \<Rightarrow> string" where
  "dbPath getenv = (let p = getenv ''DB_PATH'' in if p = [] then ''/data/db/auth.db'' else p)"

definition health_request :: outgoing where
  "health_request = \<lparr>Req_Method = ''GET'', Req_URL = ''http://localhost:8080/health'', Req_Header = [], Req_Body = []\<rparr>"

definition health_check :: "http_client \<Rightarrow> nat" where
  "health_check client = (case client health_request of
       None \<Rightarrow> 1
     | Some resp \<Rightarrow> if Resp_Status resp = 200 then 0 else 1)"

text \<open>A client whose request reaches the router as \<open>r\<close> finds a served process healthy, whatever the state of its database.\<close>

lemma served_process_is_healthy:
  assumes "match r = (E_Health, ps)" "client health_request = Some resp"
    and "Resp_Status resp = Status (fst (fst (run_state (serve_http cfg match r) s)))"
  shows "health_check client = 0"
  using assms by (simp add: health_check_def serve_http_def RequestLogger_def run_simps serve_request_def endpoint_handler_def split: prod.splits)

section \<open>Facts on durations\<close>

lemma leadingInt_suffix: "leadingInt x s = Some (v, r) \<Longrightarrow> \<exists>p. s = p @ r"
  by (induction x s rule: leadingInt.induct) (fastforce simp: Let_def split: if_splits)+

lemma leadingFraction_suffix: "leadingFraction x k over s = (f, j, r) \<Longrightarrow> \<exists>p. s = p @ r"
  by (induction x k over s rule: leadingFraction.induct) (fastforce simp: Let_def split: if_splits)+

lemma duration_step_shorter:
  assumes "duration_step fmul s = Some (v, r)"
  shows "length r < length s"
proof -
  obtain x s1 where l: "leadingInt 0 s = Some (x, s1)" using assms by (auto simp: duration_step_def split: option.splits)
  obtain f k s2 where q: "(if s1 \<noteq> [] \<and> hd s1 = CHR ''.'' then leadingFraction 0 0 False (tl s1) else (0, 0, s1)) = (f, k, s2)"
    by (metis prod_cases3)
  have "length s1 \<le> length s" using leadingInt_suffix[OF l] by auto
  moreover have "length s2 \<le> length s1"
    using q leadingFraction_suffix[of 0 0 False "tl s1" f k s2] by (cases s1) (auto split: if_splits)
  moreover have "r = drop (length (takeWhile (\<lambda>c. \<not> unit_stop c) s2)) s2" "takeWhile (\<lambda>c. \<not> unit_stop c) s2 \<noteq> []"
    using assms by (auto simp: duration_step_def l q Let_def split: if_splits option.splits)
  ultimately show ?thesis by (cases s2) auto
qed

lemma duration_loop_fuel: "length s \<le> n \<Longrightarrow> duration_loop fmul (Suc n) d s = duration_loop fmul n d s"
proof (induction n arbitrary: d s)
  case (Suc n)
  have "duration_loop fmul (Suc n) d' r = duration_loop fmul n d' r" if "duration_step fmul s = Some (v, r)" for v r d'
    using duration_step_shorter[OF that] Suc.prems by (intro Suc.IH) simp
  then show ?case unfolding duration_loop.simps(2)[of fmul "Suc n" d s] duration_loop.simps(2)[of fmul n d s]
    by (auto simp: Let_def simp del: duration_loop.simps split: option.split)
qed simp

lemma envDuration_range: "envDuration fmul lookup key def mx = Some d \<Longrightarrow> d = def \<or> 0 \<le> d \<and> d \<le> mx"
  by (auto simp: envDuration_def split: option.splits if_splits)

section \<open>Facts on the start\<close>

lemma map_sum_Inr: "map_sum f id x = Inr y \<longleftrightarrow> x = Inr y"
  by (cases x) auto

text \<open>The configurations the constructors complete.\<close>

definition github_config :: "(string \<Rightarrow> string) \<Rightarrow> github_Config" where
  "github_config getenv = (github_env getenv)\<lparr>GH_BaseAuthURL := defaultAuthBaseURL, GH_BaseAPIURL := defaultAPIBaseURL\<rparr>"

definition microsoft_config :: "(string \<Rightarrow> string) \<Rightarrow> microsoft_Config" where
  "microsoft_config getenv = (microsoft_env getenv)\<lparr>MS_AuthorityBaseURL := defaultAuthorityBaseURL\<rparr>"

lemma github_build:
  "buildGitHubProvider getenv client = Inr (Some p) \<Longrightarrow>
     p = github_provider (github_config getenv) client \<and> GH_AllowedOrg (github_config getenv) \<noteq> []"
  "buildGitHubProvider getenv client = Inl x \<Longrightarrow> x = Exit_GitHub"
  by (auto simp: buildGitHubProvider_def github_env_def github_New_def github_config_def Let_def split: if_splits)

lemma microsoft_build:
  "buildMicrosoftProvider getenv client now = Inr (Some p) \<Longrightarrow>
     p = microsoft_provider (microsoft_config getenv) client now \<and> MS_TenantID (microsoft_config getenv) \<noteq> []"
  "buildMicrosoftProvider getenv client now = Inl x \<Longrightarrow> x = Exit_Microsoft"
  by (auto simp: buildMicrosoftProvider_def microsoft_env_def microsoft_New_def microsoft_config_def Let_def split: if_splits)

lemma guard_no_panic: "guard_origin getenv = Inl x \<Longrightarrow> x = Exit_NoAdminHost \<or> x = Exit_AdminHost"
  using valid_admin_host_no_panic[of "getenv ''PACKYARD_ADMIN_HOST''"]
  by (auto simp: guard_origin_def Let_def split: if_splits option.splits)

lemma new_stores_keep [keep_rules]:
  "keeps db NewMemStateStore" "keeps db (NewCachedComponentStore t)" "keeps db (NewRateLimiter c rf)"
  by (simp_all add: keeps_def NewMemStateStore_def NewCachedComponentStore_def NewRateLimiter_def run_simps)

lemma build_config_keeps: "keeps db (build_config w valid public)"
  unfolding build_config_def Let_def by (intro keep_rules)

lemma build_config_stops:
  assumes "fst (run_state (build_config w valid public) s) = Inl x"
  shows "x \<in> {Exit_GitHub, Exit_Microsoft, Exit_CacheTTL, Exit_NoAdminHost, Exit_AdminHost}"
  using assms github_build(2)[of "Getenv (lookupEnv w)" "http_do w"] guard_no_panic[of "Getenv (lookupEnv w)"]
    microsoft_build(2)[of "Getenv (lookupEnv w)" "http_do w" "exchange_time w"]
  by (auto simp: build_config_def Let_def NewMemStateStore_def NewCachedComponentStore_def NewRateLimiter_def run_simps
      split: sum.splits option.splits)

lemma guard_parses: "guard_origin getenv = Inr o' \<Longrightarrow> parseAdminHostStrict (getenv ''PACKYARD_ADMIN_HOST'') = Some o'"
  by (auto simp: guard_origin_def Let_def split: if_splits option.splits)

lemma build_config_result:
  assumes "run_state (build_config w valid public) s = (Inr cfg, s')"
  shows "parseAdminHostStrict (Getenv (lookupEnv w) ''PACKYARD_ADMIN_HOST'') = Some (cfg_origin cfg)"
    "\<exists>gh ms. cfg_providers cfg = provider_map gh ms \<and> buildGitHubProvider (Getenv (lookupEnv w)) (http_do w) = Inr gh \<and>
      buildMicrosoftProvider (Getenv (lookupEnv w)) (http_do w) (exchange_time w) = Inr ms"
    "0 \<le> ttl s' \<and> ttl s' \<le> Hour" "entries s' = []" "state_entries s' = []" "buckets s' = []"
  using assms guard_parses[of "Getenv (lookupEnv w)" "cfg_origin cfg"]
  by (auto simp: build_config_def Let_def NewMemStateStore_def NewCachedComponentStore_def NewRateLimiter_def run_simps
      Hour_def Minute_def Second_def split: sum.splits option.splits dest!: envDuration_range)

lemma start_cases:
  assumes "run_state (start w) s = (r, s')"
  shows "r = Inl Exit_LoadComponents \<or> r = Inl Exit_Bootstrap \<or>
    (\<exists>valid public s1 s2 b. run_state LoadComponentSets s = (Inr (valid, public), s1) \<and>
       run_state (BootstrapOperatorFromEnv (mail_ok w) (Getenv (lookupEnv w) ''PACKYARD_BOOTSTRAP_OPERATOR_EMAIL'')) s1 = (Inr b, s2) \<and>
       run_state (build_config w valid public) s2 = (r, s'))"
  using assms by (auto simp: start_def run_simps split: sum.splits prod.splits)

text \<open>
  C36: No start panics. Whatever the environment, the tables and the failures of the database, the process either exits with
  one of its own error messages, never by a panic of a constructor, or reaches the router with
  a cross-site guard for the configured admin host, no providers but GitHub and Microsoft, a cache lifetime between
  zero and an hour, and empty cache, rate limiter and flow store.
\<close>

theorem start_never_panics:
  "case run_state (start w) s of
     (Inl x, s') \<Rightarrow> x \<in> {Exit_LoadComponents, Exit_Bootstrap, Exit_GitHub, Exit_Microsoft, Exit_CacheTTL, Exit_NoAdminHost, Exit_AdminHost}
   | (Inr cfg, s') \<Rightarrow> parseAdminHostStrict (Getenv (lookupEnv w) ''PACKYARD_ADMIN_HOST'') = Some (cfg_origin cfg) \<and>
       dom (cfg_providers cfg) \<subseteq> {''github'', ''microsoft''} \<and> 0 \<le> ttl s' \<and> ttl s' \<le> Hour \<and>
       entries s' = [] \<and> buckets s' = [] \<and> state_entries s' = []"
proof -
  obtain r s' where run: "run_state (start w) s = (r, s')" by fastforce
  show ?thesis
  proof (cases r)
    case (Inl x)
    have "x \<in> {Exit_LoadComponents, Exit_Bootstrap, Exit_GitHub, Exit_Microsoft, Exit_CacheTTL, Exit_NoAdminHost, Exit_AdminHost}"
      using start_cases[OF run] unfolding Inl
    proof (elim disjE exE conjE)
      fix valid public s2
      assume "run_state (build_config w valid public) s2 = (Inl x, s')"
      then show ?thesis using build_config_stops[of w valid public s2 x] by auto
    qed auto
    then show ?thesis using run Inl by simp
  next
    case (Inr cfg)
    then obtain valid public s2 where b: "run_state (build_config w valid public) s2 = (Inr cfg, s')"
      using start_cases[OF run] by auto
    note c = build_config_result[OF b]
    have "dom (cfg_providers cfg) \<subseteq> {''github'', ''microsoft''}"
      using c(2) by (auto simp: provider_map_def ProviderGitHub_def ProviderMicrosoft_def split: if_splits)
    with c run Inr show ?thesis by simp
  qed
qed

lemma started_empty:
  assumes "run_state (start w) s = (Inr cfg, s')"
  shows "entries s' = []" "state_entries s' = []" "buckets s' = []"
  using start_cases[OF assms] build_config_result(4-6) by blast+

section \<open>The bootstrap operator\<close>

lemma Bootstrap_run:
  assumes "run_state (BootstrapOperatorFromEnv ok email) s = (Inr b, s')"
  shows "db s' = db s \<and> (email = [] \<or> operators (db s) \<noteq> []) \<or>
    email \<noteq> [] \<and> operators (db s) = [] \<and> (\<exists>p. db s' = db s\<lparr>operators := [p]\<rparr> \<and> op_email p = canonicalEmail email \<and>
      op_role p = ''admin'' \<and> op_status p = ''active'')"
  using assms
  by (auto simp: BootstrapOperatorFromEnv_def run_sql_tx_maybe run_sql_query run_simps Let_def generateOperatorID_def
      run_sql_stmt insert_operator_def new_operator_row_def OperatorRoleAdmin_def count_rows_def
      split: if_splits option.splits sum.splits prod.splits)

lemma start_effect:
  assumes "run_state (start w) s = (Inr cfg, s')"
    and "email = Getenv (lookupEnv w) ''PACKYARD_BOOTSTRAP_OPERATOR_EMAIL''"
  shows "if operators (db s) = [] \<and> email \<noteq> []
    then has_active_admin (db s') \<and> (\<exists>p. db s' = db s\<lparr>operators := [p]\<rparr> \<and> op_email p = canonicalEmail email \<and> op_role p = ''admin'')
    else db s' = db s"
proof -
  obtain valid public s1 s2 b where run: "run_state LoadComponentSets s = (Inr (valid, public), s1)"
      "run_state (BootstrapOperatorFromEnv (mail_ok w) email) s1 = (Inr b, s2)" "run_state (build_config w valid public) s2 = (Inr cfg, s')"
    using start_cases[OF assms(1)] assms(2) by auto
  have d: "db s1 = db s" "db s' = db s2"
    using keepsD[OF LoadComponentSets_keeps, of s] keepsD[OF build_config_keeps, of w valid public s2] run by simp_all
  show ?thesis using Bootstrap_run[OF run(2)] unfolding d
    by (auto simp: has_active_admin_def is_active_admin_def)
qed

lemma Bootstrap_ok [pres_rules]: "preserves db_ok (BootstrapOperatorFromEnv ok email)"
  unfolding BootstrapOperatorFromEnv_def generateOperatorID_def by (auto intro!: pres_rules insert_operator_ok)

lemma start_ok:
  assumes "run_state (start w) s = (r, s')" "db_ok s"
  shows "db_ok s'"
proof -
  have "preserves db_ok (start w)"
    unfolding start_def by (intro pres_rules keeps_preserves[OF LoadComponentSets_keeps] keeps_preserves[OF build_config_keeps])
  from preservesD[OF this assms(2)] assms(1) show ?thesis by simp
qed

text \<open>
  The bootstrap operator is created once. A start that reaches the router leaves every table as it was, except that, when the
  operators table was empty and a bootstrap email is configured, it then holds exactly one operator, an active
  admin with that email. So the first start gives the service the active admin that it never loses again, and later
  starts change nothing.
\<close>

lemma start_bootstraps_once:
  assumes "run_state (start w) s = (Inr cfg, s')"
    and "email = Getenv (lookupEnv w) ''PACKYARD_BOOTSTRAP_OPERATOR_EMAIL''"
  shows "if operators (db s) = [] \<and> email \<noteq> []
    then has_active_admin (db s') \<and> (\<exists>p. db s' = db s\<lparr>operators := [p]\<rparr> \<and> op_email p = canonicalEmail email \<and> op_role p = ''admin'')
    else db s' = db s"
  using assms by (rule start_effect)

section \<open>Who can log in to a started service\<close>

text \<open>A configured identity provider vouches for an email, given a code and a verifier.\<close>

definition provider_vouches :: "surroundings \<Rightarrow> string \<Rightarrow> string \<Rightarrow> string \<Rightarrow> string \<Rightarrow> bool" where
  "provider_vouches w name code v email \<longleftrightarrow> (let getenv = Getenv (lookupEnv w) in
     name = ''github'' \<and> getenv ''PACKYARD_GITHUB_ORG'' \<noteq> [] \<and> (\<exists>login. github_vouches (github_config getenv) (http_do w) code v email login) \<or>
     name = ''microsoft'' \<and> getenv ''PACKYARD_MICROSOFT_TENANT_ID'' \<noteq> [] \<and>
       microsoft_vouches (microsoft_config getenv) (http_do w) (exchange_time w) code v email)"

lemma provider_map_exchange:
  assumes "buildGitHubProvider (Getenv (lookupEnv w)) (http_do w) = Inr gh"
    and "buildMicrosoftProvider (Getenv (lookupEnv w)) (http_do w) (exchange_time w) = Inr ms"
    and "provider_map gh ms name = Some p" "OP_Exchange p code v = Inr identity"
  shows "\<exists>email. provider_vouches w name code v email \<and> OI_Email identity = strings_ToLower email"
proof (cases "name = ''github''")
  case True
  then have gh: "gh = Some p" using assms(3) by (simp add: provider_map_def ProviderGitHub_def)
  with github_build(1)[of "Getenv (lookupEnv w)" "http_do w" p] assms(1)
  have "p = github_provider (github_config (Getenv (lookupEnv w))) (http_do w)" "GH_AllowedOrg (github_config (Getenv (lookupEnv w))) \<noteq> []" by auto
  with assms(4) True show ?thesis
    by (auto simp: github_provider_def map_sum_Inr github_Exchange_Inr provider_vouches_def Let_def github_config_def github_env_def)
next
  case False
  then have ms: "ms = Some p" "name = ''microsoft''"
    using assms(3) by (auto simp: provider_map_def ProviderGitHub_def ProviderMicrosoft_def split: if_splits)
  with microsoft_build(1)[of "Getenv (lookupEnv w)" "http_do w" "exchange_time w" p] assms(2)
  have "p = microsoft_provider (microsoft_config (Getenv (lookupEnv w))) (http_do w) (exchange_time w)"
    "MS_TenantID (microsoft_config (Getenv (lookupEnv w))) \<noteq> []" by auto
  with assms(4) ms show ?thesis
    by (auto simp: microsoft_provider_def map_sum_Inr microsoft_Exchange_Inr provider_vouches_def Let_def microsoft_config_def microsoft_env_def)
qed

text \<open>
  C4: Who can log in to a started service. When the service was started from an environment and a callback then changes the
  sessions, the callback completed a pending flow of the browser's own handle, a provider configured in the
  environment vouched, for this code and this flow's verifier, for an email (GitHub as a primary verified address of an active
  member of the configured organisation, Microsoft by a valid token of the configured tenant), and the one new session
  belongs to the active operator with that email.
\<close>

theorem configured_login_sound:
  assumes "run_state (start w) s0 = (Inr cfg, s0')"
    and "run_state (Callback (cfg_providers cfg) dest r) s = (resp, s')" "sessions (db s') \<noteq> sessions (db s)"
  shows "\<exists>e email. pending_flow s r e \<and> provider_vouches w (URLParam r ''provider'') (query_Get r ''code'') (SE_CodeVerifier e) email \<and>
    (\<exists>p \<in> set (operators (db s)). op_email p = canonicalEmail email \<and> op_status p = ''active'' \<and>
      (\<exists>q. sessions (db s') = sessions (db s) @ [q] \<and> se_operator_id q = op_id p))"
proof -
  from start_cases[OF assms(1)] obtain valid public s2 where b: "run_state (build_config w valid public) s2 = (Inr cfg, s0')" by auto
  obtain gh ms where pm: "cfg_providers cfg = provider_map gh ms" "buildGitHubProvider (Getenv (lookupEnv w)) (http_do w) = Inr gh"
    "buildMicrosoftProvider (Getenv (lookupEnv w)) (http_do w) (exchange_time w) = Inr ms" using build_config_result(2)[OF b] by blast
  obtain e p where e: "pending_flow s r e" "p \<in> set (operators (db s))" "vouched (cfg_providers cfg) r e p" "op_status p = ''active''"
    "opened_session (op_id p) s resp s'"
    using Callback_outcome[OF assms(2)] assms(3) by (auto simp: refused_login_def)
  obtain prov identity where v: "provider_map gh ms (URLParam r ''provider'') = Some prov"
    "OP_Exchange prov (query_Get r ''code'') (SE_CodeVerifier e) = Inr identity" "op_email p = canonicalEmail (OI_Email identity)"
    using e(3) by (auto simp: vouched_def pm(1))
  obtain email where em: "provider_vouches w (URLParam r ''provider'') (query_Get r ''code'') (SE_CodeVerifier e) email"
    "OI_Email identity = strings_ToLower email" using provider_map_exchange[OF pm(2,3) v(1,2)] by blast
  have "op_email p = canonicalEmail email" using v(3) em(2) canonicalEmail_case_insensitive[of "strings_ToLower email" email] by simp
  with e em show ?thesis unfolding opened_session_def by blast
qed

section \<open>Instances\<close>

text \<open>An environment with GitHub configured, and a network on which GitHub vouches for one email.\<close>

definition sample_environment :: "string \<Rightarrow> string option" where
  "sample_environment = map_of [
     (''PACKYARD_ADMIN_HOST'', ''https://admin.example.org''),
     (''PACKYARD_BOOTSTRAP_OPERATOR_EMAIL'', ''Root@example.org''),
     (''PACKYARD_GITHUB_CLIENT_ID'', ''id''), (''PACKYARD_GITHUB_CLIENT_SECRET'', ''secret''),
     (''PACKYARD_GITHUB_REDIRECT_URI'', ''https://admin.example.org/cb''), (''PACKYARD_GITHUB_ORG'', ''acme'')]"

definition sample_network :: http_client where
  "sample_network q = map_option (\<lambda>b. \<lparr>Resp_Status = 200, Resp_Body = b\<rparr>) (map_of [
     (''https://github.com/login/oauth/access_token'', ''{\"access_token\":\"t1\"}''),
     (''https://api.github.com/user/emails'', ''[{\"email\":\"Root@example.org\",\"primary\":true,\"verified\":true}]''),
     (''https://api.github.com/user'', ''{\"login\":\"root\"}''),
     (''https://api.github.com/user/memberships/orgs/acme'', ''{\"state\":\"active\"}'')] (Req_URL q))"

definition sample_surroundings :: surroundings where
  "sample_surroundings = \<lparr>lookupEnv = sample_environment, http_do = sample_network, exchange_time = 1700000000 * Second,
     mail_ok = (\<lambda>_. True), float_product = (\<lambda>_ _ _. 0), adminDist = sample_dist\<rparr>"

text \<open>The exchange, evaluated down to the JSON texts.\<close>

lemma sample_exchange:
  "github_Exchange (github_config (Getenv sample_environment)) sample_network ''good'' ''v1'' =
     Inr \<lparr>OI_Email = ''root@example.org'', OI_OrgMember = True, OI_ProviderUserID = ''root'', OI_Provider = ''github''\<rparr>"
  by code_simp

lemma root_lower: "strings_ToLower ''Root@example.org'' = ''root@example.org''" "strings_ToLower ''root@example.org'' = ''root@example.org''"
  by code_simp+

lemma sample_guard: "\<exists>o'. guard_origin (Getenv sample_environment) = Inr o'"
proof -
  have "guard_origin (Getenv sample_environment) = Inr \<lparr>or_scheme = ''https'', or_host = ''admin.example.org'', or_port = []\<rparr>" by code_simp
  then show ?thesis by blast
qed

lemma sample_environment_sel [simp]:
  "lookupEnv sample_surroundings = sample_environment" "http_do sample_surroundings = sample_network"
  "mail_ok sample_surroundings = (\<lambda>_. True)"
  "sample_environment ''PACKYARD_PUBLIC_COMPONENT_CACHE_TTL'' = None"
  "Getenv sample_environment ''PACKYARD_BOOTSTRAP_OPERATOR_EMAIL'' = ''Root@example.org''"
  by (simp_all add: sample_surroundings_def sample_environment_def Getenv_def)

lemma sample_builds:
  "buildGitHubProvider (Getenv sample_environment) client = Inr (Some (github_provider (github_config (Getenv sample_environment)) client))"
  "buildMicrosoftProvider (Getenv sample_environment) client now = Inr None"
  by (simp_all add: buildGitHubProvider_def buildMicrosoftProvider_def github_env_def microsoft_env_def github_New_def github_config_def
      sample_environment_def Getenv_def)

lemma sample_build:
  "\<exists>cfg s'. run_state (build_config sample_surroundings valid public) s = (Inr cfg, s') \<and>
     cfg_providers cfg = provider_map (Some (github_provider (github_config (Getenv sample_environment)) sample_network)) None"
  using sample_guard
  by (auto simp: build_config_def sample_builds NewMemStateStore_def NewCachedComponentStore_def NewRateLimiter_def run_simps envDuration_def Let_def)

lemma sample_bootstrap_check:
  "operator_check (new_operator_row i (canonicalEmail ''Root@example.org'') OperatorRoleAdmin now ''bootstrap'')"
  by (simp add: root_canonical operator_check_def new_operator_row_def role_defs email_check_def sql_lower_def ascii_lower_def sql_like_email
      operator_role_check_def operator_status_check_def provider_check_def)

lemma sample_start:
  assumes "\<And>n. fault s n = None" "\<And>n. entropy_err s n = None" "operators (db s) = [] \<or> operators (db s) = operators sample_tables"
  shows "\<exists>cfg s'. run_state (start sample_surroundings) s = (Inr cfg, s') \<and>
     cfg_providers cfg = provider_map (Some (github_provider (github_config (Getenv sample_environment)) sample_network)) None"
proof -
  obtain sets s1 where l: "run_state LoadComponentSets s = (Inr sets, s1)" "s1 = s\<lparr>stmts := Suc (stmts s)\<rparr>"
    using assms(1) by (auto simp: LoadComponentSets_def run_sql_query)
  have "\<exists>b s2. run_state (BootstrapOperatorFromEnv (\<lambda>_. True) ''Root@example.org'') s1 = (Inr b, s2)"
    using assms(3)
  proof
    assume "operators (db s) = []"
    with assms(1,2) show ?thesis
      by (simp add: l(2) BootstrapOperatorFromEnv_def run_sql_tx_maybe run_sql_query generateOperatorID_def count_rows_def
          run_simps run_sql_stmt insert_operator_def Let_def sample_bootstrap_check)
  next
    assume "operators (db s) = operators sample_tables"
    with assms(1,2) show ?thesis
      by (simp add: l(2) BootstrapOperatorFromEnv_def run_sql_tx_maybe run_sql_query count_rows_def sample_rows)
  qed
  then obtain b s2 where "run_state (BootstrapOperatorFromEnv (\<lambda>_. True) ''Root@example.org'') s1 = (Inr b, s2)" by blast
  with l sample_build[of "fst sets" "snd sets" s2] show ?thesis by (auto simp: start_def split: prod.splits)
qed

lemma start_bootstraps_once_witness:
  "\<exists>cfg (s' :: service). run_state (start sample_surroundings) (sample_service\<lparr>db := sample_tables\<lparr>operators := []\<rparr>\<rparr>) = (Inr cfg, s') \<and>
     has_active_admin (db s')"
proof -
  let ?s = "sample_service\<lparr>db := sample_tables\<lparr>operators := []\<rparr>\<rparr>"
  obtain cfg s' where run: "run_state (start sample_surroundings) ?s = (Inr cfg, s')"
    using sample_start[of ?s] by auto
  from start_bootstraps_once[OF this refl] have "has_active_admin (db s')" by simp
  with run show ?thesis by blast
qed

theorem configured_login_sound_witness:
  "\<exists>(s0 :: service) cfg resp s' (e :: StateEntry) email.
     run_state (start sample_surroundings) sample_service = (Inr cfg, s0) \<and>
     run_state (Callback (cfg_providers cfg) [] (sample_callback ''h1'' ''st1'')) sample_pending = (resp, s') \<and>
     sessions (db s') \<noteq> sessions (db sample_pending) \<and> provider_vouches sample_surroundings ''github'' ''good'' (SE_CodeVerifier e) email"
proof -
  let ?e = "\<lparr>SE_State = ''st1'', SE_CodeVerifier = ''v1'', SE_Provider = ''github'', SE_Created = 1699999900 * Second\<rparr>"
  let ?p = "sample_operator ''op-1'' ''root@example.org'' ''admin''" and ?r = "sample_callback ''h1'' ''st1''"
  obtain cfg s0 where run: "run_state (start sample_surroundings) sample_service = (Inr cfg, s0)"
    and pm: "cfg_providers cfg = provider_map (Some (github_provider (github_config (Getenv sample_environment)) sample_network)) None"
    using sample_start[of sample_service] by auto
  have "pending_flow sample_pending ?r ?e"
    by (simp add: pending_flow_def sample_pending_def time_Sub_def StateTTL_def Minute_def Second_def minDuration_def maxDuration_def)
  moreover have "vouched (cfg_providers cfg) ?r ?e ?p"
    using sample_root canonicalEmail_case_insensitive[of "''Root@example.org''" "''root@example.org''"]
    by (simp add: vouched_def pm provider_map_def ProviderGitHub_def github_provider_def sample_exchange root_lower)
  moreover have "draw_hex sample_pending 0 32 \<notin> se_id ` set (sessions (db sample_pending))"
    using sample_fresh[of 0] by (simp add: sample_pending_def draw_hex_def)
  ultimately obtain resp s' q where cb: "run_state (Callback (cfg_providers cfg) [] ?r) sample_pending = (resp, s')"
    "sessions (db s') = sessions (db sample_pending) @ [q]"
    using Callback_completes[of sample_pending ?r ?e "cfg_providers cfg" ?p "[]"] sample_root
    by (auto simp: sample_pending_def sample_ok)
  then have ne: "sessions (db s') \<noteq> sessions (db sample_pending)" by simp
  from configured_login_sound[OF run cb(1) ne] obtain e :: StateEntry and email where "provider_vouches sample_surroundings ''github'' ''good'' (SE_CodeVerifier e) email"
    by auto
  with run cb(1) ne show ?thesis by blast
qed

end
