(* ===== verification/Migration.thy ===== *)
theory Migration
  imports Sql_Schema
begin

text \<open>
  The opening of the database in \<^verbatim>\<open>internal/store/sqlite.go\<close>: \<^verbatim>\<open>NewSQLiteStore\<close>, the seeding of the legacy account and
  the migration of key tables from before the account aggregate. Here a table may be missing, the account
  column of the key table may be missing or nullable, and enforcement of foreign keys is a property of the
  connection. Every statement, the multi-statement \<^verbatim>\<open>schema\<close> string included, may fail and commits on its own outside the rebuild transaction;
  a restart begins with the file as the failed opening left it. Indexes other than the unique one on account emails do not
  affect results and are left out, but their statements may fail. The lemmas: whatever fails, no key is lost or given to
  another account; a successful opening gives the tables the schema invariant; without failures
  every well-formed file opens; opening again changes nothing.
\<close>

section \<open>The file\<close>

datatype account_column = Absent | Nullable | Not_Null

text \<open>The columns by strength of their constraint, which the migration only raises.\<close>

fun strength :: "account_column \<Rightarrow> nat" where
  "strength Absent = 0"
| "strength Nullable = 1"
| "strength Not_Null = 2"

lemma strength_eq [simp]: "strength a = strength b \<longleftrightarrow> a = b"
  by (cases a; cases b) simp_all

instantiation account_column :: linorder
begin

definition less_eq_account_column :: "account_column \<Rightarrow> account_column \<Rightarrow> bool" where
  "less_eq_account_column a b \<longleftrightarrow> strength a \<le> strength b"

definition less_account_column :: "account_column \<Rightarrow> account_column \<Rightarrow> bool" where
  "less_account_column a b \<longleftrightarrow> strength a < strength b"

instance
  by standard (auto simp: less_eq_account_column_def less_account_column_def dest: antisym)

end

lemma column_le [simp]: "Absent \<le> (c :: account_column)" "c \<le> Not_Null" "c \<le> Absent \<longleftrightarrow> c = Absent" "Not_Null \<le> c \<longleftrightarrow> c = Not_Null"
  by (cases c; simp add: less_eq_account_column_def)+

record raw_key =
  r_id :: string
  r_component :: string
  r_label :: string
  r_active :: int
  r_created_at :: int
  r_expires_at :: "int option"
  r_usage_count :: int
  r_account_id :: "string option"

record key_table =
  kt_account_id :: account_column
  kt_rows :: "raw_key list"

record database =
  foreign_keys :: bool
  f_accounts :: "account_row list option"
  f_operators :: "operator_row list option"
  f_sessions :: "session_row list option"
  f_audit_log :: "audit_row list option"
  f_audit_seq :: int
  f_keys :: "key_table option"
  f_keys_old :: "key_table option"
  f_components :: "component_row list option"

record migrating = env +
  disk :: database

definition rows_of :: "'a list option \<Rightarrow> 'a list" where
  "rows_of t = (case t of None \<Rightarrow> [] | Some rs \<Rightarrow> rs)"

section \<open>Statements\<close>

type_synonym 'a ddl = "database \<Rightarrow> string + ('a \<times> database)"

definition exec :: "'a ddl \<Rightarrow> ('z migrating_scheme, goerr + 'a) state" where
  "exec f = State (\<lambda>s.
     let s' = s\<lparr>stmts := Suc (stmts s)\<rparr> in
     case fault s (stmts s) of
       Some msg \<Rightarrow> (Inl (SqlErr msg), s')
     | None \<Rightarrow> (case f (disk s) of Inl msg \<Rightarrow> (Inl (SqlErr msg), s') | Inr (a, d) \<Rightarrow> (Inr a, s'\<lparr>disk := d\<rparr>)))"

fun exec_all :: "unit ddl list \<Rightarrow> ('z migrating_scheme, goerr + unit) state" where
  "exec_all [] = State_Monad.return (Inr ())"
| "exec_all (f # fs) = do {
     r \<leftarrow> exec f;
     case r of Inl e \<Rightarrow> State_Monad.return (Inl e) | Inr _ \<Rightarrow> exec_all fs }"

definition no_effect :: "unit ddl" where
  "no_effect d = Inr ((), d)"

definition set_foreign_keys :: "bool \<Rightarrow> unit ddl" where
  "set_foreign_keys b d = Inr ((), d\<lparr>foreign_keys := b\<rparr>)"

text \<open>\<^verbatim>\<open>CREATE TABLE IF NOT EXISTS\<close>.\<close>

definition make_table :: "'a list option \<Rightarrow> 'a list option" where
  "make_table t = (case t of None \<Rightarrow> Some [] | Some rs \<Rightarrow> Some rs)"

definition create_accounts :: "unit ddl" where "create_accounts d = Inr ((), d\<lparr>f_accounts := make_table (f_accounts d)\<rparr>)"
definition create_operators :: "unit ddl" where "create_operators d = Inr ((), d\<lparr>f_operators := make_table (f_operators d)\<rparr>)"
definition create_sessions :: "unit ddl" where "create_sessions d = Inr ((), d\<lparr>f_sessions := make_table (f_sessions d)\<rparr>)"
definition create_audit_log :: "unit ddl" where "create_audit_log d = Inr ((), d\<lparr>f_audit_log := make_table (f_audit_log d)\<rparr>)"
definition create_components :: "unit ddl" where "create_components d = Inr ((), d\<lparr>f_components := make_table (f_components d)\<rparr>)"

definition create_keys :: "unit ddl" where
  "create_keys d = Inr ((), d\<lparr>f_keys := (case f_keys d of None \<Rightarrow> Some \<lparr>kt_account_id = Not_Null, kt_rows = []\<rparr> | Some k \<Rightarrow> Some k)\<rparr>)"

text \<open>\<^verbatim>\<open>CREATE UNIQUE INDEX IF NOT EXISTS idx_accounts_email\<close>: refused on duplicate emails.\<close>

definition unique_email_index :: "unit ddl" where
  "unique_email_index d = (if distinct (map ac_email (rows_of (f_accounts d))) then Inr ((), d) else Inl (unique_failed ''accounts.email''))"

text \<open>The statements of the \<^verbatim>\<open>schema\<close> string.\<close>

definition schema_stmts :: "unit ddl list" where
  "schema_stmts = [create_accounts, unique_email_index, create_operators, create_sessions, no_effect, no_effect,
     create_audit_log, no_effect, no_effect, no_effect, create_keys, no_effect, create_components]"

section \<open>The legacy account\<close>

definition legacy_account :: "go_time \<Rightarrow> account_row" where
  "legacy_account now = \<lparr>ac_id = legacyAccountID, ac_email = ''legacy@packyard.internal'', ac_org_name = Some ''Pre-account keys'',
     ac_status = ''active'', ac_created_at = rfc3339 now, ac_created_by_operator_id = ''bootstrap''\<rparr>"

text \<open>\<^verbatim>\<open>INSERT OR IGNORE\<close>: a row that violates a constraint is skipped.\<close>

definition insert_or_ignore_account :: "account_row \<Rightarrow> unit ddl" where
  "insert_or_ignore_account r d = (case f_accounts d of
       None \<Rightarrow> Inl ''no such table: accounts''
     | Some rs \<Rightarrow> Inr ((), if \<not> account_check r \<or> ac_id r \<in> ac_id ` set rs \<or> ac_email r \<in> ac_email ` set rs then d
         else d\<lparr>f_accounts := Some (rs @ [r])\<rparr>))"

definition seedLegacyAccount :: "('z migrating_scheme, goerr + unit) state" where
  "seedLegacyAccount = do {
     now \<leftarrow> time_Now;
     r \<leftarrow> exec (insert_or_ignore_account (legacy_account now));
     State_Monad.return (case r of Inl e \<Rightarrow> Inl (Wrapf ''seed legacy account'' e) | Inr _ \<Rightarrow> Inr ()) }"

section \<open>The account column\<close>

definition key_columns :: "account_column \<Rightarrow> (string \<times> int) list" where
  "key_columns c = [(''id'', 0), (''component'', 1), (''label'', 1), (''active'', 1), (''created_at'', 1), (''expires_at'', 0), (''usage_count'', 1)] @
     (case c of Absent \<Rightarrow> [] | Nullable \<Rightarrow> [(''account_id'', 0)] | Not_Null \<Rightarrow> [(''account_id'', 1)])"

definition table_info :: "(string \<times> int) list ddl" where
  "table_info d = Inr (case f_keys d of None \<Rightarrow> [] | Some k \<Rightarrow> key_columns (kt_account_id k), d)"

text \<open>The row loop.\<close>

fun find_account_column :: "(string \<times> int) list \<Rightarrow> bool \<times> bool" where
  "find_account_column [] = (False, False)"
| "find_account_column ((name, nn) # rows) = (if name = ''account_id'' then (True, nn = 1) else find_account_column rows)"

definition subscriptionKeyAccountIDColumn :: "('z migrating_scheme, goerr + bool \<times> bool) state" where
  "subscriptionKeyAccountIDColumn = do {
     r \<leftarrow> exec table_info;
     State_Monad.return (case r of Inl e \<Rightarrow> Inl (Wrapf ''table_info'' e) | Inr rows \<Rightarrow> Inr (find_account_column rows)) }"

definition add_account_column :: "unit ddl" where
  "add_account_column d = (case f_keys d of
       None \<Rightarrow> Inl ''no such table: subscription_key''
     | Some k \<Rightarrow> if kt_account_id k \<noteq> Absent then Inl ''duplicate column name: account_id''
         else Inr ((), d\<lparr>f_keys := Some \<lparr>kt_account_id = Nullable, kt_rows = map (\<lambda>r. r\<lparr>r_account_id := None\<rparr>) (kt_rows k)\<rparr>\<rparr>))"

definition to_legacy :: "raw_key \<Rightarrow> raw_key" where
  "to_legacy r = (if r_account_id r = None then r\<lparr>r_account_id := Some legacyAccountID\<rparr> else r)"

definition backfill :: "unit ddl" where
  "backfill d = (case f_keys d of
       None \<Rightarrow> Inl ''no such table: subscription_key''
     | Some k \<Rightarrow> if kt_account_id k = Absent then Inl ''no such column: account_id''
         else if foreign_keys d \<and> list_ex (\<lambda>r. r_account_id r = None) (kt_rows k) \<and>
           legacyAccountID \<notin> ac_id ` set (rows_of (f_accounts d)) then Inl foreign_key_failed
         else Inr ((), d\<lparr>f_keys := Some (k\<lparr>kt_rows := map to_legacy (kt_rows k)\<rparr>)\<rparr>))"

section \<open>The rebuild\<close>

definition drop_old :: "unit ddl" where
  "drop_old d = Inr ((), d\<lparr>f_keys_old := None\<rparr>)"

definition rename_keys :: "unit ddl" where
  "rename_keys d = (case f_keys d of
       None \<Rightarrow> Inl ''no such table: subscription_key''
     | Some k \<Rightarrow> if f_keys_old d \<noteq> None then Inl ''there is already another table or index with this name: subscription_key_old''
         else Inr ((), d\<lparr>f_keys := None, f_keys_old := Some k\<rparr>))"

definition create_new_keys :: "unit ddl" where
  "create_new_keys d = (if f_keys d \<noteq> None then Inl ''table subscription_key already exists''
     else Inr ((), d\<lparr>f_keys := Some \<lparr>kt_account_id = Not_Null, kt_rows = []\<rparr>\<rparr>))"

text \<open>\<^verbatim>\<open>INSERT INTO subscription_key ... SELECT ... FROM subscription_key_old\<close>.\<close>

definition copy_keys :: "unit ddl" where
  "copy_keys d = (case (f_keys_old d, f_keys d) of
       (Some old, Some new) \<Rightarrow>
         if kt_account_id old = Absent then Inl ''no such column: account_id''
         else if list_ex (\<lambda>r. r_account_id r = None) (kt_rows old) then
           Inl ''constraint failed: NOT NULL constraint failed: subscription_key.account_id (1299)''
         else if \<not> distinct (map r_id (kt_rows new @ kt_rows old)) then Inl (unique_failed ''subscription_key.id'')
         else if foreign_keys d \<and> list_ex (\<lambda>r. the (r_account_id r) \<notin> ac_id ` set (rows_of (f_accounts d))) (kt_rows old) then Inl foreign_key_failed
         else Inr ((), d\<lparr>f_keys := Some (new\<lparr>kt_rows := kt_rows new @ kt_rows old\<rparr>)\<rparr>)
     | _ \<Rightarrow> Inl ''no such table'')"

definition rebuild_stmts :: "unit ddl list" where
  "rebuild_stmts = [drop_old, rename_keys, create_new_keys, copy_keys, drop_old, no_effect, no_effect]"

text \<open>\<^verbatim>\<open>PRAGMA foreign_key_check\<close>: whether it returns a row.\<close>

definition foreign_key_check :: "bool ddl" where
  "foreign_key_check d = Inr (
     list_ex (\<lambda>q. se_operator_id q \<notin> op_id ` set (rows_of (f_operators d))) (rows_of (f_sessions d)) \<or>
     (case f_keys d of None \<Rightarrow> False | Some k \<Rightarrow>
        list_ex (\<lambda>r. case r_account_id r of None \<Rightarrow> False | Some a \<Rightarrow> a \<notin> ac_id ` set (rows_of (f_accounts d))) (kt_rows k)), d)"

definition set_file :: "database \<Rightarrow> ('z migrating_scheme, unit) state" where
  "set_file d = State (\<lambda>s. ((), s\<lparr>disk := d\<rparr>))"

text \<open>\<^verbatim>\<open>BeginTx\<close>, the statements and \<^verbatim>\<open>Commit\<close>, with the deferred \<^verbatim>\<open>Rollback\<close>.\<close>

definition rebuild_tx :: "('z migrating_scheme, goerr + unit) state" where
  "rebuild_tx = do {
     b \<leftarrow> exec no_effect;
     case b of
       Inl e \<Rightarrow> State_Monad.return (Inl (Wrapf ''begin rebuild tx'' e))
     | Inr _ \<Rightarrow> do {
         s0 \<leftarrow> State_Monad.get;
         r \<leftarrow> exec_all rebuild_stmts;
         case r of
           Inl e \<Rightarrow> do { _ \<leftarrow> set_file (disk s0); State_Monad.return (Inl (Wrapf ''rebuild subscription_key'' e)) }
         | Inr _ \<Rightarrow> do {
             c \<leftarrow> exec no_effect;
             case c of
               Inl e \<Rightarrow> do { _ \<leftarrow> set_file (disk s0); State_Monad.return (Inl (Wrapf ''commit rebuild'' e)) }
             | Inr _ \<Rightarrow> State_Monad.return (Inr ()) } } }"

definition rebuild_body :: "('z migrating_scheme, goerr + unit) state" where
  "rebuild_body = do {
     t \<leftarrow> rebuild_tx;
     case t of
       Inl e \<Rightarrow> State_Monad.return (Inl e)
     | Inr _ \<Rightarrow> do {
         v \<leftarrow> exec foreign_key_check;
         State_Monad.return (case v of
           Inl e \<Rightarrow> Inl (Wrapf ''foreign_key_check'' e)
         | Inr violated \<Rightarrow> if violated then Inl (Errorf (''rebuild subscription_key: foreign_key_check reported violations after rebuild '' @
               [CHR 0xE2, CHR 0x80, CHR 0x94] @ '' refusing to re-enable FK enforcement''))
             else Inr ()) } }"

text \<open>The connection is pinned and the deferred function switches enforcement back on, on every path behind it.\<close>

definition rebuildSubscriptionKeyNotNull :: "('z migrating_scheme, goerr + unit) state" where
  "rebuildSubscriptionKeyNotNull = do {
     c \<leftarrow> exec no_effect;
     case c of
       Inl e \<Rightarrow> State_Monad.return (Inl (Wrapf ''acquire conn'' e))
     | Inr _ \<Rightarrow> do {
         off \<leftarrow> exec (set_foreign_keys False);
         case off of
           Inl e \<Rightarrow> State_Monad.return (Inl (Wrapf ''disable fk'' e))
         | Inr _ \<Rightarrow> do {
             r \<leftarrow> rebuild_body;
             on \<leftarrow> exec (set_foreign_keys True);
             State_Monad.return (case (on, r) of
               (Inl e, Inr _) \<Rightarrow> Inl (Wrapf ''re-enable fk'' e)
             | _ \<Rightarrow> r) } } }"

section \<open>Migration and opening\<close>

definition migrateSubscriptionKeyAccountID :: "('z migrating_scheme, goerr + unit) state" where
  "migrateSubscriptionKeyAccountID = do {
     c \<leftarrow> subscriptionKeyAccountIDColumn;
     case c of
       Inl e \<Rightarrow> State_Monad.return (Inl e)
     | Inr (colExists, colNotNull) \<Rightarrow> do {
         a \<leftarrow> (if \<not> colExists then exec add_account_column else State_Monad.return (Inr ()));
         case a of
           Inl e \<Rightarrow> State_Monad.return (Inl (Wrapf ''add account_id column'' e))
         | Inr _ \<Rightarrow> do {
             i \<leftarrow> exec no_effect;
             case i of
               Inl e \<Rightarrow> State_Monad.return (Inl (Wrapf ''create account_id index'' e))
             | Inr _ \<Rightarrow> do {
                 b \<leftarrow> exec backfill;
                 case b of
                   Inl e \<Rightarrow> State_Monad.return (Inl (Wrapf ''backfill legacy account'' e))
                 | Inr _ \<Rightarrow> if \<not> colExists \<or> \<not> colNotNull then rebuildSubscriptionKeyNotNull
                     else State_Monad.return (Inr ()) } } } }"

definition pragmas :: "(string \<times> unit ddl) list" where
  "pragmas = [(''PRAGMA journal_mode=WAL'', no_effect), (''PRAGMA synchronous=NORMAL'', no_effect),
     (''PRAGMA busy_timeout=5000'', no_effect), (''PRAGMA foreign_keys=ON'', set_foreign_keys True)]"

fun exec_pragmas :: "(string \<times> unit ddl) list \<Rightarrow> ('z migrating_scheme, goerr + unit) state" where
  "exec_pragmas [] = State_Monad.return (Inr ())"
| "exec_pragmas ((p, f) # ps) = do {
     r \<leftarrow> exec f;
     case r of Inl e \<Rightarrow> State_Monad.return (Inl (Wrapf (''exec '' @ p) e)) | Inr _ \<Rightarrow> exec_pragmas ps }"

text \<open>A new connection starts with foreign keys off.\<close>

definition NewSQLiteStore :: "('z migrating_scheme, goerr + unit) state" where
  "NewSQLiteStore = do {
     opened \<leftarrow> exec (set_foreign_keys False);
     case opened of
       Inl e \<Rightarrow> State_Monad.return (Inl (Wrapf ''open sqlite'' e))
     | Inr _ \<Rightarrow> do {
         p \<leftarrow> exec_pragmas pragmas;
         case p of
           Inl e \<Rightarrow> State_Monad.return (Inl e)
         | Inr _ \<Rightarrow> do {
             c \<leftarrow> exec_all schema_stmts;
             case c of
               Inl e \<Rightarrow> State_Monad.return (Inl (Wrapf ''create schema'' e))
             | Inr _ \<Rightarrow> do {
                 l \<leftarrow> seedLegacyAccount;
                 case l of
                   Inl e \<Rightarrow> State_Monad.return (Inl e)
                 | Inr _ \<Rightarrow> migrateSubscriptionKeyAccountID } } } }"

section \<open>What a file holds\<close>

definition owned_key :: "raw_key \<Rightarrow> key_row" where
  "owned_key r = \<lparr>k_id = r_id r, k_component = r_component r, k_label = r_label r, k_active = r_active r, k_created_at = r_created_at r,
     k_expires_at = r_expires_at r, k_usage_count = r_usage_count r,
     k_account_id = (case r_account_id r of None \<Rightarrow> legacyAccountID | Some a \<Rightarrow> a)\<rparr>"

text \<open>The keys of a file, each with its account, or the legacy account if it has none.\<close>

definition owned_keys :: "database \<Rightarrow> key_row list" where
  "owned_keys d = (case f_keys d of None \<Rightarrow> [] | Some k \<Rightarrow> map owned_key (kt_rows k))"

definition loaded :: "database \<Rightarrow> tables" where
  "loaded d = \<lparr>accounts = rows_of (f_accounts d), operators = rows_of (f_operators d), sessions = rows_of (f_sessions d),
     audit_log = rows_of (f_audit_log d), audit_seq = f_audit_seq d, subscription_key = owned_keys d, components = rows_of (f_components d)\<rparr>"

text \<open>The constraints that the tables of a file carried when their rows were written.\<close>

definition raw_key_ok :: "account_row list \<Rightarrow> account_column \<Rightarrow> raw_key \<Rightarrow> bool" where
  "raw_key_ok accs c r \<longleftrightarrow> (r_active r = 0 \<or> r_active r = 1) \<and> 0 \<le> r_usage_count r \<and>
     (case r_account_id r of None \<Rightarrow> c \<noteq> Not_Null | Some a \<Rightarrow> c \<noteq> Absent \<and> a \<in> ac_id ` set accs)"

definition key_table_ok :: "account_row list \<Rightarrow> key_table \<Rightarrow> bool" where
  "key_table_ok accs k \<longleftrightarrow> distinct (map r_id (kt_rows k)) \<and> list_all (raw_key_ok accs (kt_account_id k)) (kt_rows k)"

definition file_ok :: "database \<Rightarrow> bool" where
  "file_ok d \<longleftrightarrow> accounts_ok (rows_of (f_accounts d)) \<and> operators_ok (rows_of (f_operators d)) \<and>
     sessions_ok (rows_of (f_operators d)) (rows_of (f_sessions d)) \<and> components_ok (rows_of (f_components d)) \<and>
     audit_ok (f_audit_seq d) (rows_of (f_audit_log d)) \<and>
     pred_option (key_table_ok (rows_of (f_accounts d))) (f_keys d)"

text \<open>Nobody else holds the id or the email of the legacy account, and it is in service if it exists.\<close>

definition legacy_clear :: "database \<Rightarrow> bool" where
  "legacy_clear d \<longleftrightarrow> list_all (\<lambda>r. if ac_id r = legacyAccountID then ac_status r = ''active'' else ac_email r \<noteq> ''legacy@packyard.internal'')
     (rows_of (f_accounts d))"

text \<open>Every table is there, the account column is \<^verbatim>\<open>NOT NULL\<close> and foreign keys are enforced.\<close>

definition complete :: "database \<Rightarrow> bool" where
  "complete d \<longleftrightarrow> f_accounts d \<noteq> None \<and> f_operators d \<noteq> None \<and> f_sessions d \<noteq> None \<and> f_audit_log d \<noteq> None \<and> f_components d \<noteq> None"

definition opened :: "database \<Rightarrow> bool" where
  "opened d \<longleftrightarrow> complete d \<and> foreign_keys d \<and> (\<exists>k. f_keys d = Some k \<and> kt_account_id k = Not_Null)"

definition column :: "database \<Rightarrow> account_column" where
  "column d = (case f_keys d of None \<Rightarrow> Absent | Some k \<Rightarrow> kt_account_id k)"

text \<open>A later file holds what an earlier one held, and at most the legacy account besides; its account column is at least as strict.\<close>

definition carries :: "database \<Rightarrow> database \<Rightarrow> bool" where
  "carries d0 d \<longleftrightarrow> column d0 \<le> column d \<and> file_ok d \<and> legacy_clear d \<and> owned_keys d = owned_keys d0 \<and> rows_of (f_operators d) = rows_of (f_operators d0) \<and>
     rows_of (f_sessions d) = rows_of (f_sessions d0) \<and> rows_of (f_audit_log d) = rows_of (f_audit_log d0) \<and> f_audit_seq d = f_audit_seq d0 \<and>
     rows_of (f_components d) = rows_of (f_components d0) \<and>
     (rows_of (f_accounts d) = rows_of (f_accounts d0) \<or> (\<exists>t. rows_of (f_accounts d) = rows_of (f_accounts d0) @ [legacy_account t]))"

section \<open>Programs that fail only when a statement fails\<close>

definition faulty :: "(nat \<Rightarrow> string option) \<Rightarrow> bool" where
  "faulty schedule \<longleftrightarrow> (\<exists>n. schedule n \<noteq> None)"

lemma faultyI: "schedule n = Some msg \<Longrightarrow> faulty schedule"
  by (auto simp: faulty_def)

text \<open>
  From a file in \<open>P\<close>, the program returns a value related to the file by \<open>Q\<close>, or an error, and then the file is in \<open>E\<close>
  and some statement of the schedule failed.
\<close>

definition judged :: "(database \<Rightarrow> bool) \<Rightarrow> ('z migrating_scheme, goerr + 'a) state \<Rightarrow> (database \<Rightarrow> bool) \<Rightarrow> ('a \<Rightarrow> database \<Rightarrow> bool) \<Rightarrow> bool" where
  "judged P m E Q \<longleftrightarrow> (\<forall>s. P (disk s) \<longrightarrow> fault (snd (run_state m s)) = fault s \<and>
     (case fst (run_state m s) of
        Inl e \<Rightarrow> E (disk (snd (run_state m s))) \<and> faulty (fault s)
      | Inr x \<Rightarrow> Q x (disk (snd (run_state m s)))))"

lemma judgedD:
  assumes "judged P m E Q" "P (disk s)" "run_state m s = (r, s')"
  shows "fault s' = fault s" "r = Inl e \<Longrightarrow> E (disk s') \<and> faulty (fault s)" "r = Inr x \<Longrightarrow> Q x (disk s')"
  using assms(1)[unfolded judged_def, rule_format, OF assms(2)] assms(3) by (auto split: sum.splits)

lemma judgedI:
  assumes "\<And>s r s'. P (disk s) \<Longrightarrow> run_state m s = (r, s') \<Longrightarrow> fault s' = fault s \<and>
    (case r of Inl e \<Rightarrow> E (disk s') \<and> faulty (fault s) | Inr x \<Rightarrow> Q x (disk s'))"
  shows "judged P m E Q"
  unfolding judged_def using assms by (metis prod.collapse)

lemma judged_exec:
  assumes "\<And>d. P d \<Longrightarrow> E d \<and> (\<exists>a d'. f d = Inr (a, d') \<and> Q a d')"
  shows "judged P (exec f) E Q"
proof (rule judgedI)
  fix s :: "'c migrating_scheme" and r s'
  assume P: "P (disk s)" and run: "run_state (exec f) s = (r, s')"
  from assms[OF P] obtain a d' where "f (disk s) = Inr (a, d')" "Q a d'" "E (disk s)" by blast
  then show "fault s' = fault s \<and> (case r of Inl e \<Rightarrow> E (disk s') \<and> faulty (fault s) | Inr x \<Rightarrow> Q x (disk s'))"
    using run by (auto simp: exec_def Let_def intro: faultyI split: option.splits)
qed

lemma judged_return: "(\<And>d. P d \<Longrightarrow> Q x d) \<Longrightarrow> judged P (State_Monad.return (Inr x)) E Q"
  by (simp add: judged_def)

lemma judged_pre: "judged P m E Q \<Longrightarrow> (\<And>d. P' d \<Longrightarrow> P d) \<Longrightarrow> judged P' m E Q"
  by (simp add: judged_def)

lemma judged_bind:
  fixes m :: "('z migrating_scheme, goerr + 'a) state"
  assumes "judged P m E R" "\<And>x. judged (R x) (k x) E Q"
  shows "judged P (m \<bind> (\<lambda>r. case r of Inl e \<Rightarrow> State_Monad.return (Inl (g e)) | Inr x \<Rightarrow> k x)) E Q"
proof (rule judgedI)
  fix s :: "'z migrating_scheme" and r s'
  let ?m = "m \<bind> (\<lambda>r. case r of Inl e \<Rightarrow> State_Monad.return (Inl (g e)) | Inr x \<Rightarrow> k x)"
  assume P: "P (disk s)" and run: "run_state ?m s = (r, s')"
  obtain y s1 where y: "run_state m s = (y, s1)" by fastforce
  note m = judgedD[OF assms(1) P y]
  show "fault s' = fault s \<and> (case r of Inl e \<Rightarrow> E (disk s') \<and> faulty (fault s) | Inr x \<Rightarrow> Q x (disk s'))"
  proof (cases y)
    case (Inl e)
    with run y m show ?thesis by auto
  next
    case (Inr x)
    with run y have k: "run_state (k x) s1 = (r, s')" by simp
    from judgedD[OF assms(2) m(3)[OF Inr] k] m(1) show ?thesis by (auto split: sum.splits)
  qed
qed

lemma judged_map:
  "judged P m E (\<lambda>x. Q (h x)) \<Longrightarrow>
   judged P (m \<bind> (\<lambda>r. State_Monad.return (case r of Inl e \<Rightarrow> Inl (g e) | Inr x \<Rightarrow> Inr (h x)))) E Q"
  by (auto simp: judged_def split: sum.splits prod.splits)

lemma judged_if: "(b \<Longrightarrow> judged P m E Q) \<Longrightarrow> (\<not> b \<Longrightarrow> judged P n E Q) \<Longrightarrow> judged P (if b then m else n) E Q"
  by simp

text \<open>A list of statements that are all accepted leads to one file, through files that all satisfy \<open>E\<close>.\<close>

fun apply_all :: "unit ddl list \<Rightarrow> database \<Rightarrow> database option" where
  "apply_all [] d = Some d"
| "apply_all (f # fs) d = (case f d of Inl _ \<Rightarrow> None | Inr (_, d') \<Rightarrow> apply_all fs d')"

lemma judged_exec_all:
  assumes "\<And>f d d'. f \<in> set fs \<Longrightarrow> E d \<Longrightarrow> f d = Inr ((), d') \<Longrightarrow> E d'"
  shows "judged (\<lambda>d. E d \<and> apply_all fs d = Some d2) (exec_all fs) E (\<lambda>_ d. d = d2)"
  using assms
proof (induction fs)
  case (Cons f fs)
  have "judged (\<lambda>d. E d \<and> apply_all (f # fs) d = Some d2) (exec f) E (\<lambda>_ d. E d \<and> apply_all fs d = Some d2)"
    using Cons.prems by (intro judged_exec) (fastforce split: sum.splits)
  then show ?case unfolding exec_all.simps by (rule judged_bind) (rule Cons.IH, use Cons.prems in auto)
qed (auto intro: judged_return)

section \<open>Each step\<close>

lemma rows_of_simps [simp]: "rows_of None = []" "rows_of (Some rs) = rs"
  by (simp_all add: rows_of_def)

lemma rows_make [simp]: "rows_of (make_table t) = rows_of t" "make_table t \<noteq> None"
  by (simp_all add: rows_of_def make_table_def split: option.splits)

lemma carries_flag [simp]: "carries d0 (d\<lparr>foreign_keys := b\<rparr>) = carries d0 d" "carries d0 (d\<lparr>f_keys_old := x\<rparr>) = carries d0 d"
  by (simp_all add: carries_def file_ok_def legacy_clear_def owned_keys_def column_def)

lemma raw_key_mono: "raw_key_ok accs c r \<Longrightarrow> set accs \<subseteq> set accs' \<Longrightarrow> raw_key_ok accs' c r"
  by (auto simp: raw_key_ok_def split: option.splits)

lemma key_table_mono: "key_table_ok accs k \<Longrightarrow> set accs \<subseteq> set accs' \<Longrightarrow> key_table_ok accs' k"
  by (auto simp: key_table_ok_def list_all_iff intro: raw_key_mono)

lemma raw_key_account:
  "raw_key_ok accs Absent r \<Longrightarrow> r_account_id r = None"
  "raw_key_ok accs c r \<Longrightarrow> r_account_id r = Some a \<Longrightarrow> a \<in> ac_id ` set accs"
  by (simp_all add: raw_key_ok_def split: option.splits)

lemma carries_make [simp]:
  "carries d0 (d\<lparr>f_accounts := make_table (f_accounts d)\<rparr>) = carries d0 d"
  "carries d0 (d\<lparr>f_operators := make_table (f_operators d)\<rparr>) = carries d0 d"
  "carries d0 (d\<lparr>f_sessions := make_table (f_sessions d)\<rparr>) = carries d0 d"
  "carries d0 (d\<lparr>f_audit_log := make_table (f_audit_log d)\<rparr>) = carries d0 d"
  "carries d0 (d\<lparr>f_components := make_table (f_components d)\<rparr>) = carries d0 d"
  by (simp_all add: carries_def file_ok_def legacy_clear_def owned_keys_def column_def)

lemma carries_make_keys [simp]:
  "carries d0 d \<Longrightarrow> carries d0 (d\<lparr>f_keys := (case f_keys d of None \<Rightarrow> Some \<lparr>kt_account_id = Not_Null, kt_rows = []\<rparr> | Some k \<Rightarrow> Some k)\<rparr>)"
  unfolding carries_def by (cases "f_keys d") (auto simp: file_ok_def legacy_clear_def owned_keys_def key_table_ok_def column_def)

lemma carries_schema:
  assumes "f \<in> set schema_stmts" "carries d0 d" "f d = Inr ((), d')"
  shows "carries d0 d'"
  using assms
  by (auto simp: schema_stmts_def create_accounts_def create_operators_def create_sessions_def create_audit_log_def create_components_def
      create_keys_def unique_email_index_def no_effect_def split: if_splits)

lemma carries_distinct: "carries d0 d \<Longrightarrow> distinct (map ac_email (rows_of (f_accounts d)))"
  by (simp add: carries_def file_ok_def accounts_ok_def)

text \<open>The schema string is always accepted and completes the tables.\<close>

lemma schema_accepted:
  assumes "carries d0 d"
  shows "\<exists>d2. apply_all schema_stmts d = Some d2 \<and> carries d0 d2 \<and> complete d2 \<and> foreign_keys d2 = foreign_keys d \<and> f_keys d2 \<noteq> None"
proof -
  define d2 where "d2 = d\<lparr>f_accounts := make_table (f_accounts d), f_operators := make_table (f_operators d), f_sessions := make_table (f_sessions d),
    f_audit_log := make_table (f_audit_log d), f_components := make_table (f_components d),
    f_keys := (case f_keys d of None \<Rightarrow> Some \<lparr>kt_account_id = Not_Null, kt_rows = []\<rparr> | Some k \<Rightarrow> Some k)\<rparr>"
  have "apply_all schema_stmts d = Some d2"
    using carries_distinct[OF assms]
    by (simp add: schema_stmts_def create_accounts_def create_operators_def create_sessions_def create_audit_log_def create_components_def
        create_keys_def unique_email_index_def no_effect_def d2_def)
  moreover have "complete d2" "foreign_keys d2 = foreign_keys d" "f_keys d2 \<noteq> None"
    by (simp_all add: d2_def complete_def make_table_def split: option.splits)
  ultimately have d2: "apply_all schema_stmts d = Some d2" "complete d2" "foreign_keys d2 = foreign_keys d" "f_keys d2 \<noteq> None" by auto
  have "apply_all fs d = Some d2 \<Longrightarrow> set fs \<subseteq> set schema_stmts \<Longrightarrow> carries d0 d \<Longrightarrow> carries d0 d2" for fs d
    by (induction fs arbitrary: d) (auto split: sum.splits intro: carries_schema)
  with d2 assms show ?thesis by blast
qed

abbreviation legacy_present :: "database \<Rightarrow> bool" where
  "legacy_present d \<equiv> legacy_ok (rows_of (f_accounts d))"

lemma legacy_account_check: "account_check (legacy_account t)"
  by (simp add: legacy_account_def account_check_def account_status_check_def email_check_def sql_lower_def ascii_lower_def sql_like_percent sql_like_email)

lemma seed_step:
  assumes "carries d0 d" "f_accounts d \<noteq> None"
  shows "\<exists>d2. insert_or_ignore_account (legacy_account t) d = Inr ((), d2) \<and> carries d0 d2 \<and> legacy_present d2 \<and>
    complete d2 = complete d \<and> foreign_keys d2 = foreign_keys d \<and> f_keys d2 = f_keys d"
proof -
  obtain rs where rs: "f_accounts d = Some rs" using assms(2) by blast
  show ?thesis
  proof (cases "legacyAccountID \<in> ac_id ` set rs")
    case True
    then have "insert_or_ignore_account (legacy_account t) d = Inr ((), d)"
      using rs by (simp add: insert_or_ignore_account_def legacy_account_def)
    moreover have "legacy_present d"
    proof -
      have "legacy_clear d" using assms(1) by (simp add: carries_def)
      moreover obtain r where "r \<in> set rs" "ac_id r = legacyAccountID" using True by force
      ultimately show ?thesis using rs by (auto simp: legacy_clear_def list_all_iff legacy_ok_def list_ex_iff)
    qed
    ultimately show ?thesis using assms by simp
  next
    case False
    then have new: "ac_id (legacy_account t) \<notin> ac_id ` set rs" by (simp add: legacy_account_def)
    moreover have mail: "ac_email (legacy_account t) \<notin> ac_email ` set rs"
    proof -
      have "legacy_clear d" using assms(1) by (simp add: carries_def)
      with rs False show ?thesis by (force simp: legacy_clear_def list_all_iff legacy_account_def split: if_splits)
    qed
    ultimately have step: "insert_or_ignore_account (legacy_account t) d = Inr ((), d\<lparr>f_accounts := Some (rs @ [legacy_account t])\<rparr>)"
      using rs legacy_account_check by (simp add: insert_or_ignore_account_def)
    have "rs = rows_of (f_accounts d0)"
      using assms(1) rs False by (auto simp: carries_def legacy_account_def)
    moreover have "file_ok (d\<lparr>f_accounts := Some (rs @ [legacy_account t])\<rparr>)"
      using assms(1) rs new mail legacy_account_check[of t] unfolding carries_def
      by (cases "f_keys d") (auto simp: file_ok_def accounts_ok_def intro: key_table_mono)
    moreover have "legacy_clear (d\<lparr>f_accounts := Some (rs @ [legacy_account t])\<rparr>)"
      using assms(1) rs by (simp add: carries_def legacy_clear_def legacy_account_def)
    ultimately have "carries d0 (d\<lparr>f_accounts := Some (rs @ [legacy_account t])\<rparr>)"
      using assms(1) unfolding carries_def by (auto simp: owned_keys_def column_def)
    with step rs show ?thesis
      by (auto simp: legacy_ok_def legacy_account_def complete_def)
  qed
qed

definition unowned :: "database \<Rightarrow> bool" where
  "unowned d \<longleftrightarrow> (case f_keys d of None \<Rightarrow> False | Some k \<Rightarrow> list_ex (\<lambda>r. r_account_id r = None) (kt_rows k))"

text \<open>Where the migration starts and what its steps keep.\<close>

definition seeded :: "database \<Rightarrow> database \<Rightarrow> bool" where
  "seeded d0 d \<longleftrightarrow> carries d0 d \<and> complete d \<and> f_keys d \<noteq> None \<and> legacy_present d"

lemma seeded_flag [simp]: "seeded d0 (d\<lparr>foreign_keys := b\<rparr>) = seeded d0 d" "column (d\<lparr>foreign_keys := b\<rparr>) = column d"
    "unowned (d\<lparr>foreign_keys := b\<rparr>) = unowned d"
  by (simp_all add: seeded_def complete_def column_def unowned_def)

lemma owned_key_legacy [simp]: "owned_key (to_legacy r) = owned_key r" "r_id (to_legacy r) = r_id r" "r_active (to_legacy r) = r_active r"
    "r_usage_count (to_legacy r) = r_usage_count r" "r_account_id (to_legacy r) \<noteq> None"
  by (auto simp: to_legacy_def owned_key_def)

lemma raw_key_legacy:
  "raw_key_ok accs c r \<Longrightarrow> c \<noteq> Absent \<Longrightarrow> legacyAccountID \<in> ac_id ` set accs \<Longrightarrow> raw_key_ok accs c (to_legacy r)"
  by (simp add: raw_key_ok_def) (simp add: to_legacy_def split: option.splits)

text \<open>A new key table with the same keys keeps what the file carries.\<close>

lemma carries_keys:
  assumes "carries d0 d" "f_keys d = Some k" "map owned_key (kt_rows k') = map owned_key (kt_rows k)"
    and "key_table_ok (rows_of (f_accounts d)) k'" "kt_account_id k \<le> kt_account_id k'"
  shows "carries d0 (d\<lparr>f_keys := Some k'\<rparr>)"
  using assms unfolding carries_def by (auto simp: file_ok_def legacy_clear_def owned_keys_def column_def)

lemma seeded_keys:
  assumes "seeded d0 d" "f_keys d = Some k" "map owned_key (kt_rows k') = map owned_key (kt_rows k)"
    and "key_table_ok (rows_of (f_accounts d)) k'" "kt_account_id k \<le> kt_account_id k'"
  shows "seeded d0 (d\<lparr>f_keys := Some k'\<rparr>)"
  using assms carries_keys[of d0 d k k'] by (simp add: seeded_def complete_def)

lemma seeded_key_table: "seeded d0 d \<Longrightarrow> f_keys d = Some k \<Longrightarrow> key_table_ok (rows_of (f_accounts d)) k"
  by (simp add: seeded_def carries_def file_ok_def)

lemma add_column_step:
  assumes "seeded d0 d" "column d = Absent"
  shows "\<exists>d2. add_account_column d = Inr ((), d2) \<and> seeded d0 d2 \<and> column d2 = Nullable \<and> foreign_keys d2 = foreign_keys d"
proof -
  obtain k where k: "f_keys d = Some k" "kt_account_id k = Absent"
    using assms by (auto simp: seeded_def column_def split: option.splits)
  let ?k = "\<lparr>kt_account_id = Nullable, kt_rows = map (\<lambda>r. r\<lparr>r_account_id := None\<rparr>) (kt_rows k)\<rparr>"
  note ok = seeded_key_table[OF assms(1) k(1)]
  have none: "r_account_id r = None" if "r \<in> set (kt_rows k)" for r
    using ok k that by (auto simp: key_table_ok_def list_all_iff intro: raw_key_account(1))
  then have "map owned_key (kt_rows ?k) = map owned_key (kt_rows k)" by (simp add: owned_key_def)
  moreover have "key_table_ok (rows_of (f_accounts d)) ?k"
    using ok by (auto simp: key_table_ok_def raw_key_ok_def list_all_iff comp_def)
  ultimately have "seeded d0 (d\<lparr>f_keys := Some ?k\<rparr>)" by (intro seeded_keys[OF assms(1) k(1)]) (simp_all add: k(2))
  with k show ?thesis by (simp add: add_account_column_def column_def)
qed

lemma backfill_step:
  assumes "seeded d0 d" "column d \<noteq> Absent"
  shows "\<exists>d2. backfill d = Inr ((), d2) \<and> seeded d0 d2 \<and> column d2 = column d \<and> \<not> unowned d2 \<and> foreign_keys d2 = foreign_keys d"
proof -
  obtain k where k: "f_keys d = Some k" "kt_account_id k \<noteq> Absent"
    using assms by (auto simp: seeded_def column_def split: option.splits)
  let ?k = "k\<lparr>kt_rows := map to_legacy (kt_rows k)\<rparr>"
  note ok = seeded_key_table[OF assms(1) k(1)]
  have leg: "legacyAccountID \<in> ac_id ` set (rows_of (f_accounts d))"
    using assms(1) by (force simp: seeded_def legacy_ok_def list_ex_iff)
  have "key_table_ok (rows_of (f_accounts d)) ?k"
    using ok leg k(2) by (auto simp: key_table_ok_def list_all_iff comp_def intro: raw_key_legacy)
  then have "seeded d0 (d\<lparr>f_keys := Some ?k\<rparr>)" by (intro seeded_keys[OF assms(1) k(1)]) simp_all
  moreover have "\<not> unowned (d\<lparr>f_keys := Some ?k\<rparr>)" by (auto simp: unowned_def list_ex_iff)
  ultimately show ?thesis using k leg by (simp add: backfill_def column_def)
qed

text \<open>The statements of the rebuild are all accepted and change nothing but the constraint.\<close>

lemma rebuild_accepted:
  assumes "seeded d0 d" "column d \<noteq> Absent" "\<not> unowned d" "\<not> foreign_keys d"
  shows "\<exists>d2. apply_all rebuild_stmts d = Some d2 \<and> seeded d0 d2 \<and> column d2 = Not_Null"
proof -
  obtain k where k: "f_keys d = Some k" "kt_account_id k \<noteq> Absent" "\<not> list_ex (\<lambda>r. r_account_id r = None) (kt_rows k)"
    using assms by (auto simp: seeded_def column_def unowned_def split: option.splits)
  let ?k = "\<lparr>kt_account_id = Not_Null, kt_rows = kt_rows k\<rparr>"
  note ok = seeded_key_table[OF assms(1) k(1)]
  have "key_table_ok (rows_of (f_accounts d)) ?k"
    using ok k(2,3) by (fastforce simp: key_table_ok_def raw_key_ok_def list_all_iff list_ex_iff split: option.splits)
  then have "seeded d0 (d\<lparr>f_keys := Some ?k\<rparr>)" by (intro seeded_keys[OF assms(1) k(1)]) simp_all
  then have "seeded d0 (d\<lparr>f_keys := Some ?k, f_keys_old := None\<rparr>)" by (simp add: seeded_def complete_def)
  moreover have "distinct (map r_id (kt_rows k))" using ok by (simp add: key_table_ok_def)
  then have "apply_all rebuild_stmts d = Some (d\<lparr>f_keys := Some ?k, f_keys_old := None\<rparr>)"
    using k assms(4) by (simp add: rebuild_stmts_def drop_old_def rename_keys_def create_new_keys_def copy_keys_def no_effect_def)
  ultimately show ?thesis by (simp add: column_def)
qed

lemma no_violation:
  assumes "seeded d0 d"
  shows "foreign_key_check d = Inr (False, d)"
proof -
  have "sessions_ok (rows_of (f_operators d)) (rows_of (f_sessions d))" "pred_option (key_table_ok (rows_of (f_accounts d))) (f_keys d)"
    using assms unfolding seeded_def carries_def file_ok_def by blast+
  then show ?thesis
    by (cases "f_keys d") (auto simp: foreign_key_check_def sessions_ok_def key_table_ok_def list_all_iff list_ex_iff
        dest: raw_key_account(2) split: option.splits)
qed

section \<open>The programs\<close>

lemma seeded_carries: "seeded d0 d \<Longrightarrow> carries d0 d"
  by (simp add: seeded_def)

lemma judged_no_effect: "(\<And>d. P d \<Longrightarrow> E d) \<Longrightarrow> judged P (exec no_effect) E (\<lambda>_. P)"
  by (rule judged_exec) (auto simp: no_effect_def)

lemma judged_set_fk: "(\<And>d. P d \<Longrightarrow> E d) \<Longrightarrow> (\<And>d. P d \<Longrightarrow> Q (d\<lparr>foreign_keys := b\<rparr>)) \<Longrightarrow> judged P (exec (set_foreign_keys b)) E (\<lambda>_. Q)"
  by (rule judged_exec) (auto simp: set_foreign_keys_def)

definition ready :: "database \<Rightarrow> database \<Rightarrow> bool" where
  "ready d0 d \<longleftrightarrow> seeded d0 d \<and> column d \<noteq> Absent \<and> \<not> unowned d"

text \<open>The transaction: an error restores the file.\<close>

lemma judged_rebuild_tx:
  "judged (\<lambda>d. ready d0 d \<and> \<not> foreign_keys d) rebuild_tx (carries d0) (\<lambda>_ d. seeded d0 d \<and> column d = Not_Null)"
proof (rule judgedI)
  fix s :: "'a migrating_scheme" and r s'
  assume P: "ready d0 (disk s) \<and> \<not> foreign_keys (disk s)" and run: "run_state rebuild_tx s = (r, s')"
  then obtain d2 where d2: "apply_all rebuild_stmts (disk s) = Some d2" "seeded d0 d2" "column d2 = Not_Null"
    using rebuild_accepted[of d0 "disk s"] by (auto simp: ready_def)
  have car: "carries d0 (disk s)" using P by (simp add: ready_def seeded_def)
  define s1 where "s1 = s\<lparr>stmts := Suc (stmts s)\<rparr>"
  obtain x s2 where x: "run_state (exec_all rebuild_stmts) s1 = (x, s2)" by fastforce
  have all: "judged (\<lambda>d. True \<and> apply_all rebuild_stmts d = Some d2) (exec_all rebuild_stmts) (\<lambda>_. True) (\<lambda>_ d. d = d2)"
    by (rule judged_exec_all) simp
  note j = judgedD[OF all _ x, unfolded s1_def, simplified, OF d2(1)]
  show "fault s' = fault s \<and> (case r of Inl e \<Rightarrow> carries d0 (disk s') \<and> faulty (fault s) | Inr x \<Rightarrow> seeded d0 (disk s') \<and> column (disk s') = Not_Null)"
    using run x j car d2(2,3)
    by (auto simp: rebuild_tx_def exec_def no_effect_def set_file_def Let_def s1_def run_simps
        intro: faultyI split: option.splits sum.splits)
qed

lemma judged_rebuild_body:
  "judged (\<lambda>d. ready d0 d \<and> \<not> foreign_keys d) rebuild_body (carries d0) (\<lambda>_ d. seeded d0 d \<and> column d = Not_Null)"
proof -
  let ?Q = "\<lambda>d. seeded d0 d \<and> column d = Not_Null"
  have chk: "judged ?Q (exec foreign_key_check) (carries d0) (\<lambda>v d. v = False \<and> ?Q d)"
    by (rule judged_exec) (auto simp: no_violation seeded_carries)
  have "judged ?Q (exec foreign_key_check \<bind> (\<lambda>v. State_Monad.return (case v of
           Inl e \<Rightarrow> Inl (Wrapf ''foreign_key_check'' e)
         | Inr violated \<Rightarrow> if violated then Inl (Errorf (''rebuild subscription_key: foreign_key_check reported violations after rebuild '' @
               [CHR 0xE2, CHR 0x80, CHR 0x94] @ '' refusing to re-enable FK enforcement'')) else Inr ()))) (carries d0) (\<lambda>_. ?Q)"
    using chk unfolding judged_def by (fastforce split: sum.splits prod.splits)
  then show ?thesis unfolding rebuild_body_def by (intro judged_bind[OF judged_rebuild_tx])
qed

lemma judged_rebuild:
  "judged (ready d0) rebuildSubscriptionKeyNotNull (carries d0) (\<lambda>_ d. seeded d0 d \<and> column d = Not_Null \<and> foreign_keys d)"
proof -
  define m :: "('a migrating_scheme, goerr + unit) state" where "m = do {
     r \<leftarrow> rebuild_body;
     on \<leftarrow> exec (set_foreign_keys True);
     State_Monad.return (case (on, r) of (Inl e, Inr _) \<Rightarrow> Inl (Wrapf ''re-enable fk'' e) | _ \<Rightarrow> r) }"
  have "judged (\<lambda>d. ready d0 d \<and> \<not> foreign_keys d) m (carries d0) (\<lambda>_ d. seeded d0 d \<and> column d = Not_Null \<and> foreign_keys d)"
  proof (rule judgedI)
    fix s :: "'a migrating_scheme" and r s'
    assume P: "ready d0 (disk s) \<and> \<not> foreign_keys (disk s)" and run: "run_state m s = (r, s')"
    obtain x s1 where x: "run_state rebuild_body s = (x, s1)" by fastforce
    note j = judgedD[OF judged_rebuild_body P x]
    show "fault s' = fault s \<and> (case r of Inl e \<Rightarrow> carries d0 (disk s') \<and> faulty (fault s)
        | Inr x \<Rightarrow> seeded d0 (disk s') \<and> column (disk s') = Not_Null \<and> foreign_keys (disk s'))"
      using run x j by (cases x) (auto simp: m_def exec_def set_foreign_keys_def Let_def seeded_carries
          intro: faultyI split: option.splits)
  qed
  then have "judged (ready d0) (exec (set_foreign_keys False) \<bind>
      (\<lambda>off. case off of Inl e \<Rightarrow> State_Monad.return (Inl (Wrapf ''disable fk'' e)) | Inr _ \<Rightarrow> m))
      (carries d0) (\<lambda>_ d. seeded d0 d \<and> column d = Not_Null \<and> foreign_keys d)"
    by (intro judged_bind[OF judged_set_fk]) (auto simp: ready_def seeded_carries)
  then show ?thesis unfolding rebuildSubscriptionKeyNotNull_def m_def
    by (intro judged_bind[OF judged_no_effect]) (auto simp: ready_def seeded_carries)
qed

lemma find_account_column_info:
  "find_account_column (key_columns c) = (c \<noteq> Absent, c = Not_Null)"
  by (cases c) (simp_all add: key_columns_def)

abbreviation attached :: "database \<Rightarrow> database \<Rightarrow> bool" where
  "attached d0 d \<equiv> seeded d0 d \<and> foreign_keys d"

lemma judged_column:
  "judged (attached d0) subscriptionKeyAccountIDColumn (carries d0)
     (\<lambda>c d. attached d0 d \<and> c = (column d \<noteq> Absent, column d = Not_Null))"
  unfolding subscriptionKeyAccountIDColumn_def
proof (rule judged_map, rule judged_exec)
  fix d
  assume "attached d0 d"
  then show "carries d0 d \<and> (\<exists>rows d'. table_info d = Inr (rows, d') \<and> attached d0 d' \<and>
      find_account_column rows = (column d' \<noteq> Absent, column d' = Not_Null))"
    by (auto simp: seeded_def table_info_def column_def find_account_column_info)
qed

lemma judged_migrate:
  "judged (attached d0) migrateSubscriptionKeyAccountID (carries d0) (\<lambda>_ d. attached d0 d \<and> column d = Not_Null)"
proof -
  let ?A = "\<lambda>c d. attached d0 d \<and> c = (column d \<noteq> Absent, column d = Not_Null)"
  let ?B = "\<lambda>n d. attached d0 d \<and> column d \<noteq> Absent \<and> n = (column d = Not_Null)"
  have add: "judged (?A (e, n)) (if \<not> e then exec add_account_column else State_Monad.return (Inr ())) (carries d0) (\<lambda>_. ?B n)" for e n
    using add_column_step[of d0] by (cases e) (fastforce intro!: judged_exec judged_return simp: seeded_carries)+
  have fill: "judged (?B n) (exec backfill) (carries d0) (\<lambda>_ d. ?B n d \<and> \<not> unowned d)" for n
    using backfill_step[of d0] by (intro judged_exec) (fastforce simp: seeded_carries)
  have fin: "judged (\<lambda>d. ?B n d \<and> \<not> unowned d) (if \<not> e \<or> \<not> n then rebuildSubscriptionKeyNotNull else State_Monad.return (Inr ()))
      (carries d0) (\<lambda>_ d. attached d0 d \<and> column d = Not_Null)" for e n
  proof (rule judged_if)
    show "judged (\<lambda>d. ?B n d \<and> \<not> unowned d) rebuildSubscriptionKeyNotNull (carries d0) (\<lambda>_ d. attached d0 d \<and> column d = Not_Null)"
      using judged_rebuild[of d0] unfolding judged_def ready_def by (auto split: sum.splits)
    show "\<not> (\<not> e \<or> \<not> n) \<Longrightarrow> judged (\<lambda>d. ?B n d \<and> \<not> unowned d) (State_Monad.return (Inr ())) (carries d0) (\<lambda>_ d. attached d0 d \<and> column d = Not_Null)"
      by (auto intro: judged_return)
  qed
  show ?thesis
    unfolding migrateSubscriptionKeyAccountID_def
  proof (rule judged_bind[OF judged_column, where g = "\<lambda>e. e"])
    fix c :: "bool \<times> bool"
    obtain e n where c: "c = (e, n)" by fastforce
    show "judged (?A c) (case c of (colExists, colNotNull) \<Rightarrow> do {
         a \<leftarrow> (if \<not> colExists then exec add_account_column else State_Monad.return (Inr ()));
         case a of
           Inl e \<Rightarrow> State_Monad.return (Inl (Wrapf ''add account_id column'' e))
         | Inr _ \<Rightarrow> do {
             i \<leftarrow> exec no_effect;
             case i of
               Inl e \<Rightarrow> State_Monad.return (Inl (Wrapf ''create account_id index'' e))
             | Inr _ \<Rightarrow> do {
                 b \<leftarrow> exec backfill;
                 case b of
                   Inl e \<Rightarrow> State_Monad.return (Inl (Wrapf ''backfill legacy account'' e))
                 | Inr _ \<Rightarrow> if \<not> colExists \<or> \<not> colNotNull then rebuildSubscriptionKeyNotNull
                     else State_Monad.return (Inr ()) } } }) (carries d0) (\<lambda>_ d. attached d0 d \<and> column d = Not_Null)"
      unfolding c prod.case
      by (rule judged_bind[OF add], rule judged_bind[OF judged_no_effect], simp add: seeded_carries, rule judged_bind[OF fill], rule fin)
  qed
qed

lemma judged_pragmas:
  "judged (carries d0) (exec_pragmas pragmas) (carries d0) (\<lambda>_ d. carries d0 d \<and> foreign_keys d)"
  unfolding pragmas_def exec_pragmas.simps
  by (intro judged_bind[OF judged_no_effect] judged_bind[OF judged_set_fk] judged_return) auto

lemma judged_schema:
  "judged (\<lambda>d. carries d0 d \<and> foreign_keys d) (exec_all schema_stmts) (carries d0)
     (\<lambda>_ d. carries d0 d \<and> complete d \<and> foreign_keys d \<and> f_keys d \<noteq> None)"
proof (rule judgedI)
  fix s :: "'a migrating_scheme" and r s'
  assume P: "carries d0 (disk s) \<and> foreign_keys (disk s)" and run: "run_state (exec_all schema_stmts) s = (r, s')"
  obtain d2 where d2: "apply_all schema_stmts (disk s) = Some d2" "carries d0 d2" "complete d2" "foreign_keys d2" "f_keys d2 \<noteq> None"
    using schema_accepted[of d0 "disk s"] P by auto
  have "judged (\<lambda>d. carries d0 d \<and> apply_all schema_stmts d = Some d2) (exec_all schema_stmts) (carries d0) (\<lambda>_ d. d = d2)"
    by (rule judged_exec_all) (rule carries_schema)
  note j = judgedD[OF this _ run]
  from P d2 j show "fault s' = fault s \<and> (case r of Inl e \<Rightarrow> carries d0 (disk s') \<and> faulty (fault s)
      | Inr x \<Rightarrow> carries d0 (disk s') \<and> complete (disk s') \<and> foreign_keys (disk s') \<and> f_keys (disk s') \<noteq> None)"
    by (auto split: sum.splits)
qed

lemma judged_seed:
  "judged (\<lambda>d. carries d0 d \<and> complete d \<and> foreign_keys d \<and> f_keys d \<noteq> None) seedLegacyAccount (carries d0) (\<lambda>_. attached d0)"
proof (rule judgedI)
  fix s :: "'a migrating_scheme" and r s'
  assume P: "carries d0 (disk s) \<and> complete (disk s) \<and> foreign_keys (disk s) \<and> f_keys (disk s) \<noteq> None"
    and run: "run_state seedLegacyAccount s = (r, s')"
  obtain d2 where d2: "insert_or_ignore_account (legacy_account (clock s (clock_reads s))) (disk s) = Inr ((), d2)" "carries d0 d2"
    "legacy_present d2" "complete d2" "foreign_keys d2" "f_keys d2 \<noteq> None"
  proof -
    have "f_accounts (disk s) \<noteq> None" using P by (simp add: complete_def)
    from seed_step[OF conjunct1[OF P] this, of "clock s (clock_reads s)"] P that show ?thesis by auto
  qed
  with P run show "fault s' = fault s \<and> (case r of Inl e \<Rightarrow> carries d0 (disk s') \<and> faulty (fault s) | Inr x \<Rightarrow> attached d0 (disk s'))"
    by (auto simp: seedLegacyAccount_def exec_def seeded_def Let_def run_simps intro: faultyI split: option.splits)
qed

lemma judged_NewSQLiteStore:
  "judged (carries d0) NewSQLiteStore (carries d0) (\<lambda>_ d. attached d0 d \<and> column d = Not_Null)"
  unfolding NewSQLiteStore_def
  by (intro judged_bind[OF judged_set_fk[where Q = "carries d0"]] judged_bind[OF judged_pragmas, where g = "\<lambda>e. e"] judged_bind[OF judged_schema]
      judged_bind[OF judged_seed, where g = "\<lambda>e. e"] judged_migrate) auto

section \<open>Openings\<close>

text \<open>Any number of openings, successful or not, one after the other.\<close>

inductive reopened :: "'z migrating_scheme \<Rightarrow> 'z migrating_scheme \<Rightarrow> bool" where
  reopened_none: "reopened s s"
| reopened_step: "reopened s s1 \<Longrightarrow> run_state NewSQLiteStore s1 = (r, s2) \<Longrightarrow> reopened s s2"

lemma carries_refl: "file_ok d \<Longrightarrow> legacy_clear d \<Longrightarrow> carries d d"
  by (simp add: carries_def)

lemma reopened_carries: "reopened s s' \<Longrightarrow> file_ok (disk s) \<Longrightarrow> legacy_clear (disk s) \<Longrightarrow> carries (disk s) (disk s') \<and> fault s' = fault s"
proof (induction rule: reopened.induct)
  case (reopened_step s s1 r s2)
  then have c: "carries (disk s) (disk s1)" "fault s1 = fault s" by auto
  from judgedD[OF judged_NewSQLiteStore c(1) reopened_step(2)] c(2) show ?case
    by (cases r) (auto simp: seeded_carries)
qed (simp add: carries_refl)

lemma owned_ids: "map (k_id \<circ> owned_key) rs = map r_id rs"
  by (simp add: owned_key_def)

lemma opened_tables:
  assumes "attached d0 d" "column d = Not_Null"
  shows "opened d \<and> tables_ok (loaded d)"
proof -
  obtain k where k: "f_keys d = Some k" "kt_account_id k = Not_Null"
    using assms by (auto simp: seeded_def column_def split: option.splits)
  note ok = seeded_key_table[OF conjunct1[OF assms(1)] k(1)]
  have "k_account_id (owned_key r) \<in> ac_id ` set (rows_of (f_accounts d)) \<and> key_ok (owned_key r)" if "r \<in> set (kt_rows k)" for r
    using ok k(2) that by (auto simp: key_table_ok_def raw_key_ok_def list_all_iff owned_key_def key_ok_def split: option.splits)
  then have "keys_ok (rows_of (f_accounts d)) (owned_keys d)"
    using ok k(1) by (simp add: keys_ok_def owned_keys_def list_all_iff key_table_ok_def owned_ids)
  moreover have "file_ok d" "legacy_present d" "complete d" "foreign_keys d"
    using assms(1) by (simp_all add: seeded_def carries_def)
  ultimately show ?thesis using k by (simp add: opened_def tables_ok_def loaded_def file_ok_def)
qed


lemma opened_file_ok:
  assumes "opened d" "tables_ok (loaded d)" "list_all (\<lambda>r. r_account_id r \<noteq> None) (kt_rows (the (f_keys d)))"
  shows "file_ok d"
proof -
  obtain k where k: "f_keys d = Some k" "kt_account_id k = Not_Null" using assms(1) by (auto simp: opened_def)
  have t: "keys_ok (rows_of (f_accounts d)) (map owned_key (kt_rows k))" using assms(2) k by (simp add: tables_ok_def loaded_def owned_keys_def)
  have "raw_key_ok (rows_of (f_accounts d)) Not_Null r" if r: "r \<in> set (kt_rows k)" for r
  proof -
    obtain a where "r_account_id r = Some a" using assms(3) k r by (auto simp: list_all_iff)
    with t r show ?thesis by (auto simp: keys_ok_def raw_key_ok_def list_all_iff owned_key_def key_ok_def)
  qed
  then have "key_table_ok (rows_of (f_accounts d)) k"
    using t k by (simp add: key_table_ok_def list_all_iff keys_ok_def owned_ids)
  with assms(2) k show ?thesis by (simp add: file_ok_def tables_ok_def loaded_def)
qed

text \<open>
  C37: A restart is invisible: opening a file that a former opening completed, in any state the service left it in with the
  legacy account still its own, leaves every table as it was, also when the opening fails.
\<close>

theorem restart_changes_nothing:
  assumes "opened (disk s)" "tables_ok (loaded (disk s))" "list_all (\<lambda>r. r_account_id r \<noteq> None) (kt_rows (the (f_keys (disk s))))"
    and "legacy_clear (disk s)" "run_state NewSQLiteStore s = (r, s')"
  shows "loaded (disk s') = loaded (disk s)"
proof -
  have ok: "file_ok (disk s)" by (rule opened_file_ok[OF assms(1-3)])
  have car: "carries (disk s) (disk s')"
    using reopened_carries[OF reopened_step[OF reopened_none assms(5)] ok assms(4)] by simp
  have "legacy_present (disk s)" using assms(2) by (simp add: tables_ok_def loaded_def)
  then have "legacyAccountID \<in> ac_id ` set (rows_of (f_accounts (disk s)))" by (force simp: legacy_ok_def list_ex_iff)
  moreover have "distinct (map ac_id (rows_of (f_accounts (disk s'))))" using car by (simp add: carries_def file_ok_def accounts_ok_def)
  ultimately have "rows_of (f_accounts (disk s')) = rows_of (f_accounts (disk s))"
    using car by (auto simp: carries_def legacy_account_def)
  with car show ?thesis by (simp add: loaded_def carries_def)
qed

section \<open>Instances\<close>

text \<open>A file from before the account aggregate, with two keys, and a schedule on which the commit of the rebuild fails once.\<close>

definition sample_raw_key :: "string \<Rightarrow> raw_key" where
  "sample_raw_key i = \<lparr>r_id = i, r_component = ''core'', r_label = ''old'', r_active = 1, r_created_at = 1600000000, r_expires_at = None,
     r_usage_count = 3, r_account_id = None\<rparr>"

definition sample_file :: database where
  "sample_file = \<lparr>foreign_keys = False, f_accounts = None, f_operators = None, f_sessions = None, f_audit_log = None, f_audit_seq = 0,
     f_keys = Some \<lparr>kt_account_id = Absent, kt_rows = [sample_raw_key ''k1'', sample_raw_key ''k2'']\<rparr>, f_keys_old = None, f_components = None\<rparr>"

definition sample_migrating :: migrating where
  "sample_migrating = \<lparr>clock = (\<lambda>_. 1700000000 * Second), clock_reads = 0, entropy = (\<lambda>_ _. CHR ''0''), entropy_err = (\<lambda>_. None), draws = 0,
     fault = (\<lambda>n. if n = 33 then Some ''disk I/O error'' else None), stmts = 0, disk = sample_file\<rparr>"

lemma sample_file_ok: "file_ok (disk sample_migrating)" "legacy_clear (disk sample_migrating)"
  by (simp_all add: sample_migrating_def sample_file_def sample_raw_key_def file_ok_def legacy_clear_def accounts_ok_def operators_ok_def
      sessions_ok_def components_ok_def audit_ok_def key_table_ok_def raw_key_ok_def)

lemma sample_openings:
  "fst (run_state NewSQLiteStore sample_migrating) = Inl (Wrapf ''commit rebuild'' (SqlErr ''disk I/O error'')) \<and>
   fst (run_state NewSQLiteStore (snd (run_state NewSQLiteStore sample_migrating))) = Inr ()"
  by code_simp


text \<open>The foreign-key check belongs to the rebuild alone: the opening after one that reported violations does not repeat it.\<close>

definition dangling_migrating :: migrating where
  "dangling_migrating = sample_migrating\<lparr>fault := \<lambda>_. None, disk := sample_file\<lparr>f_operators := Some [],
     f_sessions := Some [\<lparr>se_id = ''s1'', se_operator_id = ''gone'', se_created_at = 0, se_last_seen_at = 0, se_expires_at = 0, se_ip = None, se_user_agent = None\<rparr>]\<rparr>\<rparr>"

lemma violation_reported_once:
  "isl (fst (run_state NewSQLiteStore dangling_migrating)) \<and>
   fst (run_state NewSQLiteStore (snd (run_state NewSQLiteStore dangling_migrating))) = Inr ()"
  by code_simp

theorem restart_changes_nothing_witness:
  "\<exists>s1 s2 r s3. run_state NewSQLiteStore sample_migrating = (Inl (Wrapf ''commit rebuild'' (SqlErr ''disk I/O error'')), s1) \<and>
     run_state NewSQLiteStore s1 = (Inr (), s2) \<and> run_state NewSQLiteStore s2 = (r, s3) \<and> loaded (disk s3) = loaded (disk s2)"
proof -
  obtain s1 s2 where runs: "run_state NewSQLiteStore sample_migrating = (Inl (Wrapf ''commit rebuild'' (SqlErr ''disk I/O error'')), s1)"
    "run_state NewSQLiteStore s1 = (Inr (), s2)" using sample_openings by (metis prod.collapse)
  have "carries (disk sample_migrating) (disk s1)"
    using reopened_carries[OF reopened_step[OF reopened_none runs(1)] sample_file_ok] by simp
  from judgedD(3)[OF judged_NewSQLiteStore this runs(2) refl]
  have a: "attached (disk sample_migrating) (disk s2)" "column (disk s2) = Not_Null" by auto
  then have "legacy_clear (disk s2)" by (simp add: seeded_def carries_def)
  moreover have "list_all (\<lambda>r. r_account_id r \<noteq> None) (kt_rows (the (f_keys (disk s2))))"
  proof -
    have "list_all (\<lambda>r. r_account_id r \<noteq> None)
      (kt_rows (the (f_keys (disk (snd (run_state NewSQLiteStore (snd (run_state NewSQLiteStore sample_migrating))))))))" by code_simp
    with runs show ?thesis by simp
  qed
  ultimately have "loaded (disk (snd (run_state NewSQLiteStore s2))) = loaded (disk s2)"
    using opened_tables[OF a] by (intro restart_changes_nothing[OF _ _ _ _ surjective_pairing]) auto
  with runs show ?thesis by (metis surjective_pairing)
qed

end
