(* ===== verification/Key_Lifecycle.thy ===== *)
theory Key_Lifecycle
  imports Keys_Handler Operators_Handler Login_Flow
begin

text \<open>
  What the admin API does to access through forward-auth: the status of an account governs its
  keys, an issued key opens its component, a deletion closes all keys of the account or changes
  nothing, and disabling an operator ends that operator's sessions.
\<close>

section \<open>Requests after an admin action\<close>

lemma fault_ops [keep_rules]:
  "keeps fault (GetAccount i)" "keeps fault (GetComponent c)" "keeps fault (UpdateAccount i upd)"
  "keeps fault (CreateKeyForAccount i c l ex)" "keeps fault (DeleteOperatorSessions i)"
  unfolding GetAccount_def GetComponent_def UpdateAccount_def CreateKeyForAccount_def generateKeyValue_def DeleteOperatorSessions_def Let_def
  by (auto intro!: keep_rules)

lemma keys_presented: "BasicAuth f = Some (u, pw) \<Longrightarrow> presents f pw' \<Longrightarrow> pw' = pw"
  by (simp add: presents_def)

text \<open>The decision on a private component depends on the presented key alone.\<close>

lemma served_private:
  assumes "db_ok s" "\<forall>n. fault s n = None" "reads f c" "c \<in> co_name ` set (components (db s))" "\<not> is_public (db s) c" "presents f pw"
  shows "Status (fst (run_state (ServeHTTP GetComponent f) s)) = 200 \<longleftrightarrow> entitled (db s) pw c"
proof -
  have c: "reads f c' \<Longrightarrow> c' = c" for c'
    using assms(3) by (simp add: reads_def)
  have pw: "presents f pw' \<Longrightarrow> pw' = pw" for pw'
    using assms(6) by (auto simp: presents_def)
  have "may_read (db s) f \<longleftrightarrow> entitled (db s) pw c"
  proof
    assume "may_read (db s) f"
    then obtain c' pw' where "reads f c'" "is_public (db s) c' \<or> presents f pw' \<and> entitled (db s) pw' c'"
      by (auto simp: may_read_def)
    with assms(5) c pw show "entitled (db s) pw c" by metis
  next
    assume "entitled (db s) pw c"
    with assms(3,4,6) show "may_read (db s) f" unfolding may_read_def by blast
  qed
  moreover have "Status (fst (run_state (ServeHTTP GetComponent f) s)) = 200 \<longleftrightarrow> may_read (db s) f"
  proof
    assume *: "Status (fst (run_state (ServeHTTP GetComponent f) s)) = 200"
    show "may_read (db s) f"
      using sqlite.ServeHTTP_200[OF surjective_pairing *] by (auto simp: may_read_def dest!: row_attests_component)
  next
    assume "may_read (db s) f"
    then show "Status (fst (run_state (ServeHTTP GetComponent f) s)) = 200"
      unfolding fst_ServeHTTP using assms(1,2) by (intro serve_complete) auto
  qed
  ultimately show ?thesis by simp
qed

section \<open>Suspension\<close>

lemma GetAccount_result:
  assumes "run_state (GetAccount i) s = (g, s')"
  shows "db s' = db s \<and> fault s' = fault s \<and> (case g of Inl _ \<Rightarrow> True
    | Inr a \<Rightarrow> \<exists>q. find (\<lambda>q. ac_id q = i) (accounts (db s)) = Some q \<and> ac_status q \<noteq> ''deleted'' \<and> a = scanAccount q)"
  using assms by (auto simp: run_GetAccount split: option.splits if_splits)

lemma UpdateAccount_result:
  assumes "run_state (UpdateAccount i upd) s = (c, s')"
  shows "case c of Inl _ \<Rightarrow> db s' = db s
    | Inr a \<Rightarrow> \<exists>q. find (\<lambda>q. ac_id q = i) (accounts (db s)) = Some q \<and>
        db s' = (db s)\<lparr>accounts := update_rows (\<lambda>q. ac_id q = i) (apply_account_update upd) (accounts (db s))\<rparr>"
  using assms
  by (auto simp: UpdateAccount_def run_sql_stmt update_account_def row_result_def split: option.splits sum.splits if_splits)

lemma account_update_refused: "Status (account_get_error e) \<noteq> 200" "Status (account_update_error e) \<noteq> 200"
  by (simp_all add: account_get_error_def account_update_error_def)

lemma status_change_refused: "status_change a st = Inl w \<Longrightarrow> Status w \<noteq> 200"
  by (auto simp: status_change_def split: option.splits if_splits)

lemma Accounts_Update_effect:
  assumes "run_state (Accounts_Update (Some req) r) s = (w, s')" "Status w = 200"
  shows "\<exists>target. target = uar_Status req \<and> (\<exists>q. find (\<lambda>q. ac_id q = URLParam r ''id'') (accounts (db s)) = Some q) \<and>
    unaudited_db s' = unaudited ((db s)\<lparr>accounts := update_rows (\<lambda>q. ac_id q = URLParam r ''id'')
      (apply_account_update \<lparr>Upd_Email = uar_Email req, Upd_OrgName = uar_OrgName req, Upd_Status = target\<rparr>) (accounts (db s))\<rparr>)"
proof -
  let ?i = "URLParam r ''id''"
  obtain opr where opr: "requireAdmin r = Inr opr"
    using assms by (cases "requireAdmin r") (auto simp: Accounts_Update_def requireAdmin_def split: option.splits if_splits)
  obtain g s1 where g: "run_state (GetAccount ?i) s = (g, s1)" by fastforce
  obtain a where a: "g = Inr a"
    using assms opr g account_update_refused by (cases g) (auto simp: Accounts_Update_def Let_def)
  obtain target action where t: "status_change a (uar_Status req) = Inr (target, action)"
    using assms opr g a status_change_refused by (cases "status_change a (uar_Status req)") (auto simp: Accounts_Update_def Let_def)
  then have target: "target = uar_Status req" by (auto simp: status_change_def split: option.splits if_splits)
  let ?upd = "\<lparr>Upd_Email = uar_Email req, Upd_OrgName = uar_OrgName req, Upd_Status = target\<rparr>"
  obtain c s2 where c: "run_state (UpdateAccount ?i ?upd) s1 = (c, s2)" by fastforce
  obtain b where b: "c = Inr b"
    using assms opr g a t c account_update_refused by (cases c) (auto simp: Accounts_Update_def Let_def)
  have "unaudited_db s' = unaudited_db s2"
    using assms opr g a t c b keepsD[OF unaudited_WriteFromRequest, of r "new_entry (AO_ID opr) action ''account'' (Acc_ID b) []" s2]
    by (auto simp: Accounts_Update_def Let_def split: prod.splits)
  with UpdateAccount_result[OF c] GetAccount_result[OF g] a b target show ?thesis by auto
qed

lemma access_unaudited:
  assumes "unaudited t = unaudited t'"
  shows "entitled t pw c = entitled t' pw c" "is_public t c = is_public t' c" "components t = components t'"
  using assms[THEN unaudited_eqD(1)] assms[THEN unaudited_eqD(4)] assms[THEN unaudited_eqD(5)]
  by (simp_all add: entitled_def is_public_def)

lemma entitled_key:
  assumes "tables_ok t" "k \<in> set (subscription_key t)"
  shows "entitled t (k_id k) c \<longleftrightarrow> k_active k = 1 \<and> k_component k = c \<and> readable k \<and>
    (\<exists>a \<in> set (accounts t). ac_id a = k_account_id k \<and> ac_status a = ''active'')"
proof -
  have "k' \<in> set (subscription_key t) \<Longrightarrow> k_id k' = k_id k \<Longrightarrow> k' = k" for k'
    using assms by (auto simp: tables_ok_def keys_ok_def intro: distinct_map_unique)
  with assms(2) show ?thesis unfolding entitled_def by blast
qed

lemma Accounts_Update_preserves:
  "preserves db_ok (Accounts_Update b r)" "keeps fault (Accounts_Update b r)"
  unfolding Accounts_Update_def by (intro pres_rules keep_rules keeps_preserves[OF GetAccount_keeps])+


section \<open>Issuing\<close>

lemma GetComponent_result:
  assumes "run_state (GetComponent n) s = (g, s')"
  shows "db s' = db s \<and> fault s' = fault s \<and> (case g of Inl _ \<Rightarrow> True | Inr _ \<Rightarrow> n \<in> co_name ` set (components (db s)))"
  using assms by (auto simp: GetComponent_def run_sql_query_row dest!: find_Some_set split: option.splits)

lemma CreateKeyForAccount_result:
  assumes "run_state (CreateKeyForAccount i c l ex) s = (k, s')"
  shows "case k of Inl _ \<Rightarrow> db s' = db s
    | Inr key \<Rightarrow> \<exists>row. subscription_key (db s') = subscription_key (db s) @ [row] \<and> accounts (db s') = accounts (db s) \<and>
        components (db s') = components (db s) \<and> k_id row = Key_ID key \<and>
        k_component row = c \<and> k_active row = 1 \<and> k_account_id row = i \<and>
        k_expires_at row = map_option rfc3339 ex \<and> length (Key_ID key) = 64 \<and> set (Key_ID key) \<subseteq> set hex_digits"
  using assms set_hex
  by (auto simp: CreateKeyForAccount_def run_simps run_sql_stmt insert_key_def length_hex formatNullTime_def
      split: option.splits sum.splits prod.splits if_splits)

lemma hex_isHex: "set v \<subseteq> set hex_digits \<Longrightarrow> isHex v"
  by (induction v) (auto simp: isHex_def hex_digits_def)

lemma Accounts_IssueKey_preserves:
  "preserves db_ok (Accounts_IssueKey vis b r)" "keeps fault (Accounts_IssueKey vis b r)"
  unfolding Accounts_IssueKey_def
  by (intro pres_rules keep_rules keeps_preserves[OF GetAccount_keeps] keeps_preserves[OF GetComponent_keeps])+

lemma Accounts_IssueKey_effect:
  assumes "run_state (Accounts_IssueKey vis (Some req) r) s = (w, s')" "Status w = 201"
  shows "\<exists>key row a. Body w = json_key vis key \<and> subscription_key (db s') = subscription_key (db s) @ [row] \<and>
    accounts (db s') = accounts (db s) \<and> components (db s') = components (db s) \<and>
    k_id row = Key_ID key \<and> k_component row = ckr_Component req \<and> k_active row = 1 \<and> k_account_id row = URLParam r ''id'' \<and>
    k_expires_at row = map_option rfc3339 (ckr_ExpiresAt req) \<and> length (Key_ID key) = 64 \<and> isHex (Key_ID key) \<and>
    a \<in> set (accounts (db s)) \<and> ac_id a = URLParam r ''id'' \<and> ac_status a = ''active'' \<and>
    ckr_Component req \<in> co_name ` set (components (db s))"
proof -
  let ?i = "URLParam r ''id''" and ?c = "ckr_Component req"
  note defs = Accounts_IssueKey_def Let_def
  obtain opr where opr: "requireAdmin r = Inr opr"
    using assms by (cases "requireAdmin r") (auto simp: defs requireAdmin_def split: option.splits if_splits)
  obtain g s1 where g: "run_state (GetAccount ?i) s = (g, s1)" by fastforce
  obtain a where a: "g = Inr a"
    using assms opr g by (cases g) (auto simp: defs account_get_error_def split: if_splits)
  have act: "Acc_Status a = AccountStatusActive" "\<not> (ckr_AccountID req \<noteq> [] \<and> ckr_AccountID req \<noteq> ?i)"
    using assms opr g a by (auto simp: defs split: if_splits)
  obtain c s2 where c: "run_state (GetComponent ?c) s1 = (c, s2)" by fastforce
  obtain cmp where cmp: "c = Inr cmp"
    using assms opr g a act c by (cases c) (auto simp: defs split: if_splits)
  obtain k s3 where k: "run_state (CreateKeyForAccount ?i ?c (ckr_Label req) (ckr_ExpiresAt req)) s2 = (k, s3)" by fastforce
  obtain key where key: "k = Inr key"
    using assms opr g a act c cmp k by (cases k) (auto simp: defs split: if_splits)
  define ent where "ent = new_entry (AO_ID opr) ''key.issue'' ''key'' (Key_ID key)
     [(''account_id'', DStr ?i), (''component'', DStr ?c), (''label'', DStr (TruncateAuditField (ckr_Label req)))]"
  obtain s4 where wr: "run_state (WriteFromRequest r ent) s3 = ((), s4)" by (cases "run_state (WriteFromRequest r ent) s3") auto
  have ws: "w = writeJSON 201 (json_key vis key)" "s' = s4"
    using assms(1) opr g a act c cmp k key wr by (auto simp: defs ent_def)
  have un: "unaudited_db s4 = unaudited_db s3" by (rule keeps_run[OF unaudited_WriteFromRequest wr])
  obtain q where q: "q \<in> set (accounts (db s))" "ac_id q = ?i" "a = scanAccount q"
    using GetAccount_result[OF g] a by (auto dest!: find_Some_set)
  have st: "ac_status q = ''active''" using act(1) q(3) by (simp add: status_defs)
  show ?thesis
    using CreateKeyForAccount_result[OF k] key GetComponent_result[OF c] cmp GetAccount_result[OF g]
      unaudited_eqD(1)[OF un] unaudited_eqD(4)[OF un] unaudited_eqD(5)[OF un] ws q st
    by (auto intro: hex_isHex)
qed


section \<open>Deletion\<close>

lemma account_delete_refused: "Status (account_get_error e) \<noteq> 200" "Status (account_delete_error e) \<noteq> 200"
  by (simp_all add: account_get_error_def account_delete_error_def)

text \<open>
  C19: Deleting an account is all or nothing, under every pattern of database failures. Either the answer
  is not 200 and no table but the audit log changed, or the caller confirmed with the account's
  id, the account is not the legacy account, it is marked deleted, exactly its active keys were revoked,
  their number is what the answer reports, and none of its keys is active any more.
\<close>

theorem account_delete_all_or_nothing:
  assumes "run_state (Accounts_Delete r) s = (w, s')"
  shows "Status w \<noteq> 200 \<and> core (db s') = core (db s) \<or>
    Status w = 200 \<and> query_Get r ''confirm'' = URLParam r ''id'' \<and> URLParam r ''id'' \<noteq> legacyAccountID \<and>
    Body w = JKeysRevoked (count_rows (\<lambda>k. k_account_id k = URLParam r ''id'' \<and> k_active k = 1) (subscription_key (db s))) \<and>
    subscription_key (db s') = update_rows (\<lambda>k. k_account_id k = URLParam r ''id'' \<and> k_active k = 1) (\<lambda>k. k\<lparr>k_active := 0\<rparr>) (subscription_key (db s)) \<and>
    accounts (db s') = update_rows (\<lambda>a. ac_id a = URLParam r ''id'') (\<lambda>a. a\<lparr>ac_status := ''deleted''\<rparr>) (accounts (db s)) \<and>
    (\<forall>k \<in> set (subscription_key (db s')). k_account_id k = URLParam r ''id'' \<longrightarrow> k_active k \<noteq> 1)"
proof -
  let ?i = "URLParam r ''id''"
  note defs = Accounts_Delete_def Let_def
  obtain g s1 where g: "run_state (GetAccount ?i) s = (g, s1)" by fastforce
  obtain n s2 where n: "run_state (CountActiveAccountKeys ?i) s1 = (n, s2)" by fastforce
  obtain d s3 where d: "run_state (DeleteAccountWithCascade ?i) s1 = (d, s3)" by fastforce
  have s1: "db s1 = db s" "db s2 = db s1"
    using GetAccount_result[OF g] keeps_run[OF CountActiveAccountKeys_keeps n] by auto
  show ?thesis
  proof (cases "\<exists>opr a k. requireAdmin r = Inr opr \<and> g = Inr a \<and> query_Get r ''confirm'' = ?i \<and> d = Inr k")
    case False
    then have "Status w \<noteq> 200 \<and> db s' = db s"
      using assms g n d s1 account_delete_refused DeleteAccountWithCascade_atomic[of ?i s1]
      by (auto simp: defs requireAdmin_def split: sum.splits if_splits option.splits)
    then show ?thesis by simp
  next
    case True
    then obtain opr a k where t: "requireAdmin r = Inr opr" "g = Inr a" "query_Get r ''confirm'' = ?i" "d = Inr k" by blast
    define ent where "ent = new_entry (AO_ID opr) ''account.delete'' ''account'' ?i [(''keys_revoked'', DInt k)]"
    obtain s4 where wr: "run_state (WriteFromRequest r ent) s3 = ((), s4)" by (cases "run_state (WriteFromRequest r ent) s3") auto
    have ws: "w = writeJSON 200 (JKeysRevoked k)" "s' = s4" using assms t g d wr by (auto simp: defs ent_def)
    have un: "unaudited_db s4 = unaudited_db s3" by (rule keeps_run[OF unaudited_WriteFromRequest wr])
    note eq = unaudited_eqD(1)[OF un] unaudited_eqD(4)[OF un]
    from DeleteAccountWithCascade_success[of ?i s1 k s3] d t(4) s1 ws eq t(3) show ?thesis
      by (auto simp: update_rows_set)
  qed
qed

section \<open>Disabling an operator\<close>

lemma after_update_effect:
  assumes "run_state (after_operator_update r actor i nr ns before after) s = (u, s')"
  shows "operators (db s') = operators (db s) \<and> set (sessions (db s')) \<subseteq> set (sessions (db s))"
proof -
  have w: "run_state (WriteFromRequest r e) s0 = (x, s1) \<Longrightarrow> operators (db s1) = operators (db s0) \<and> sessions (db s1) = sessions (db s0)" for e s0 s1 and x :: unit
    using keeps_run[OF unaudited_WriteFromRequest] unaudited_eqD(2,3) by blast
  have d: "run_state (DeleteOperatorSessions i) s0 = (x, s1) \<Longrightarrow> operators (db s1) = operators (db s0) \<and> set (sessions (db s1)) \<subseteq> set (sessions (db s0))" for s0 s1 x
    by (auto simp: DeleteOperatorSessions_def run_sql_stmt delete_sessions_def split: if_splits option.splits)
  from assms show ?thesis
    by (auto simp: after_operator_update_def Let_def run_simps dest!: w d split: if_splits prod.splits)
qed

lemma Operators_Update_effect:
  assumes "run_state (Operators_Update (Some req) r) s = (w, s')" "Status w = 200"
  shows "operators (db s') = update_rows (\<lambda>q. op_id q = URLParam r ''id'') (set_role_status (uor_Role req) (uor_Status req)) (operators (db s)) \<and>
    set (sessions (db s')) \<subseteq> set (sessions (db s))"
proof -
  let ?i = "URLParam r ''id''"
  note defs = Operators_Update_def Let_def
  obtain actor where actor: "requireAdmin r = Inr actor"
    using assms by (cases "requireAdmin r") (auto simp: defs requireAdmin_def split: option.splits if_splits)
  obtain u s1 where u: "run_state (UpdateOperatorAtomically ?i (uor_Role req) (uor_Status req)) s = (u, s1)" by fastforce
  have valid: "valid_field OperatorRoleAdmin OperatorRoleReadonly (uor_Role req)"
    "valid_field OperatorStatusActive OperatorStatusDisabled (uor_Status req)" "\<not> (uor_Role req = None \<and> uor_Status req = None)"
    using assms actor by (auto simp: defs split: if_splits)
  obtain before after where ba: "u = Inr (before, after)"
    using assms actor valid u by (cases u) (auto simp: defs operator_update_error_def split: if_splits)
  obtain s2 where af: "run_state (after_operator_update r actor ?i (uor_Role req) (uor_Status req) before after) s1 = ((), s2)"
    by (cases "run_state (after_operator_update r actor ?i (uor_Role req) (uor_Status req) before after) s1") auto
  have "s' = s2" using assms actor valid u ba af by (simp add: defs)
  with after_update_effect[OF af] UpdateOperatorAtomically_success[of ?i "uor_Role req" "uor_Status req" s before after s1] u ba
  show ?thesis by auto
qed

text \<open>
  C24: Disabling an operator ends the operator's sessions at once. After an update that set the status to
  disabled was answered 200, every request with the cookie of a session the operator had is
  rejected by the session gate, under every later pattern of database failures, even when the
  deletion of the session rows itself failed.
\<close>

theorem disabled_operator_is_out:
  assumes "db_ok s" "run_state (Operators_Update (Some req) r) s = (w, s')" "Status w = 200" "uor_Status req = Some ''disabled''"
    and "q \<in> set (sessions (db s))" "se_operator_id q = URLParam r ''id''" "req_Cookie r' SessionCookieName = Some (se_id q)"
  shows "\<exists>w' s''. (Status w' = 401 \<or> Status w' = 500) \<and> core (db s'') = core (db s') \<and>
    (\<forall>next. run_state (RequireSession next r') s' = (w', s''))"
proof -
  note eff = Operators_Update_effect[OF assms(2,3)]
  have "rejects s' r'"
  proof (cases rule: RequireSession_cases[of s' r'])
    case (accepted q' p s1)
    then have "q' \<in> set (sessions (db s))" "se_id q' = se_id q" using eff assms(7) by auto
    then have "q' = q" using assms(1,5) by (auto simp: tables_ok_def sessions_ok_def intro: distinct_map_unique)
    with accepted(5-7) assms(4,6) eff have False by (auto simp: update_rows_set)
    then show ?thesis ..
  qed
  then show ?thesis unfolding rejects_def by blast
qed

section \<open>Instances\<close>

definition sample_admin :: auth_Operator where
  "sample_admin = \<lparr>AO_ID = ''op-1'', AO_Email = ''root@example.org'', AO_Role = ''admin''\<rparr>"

definition sample_act :: "string \<Rightarrow> request" where
  "sample_act i = sample_admin_request\<lparr>URLParam := \<lambda>k. if k = ''id'' then i else [], Query := [(''confirm'', [i])],
     ctx_operator := Some sample_admin\<rparr>"

lemma sample_act_sel [simp]: "URLParam (sample_act i) ''id'' = i" "query_Get (sample_act i) ''confirm'' = i"
  "requireAdmin (sample_act i) = Inr sample_admin"
  by (simp_all add: sample_act_def query_Get_def requireAdmin_def OperatorFromContext_def auth_role_defs sample_admin_def)

definition sample_suspend :: updateAccountRequest where
  "sample_suspend = \<lparr>uar_Email = None, uar_OrgName = None, uar_Status = Some ''suspended''\<rparr>"

definition sample_issue :: createKeyRequest where
  "sample_issue = \<lparr>ckr_AccountID = [], ckr_Component = ''core'', ckr_Label = ''ci'', ckr_ExpiresAt = None\<rparr>"

definition sample_disable :: updateOperatorRequest where
  "sample_disable = \<lparr>uor_Role = None, uor_Status = Some ''disabled''\<rparr>"

lemma sample_suspend_200: "Status (fst (run_state (Accounts_Update (Some sample_suspend) (sample_act ''acc-1'')) sample)) = 200"
  by (auto simp: Accounts_Update_def Let_def run_GetAccount sample_rows sample_account_def sample_suspend_def status_change_def status_defs
      UpdateAccount_def run_sql_stmt update_account_def legacyAccountID_def apply_account_update_def coalesce_def account_check_def
      account_status_check_def email_check_def sql_lower_def ascii_lower_def sql_like_percent sql_like_email row_result_def scanAccount_def
      split: prod.splits)


lemma sample_issue_201: "Status (fst (run_state (Accounts_IssueKey (\<lambda>_. []) (Some sample_issue) (sample_act ''acc-1'')) sample)) = 201"
proof -
  let ?v = "hex_EncodeToString (map (entropy sample 0) [0..<32])"
  have "?v \<notin> {sample_key, sample_key2}"
  proof -
    have "?v ! 0 = CHR ''0''" "sample_key ! 0 = CHR ''a''" "sample_key2 ! 0 = CHR ''b''"
      by (simp_all add: sample_def hex_EncodeToString_def hex_digits_def upt_rec sample_key_def sample_key2_def)
    then show ?thesis by auto
  qed
  then show ?thesis
    by (auto simp: Accounts_IssueKey_def Let_def run_GetAccount sample_rows sample_account_def sample_issue_def status_defs
        GetComponent_def run_sql_query_row sample_component_def CreateKeyForAccount_def run_simps run_sql_stmt insert_key_def sample_key_row_def
        split: prod.splits)
qed


theorem account_delete_all_or_nothing_witness:
  "\<exists>w s'. run_state (Accounts_Delete (sample_act ''legacy'')) sample = (w, s') \<and> Status w \<noteq> 200 \<and> core (db s') = core (db sample)"
proof -
  obtain w s' where run: "run_state (Accounts_Delete (sample_act ''legacy'')) sample = (w, s')" by fastforce
  from account_delete_all_or_nothing[OF run] run show ?thesis by (auto simp: legacyAccountID_def)
qed

lemma sample_viewer_email: "email_check ''viewer@example.org''"
  by code_simp

lemma sample_disable_200: "Status (fst (run_state (Operators_Update (Some sample_disable) (sample_act ''op-3'')) sample)) = 200"
  by (auto simp: Operators_Update_def Let_def sample_disable_def valid_field_def role_defs UpdateOperatorAtomically_def run_sql_tx
      run_sql_query_row run_sql_stmt lockout_guard_def sample_rows sample_operator_def update_operators_def operator_check_def set_role_status_def
      sample_viewer_email operator_role_check_def operator_status_check_def provider_check_def scanOperator_def
      split: prod.splits)

theorem disabled_operator_is_out_witness:
  "\<exists>w' s''. (Status w' = 401 \<or> Status w' = 500) \<and>
    (\<forall>next. run_state (RequireSession next (sample_admin_request\<lparr>Cookies := [(''packyard_session'', ''sess-3'')]\<rparr>))
       (snd (run_state (Operators_Update (Some sample_disable) (sample_act ''op-3'')) sample)) = (w', s''))"
proof -
  let ?r' = "sample_admin_request\<lparr>Cookies := [(''packyard_session'', ''sess-3'')]\<rparr>" and ?q = "sample_session ''sess-3'' ''op-3''"
  have "?q \<in> set (sessions (db sample))" "se_operator_id ?q = URLParam (sample_act ''op-3'') ''id''"
      "req_Cookie ?r' SessionCookieName = Some (se_id ?q)"
    by (simp_all add: sample_rows sample_session_def req_Cookie_def SessionCookieName_def)
  from disabled_operator_is_out[OF _ surjective_pairing sample_disable_200 _ this] show ?thesis
    by (auto simp: sample_ok sample_disable_def)
qed

end
