(* ===== verification/Key_Expiry.thy ===== *)
theory Key_Expiry
  imports Router Key_Lifecycle
begin

text \<open>
  What happens to a key whose expiry cannot be read back. A client may give an instant whose UTC year is not in 0 to 9999,
  such as \<^verbatim>\<open>9999-12-31T23:59:59-01:00\<close>: it is accepted and stored, and from then on scanning the row fails. The locale
  contracts of \<open>Router\<close> show that no request ever repairs or removes such a row.
\<close>

section \<open>An unreadable row stays\<close>

definition unreadable_row :: "string \<Rightarrow> tables \<Rightarrow> bool" where
  "unreadable_row i t \<longleftrightarrow> (\<exists>k \<in> set (subscription_key t). k_id k = i \<and> \<not> readable k)"

interpretation unreadable: row_invariant "unreadable_row i0" for i0
proof unfold_locales
  fix u :: "key_row \<Rightarrow> key_row" and K
  assume u: "\<And>k. k_id (u k) = k_id k \<and> k_expires_at (u k) = k_expires_at k \<and> (k_active (u k) = k_active k \<or> k_active (u k) = 0)"
  show "stmt_keeps (unreadable_row i0) (update_keys K u)"
  proof (rule stmt_keepsI)
    fix t a t'
    assume "unreadable_row i0 t" "update_keys K u t = Inr (a, t')"
    then obtain k where k: "k \<in> set (subscription_key t)" "k_id k = i0" "\<not> readable k"
        and t': "subscription_key t' = map (\<lambda>k. if K k then u k else k) (subscription_key t)"
      by (auto simp: unreadable_row_def update_keys_def update_rows_def)
    have "\<not> readable (u k)" "k_id (u k) = i0" using u[of k] k by (simp_all add: readable_def)
    then show "unreadable_row i0 t'" unfolding unreadable_row_def t' using k by (intro bexI[of _ "if K k then u k else k"]) auto
  qed
qed (auto simp: stmt_keeps_def stmt_defs unreadable_row_def split: if_splits option.splits)

section \<open>What it breaks\<close>

lemma sql_page_all: "length rows \<le> nat limit \<Longrightarrow> sql_page limit 0 rows = rows"
  by (simp add: sql_page_def)

text \<open>The first page of all keys.\<close>

lemma Keys_List_blocked:
  assumes "unreadable_row i (db s)" "fault s (stmts s) = None" "length (subscription_key (db s)) \<le> 51" "Query q = []"
  shows "Status (fst (run_state (Keys_List valid vis q) s)) = 500"
proof -
  have q: "query_Get q k = []" for k using assms(4) by (simp add: query_Get_def)
  have p: "parsePagination q = Inr (0, 50)" by (simp add: parsePagination_def q defaultPageLimit_def Let_def)
  let ?rows = "sort_key (\<lambda>q. - k_created_at q) (subscription_key (db s))"
  have "\<not> list_all readable ?rows" using assms(1) by (auto simp: unreadable_row_def list_all_iff)
  moreover have "sql_page 51 0 ?rows = ?rows" using assms(3) by (intro sql_page_all) simp
  ultimately show ?thesis using assms(2)
    by (simp add: Keys_List_def Let_def q p ListKeys_def sql_query_def scanKeys_readable run_sql_stmt)
qed

lemma issued_row:
  assumes "run_state (Accounts_IssueKey vis (Some req) r) s = (w, s')" "Status w = 201"
    "ckr_ExpiresAt req = Some t" "\<not> in_years (rfc3339 t)"
  shows "\<exists>key. Body w = json_key vis key \<and> unreadable_row (Key_ID key) (db s')"
proof -
  obtain key row where "Body w = json_key vis key" "subscription_key (db s') = subscription_key (db s) @ [row]"
      "k_id row = Key_ID key" "k_expires_at row = Some (rfc3339 t)"
    using Accounts_IssueKey_effect[OF assms(1,2)] assms(3) by auto
  then show ?thesis using assms(4) by (intro exI[of _ key]) (auto simp: unreadable_row_def readable_def)
qed


section \<open>An instance\<close>

definition late_body :: string where
  "late_body = json_text (Object [(''component'', Text ''core''), (''label'', Text ''ci''),
     (''expires_at'', Text ''9999-12-31T23:59:59-01:00'')])"

definition late_request :: createKeyRequest where
  "late_request = \<lparr>ckr_AccountID = [], ckr_Component = ''core'', ckr_Label = ''ci'', ckr_ExpiresAt = Some (253402304399 * Second)\<rparr>"

lemma late_body_decoded: "decode_createKeyRequest late_body = Some late_request"
proof -
  let ?v = "Object [(''component'', Text ''core''), (''label'', Text ''ci''), (''expires_at'', Text ''9999-12-31T23:59:59-01:00'')]"
  have "length (json_text ?v) = 74" by code_simp
  then have "decode_limited late_body = Some ?v" unfolding late_body_def
    by (intro decode_limited_text) (simp_all add: is_container_def maxNestingDepth_def maxBodyBytes_def del: json_text.simps)
  moreover have "time_Parse ''9999-12-31T23:59:59-01:00'' = Some (253402304399 * Second)" by code_simp
  ultimately show ?thesis
    by (simp add: decode_createKeyRequest_def decode_request_def decode_struct_def field_of_def set_text_def set_time_ptr_def late_request_def)
qed

lemma late_issue_201:
  "Status (fst (run_state (Accounts_IssueKey (\<lambda>_. []) (Some late_request) (sample_act ''acc-1'')) sample_service)) = 201"
proof -
  have "draw_hex sample_service 0 32 \<notin> {sample_key, sample_key2}"
  proof -
    have "draw_hex sample_service 0 32 ! 0 = CHR ''0''" "sample_key ! 0 = CHR ''a''" "sample_key2 ! 0 = CHR ''b''"
      by (simp_all add: draw_hex_def hex_EncodeToString_def hex_digits_def upt_rec sample_key_def sample_key2_def)
    then show ?thesis by auto
  qed
  then show ?thesis
    by (auto simp: Accounts_IssueKey_def Let_def run_GetAccount sample_rows sample_account_def late_request_def status_defs draw_hex_def
        GetComponent_def run_sql_query_row sample_component_def CreateKeyForAccount_def run_simps run_sql_stmt insert_key_def sample_key_row_def
        split: prod.splits)
qed


end
