(* ===== verification/Service_Cache.thy ===== *)
theory Service_Cache
  imports Router
begin

text \<open>
  The component cache in the running service. \<open>Cached_Components\<close> shows for every interleaving of its own steps that an entry is current
  once no eviction is outstanding; here the whole service with all its handlers, each run to its end, is shown to keep the cache coherent with the
  tables, so that the forward-auth route of a running service grants exactly what the tables grant.
\<close>

definition cache_ok :: "service \<Rightarrow> bool" where
  "cache_ok s \<longleftrightarrow> enabled s \<longrightarrow> coherent s"

abbreviation components_db :: "'z store_scheme \<Rightarrow> component_row list" where
  "components_db s \<equiv> components (db s)"

section \<open>Who writes components\<close>

lemmas components_stmt = keeps_table_stmt[where F = components]

lemma components_stmts:
  "keeps components_db (sql_stmt (insert_account a))" "keeps components_db (sql_stmt (update_account i f))"
  "keeps components_db (sql_stmt (insert_operator p))" "keeps components_db (sql_stmt (update_operators P g))"
  "keeps components_db (sql_stmt (insert_session q))" "keeps components_db (sql_stmt (update_sessions Q h))"
  "keeps components_db (sql_stmt (delete_sessions Q))" "keeps components_db (sql_stmt (insert_audit e))"
  "keeps components_db (sql_stmt (insert_key k))" "keeps components_db (sql_stmt (update_keys K u))"
  by (rule components_stmt, force simp: stmt_defs split: if_splits option.splits)+

lemmas components_tx = keeps_table_tx[where F = components]

lemma components_writes:
  "keeps components_db (CreateAccount inp opid)" "keeps components_db (UpdateAccount i upd)" "keeps components_db (DeleteAccountWithCascade i)"
  "keeps components_db (CreateKey i cname lbl ex)" "keeps components_db (CreateKeyForAccount i cname lbl ex)" "keeps components_db (RevokeKey i)"
  "keeps components_db (IncrementUsage i)" "keeps components_db (AllowlistOperator em rl byid)" "keeps components_db (UpdateOperatorAtomically i nr ns)"
  "keeps components_db (UpdateLastLogin i t)" "keeps components_db (UpdateLoginProvider i pn u)" "keeps components_db (CreateSession i ip ua)"
  "keeps components_db (TouchSession i t)" "keeps components_db (DeleteSession i)" "keeps components_db (DeleteOperatorSessions i)"
  "keeps components_db (Write ent)"
  unfolding CreateAccount_def UpdateAccount_def DeleteAccountWithCascade_def CreateKey_def CreateKeyForAccount_def RevokeKey_def IncrementUsage_def
    AllowlistOperator_def UpdateOperatorAtomically_def UpdateLastLogin_def UpdateLoginProvider_def CreateSession_def TouchSession_def DeleteSession_def
    DeleteOperatorSessions_def Write_def generateAccountID_def generateKeyValue_def generateOperatorID_def generateSessionID_def lockout_guard_def Let_def
  by (auto intro!: keep_rules components_stmts components_tx)

section \<open>What keeps the cache coherent\<close>

lemma coherent_mono:
  assumes "coherent s" "cache_part s' = cache_part s"
    and "\<And>n r. find (\<lambda>q. co_name q = n) (components (db s)) = Some r \<Longrightarrow> find (\<lambda>q. co_name q = n) (components (db s')) = Some r"
  shows "coherent s'"
proof -
  have "current (db s') n c" if "current (db s) n c" for n c using that by (rule current_mono) (rule assms(3))
  with assms(1,2) show ?thesis by (auto simp: coherent_def cache_part_def)
qed

lemma cache_ok_mono:
  assumes "cache_ok s" "cache_part s' = cache_part s"
    and "\<And>n r. find (\<lambda>q. co_name q = n) (components (db s)) = Some r \<Longrightarrow> find (\<lambda>q. co_name q = n) (components (db s')) = Some r"
  shows "cache_ok s'"
  using assms coherent_mono[of s s'] by (auto simp: cache_ok_def enabled_def cache_part_def)

lemma cache_ok_write: "keeps cache_part m \<Longrightarrow> keeps components_db m \<Longrightarrow> preserves cache_ok m"
  unfolding preserves_def keeps_def by (metis cache_ok_mono)

lemma cache_ok_create: "preserves cache_ok (CreateComponent c)"
proof (rule preservesI)
  fix s assume "cache_ok s"
  then show "cache_ok (snd (run_state (CreateComponent c) s))"
    by (rule cache_ok_mono) (simp_all add: keepsD[OF cache_part_CreateComponent] CreateComponent_rows[OF surjective_pairing])
qed

text \<open>A component write through the cache: the row it changes is the row whose entry it drops.\<close>

lemma evict_coherent:
  assumes "cache_ok s" "run_state (run_write wr n) s = (ok, s1)"
    and "run_state (evict_on_success n x) s1 = (x, s')" "ok = (\<not> isl x)"
  shows "cache_ok s'"
proof -
  have part: "ttl s1 = ttl s" "entries s1 = entries s"
    using keepsD[OF cache_part_run_write, of wr n s] assms(2) by (simp_all add: cache_part_def)
  show ?thesis
  proof (cases "isl x \<or> \<not> enabled s1")
    case True
    then have s': "s' = s1" using assms(3) by (auto simp: evict_on_success_def run_simps)
    have "enabled s' \<Longrightarrow> coherent s'"
    proof -
      assume "enabled s'"
      then have "isl x" "coherent s" using True s' assms(1) part by (auto simp: cache_ok_def enabled_def)
      moreover have "cache_part s1 = cache_part s" using keepsD[OF cache_part_run_write, of wr n s] assms(2) by simp
      ultimately show "coherent s'" unfolding s'
        using run_write_rows[OF assms(2)] assms(4) by (intro coherent_mono[of s s1]) metis+
    qed
    then show ?thesis by (simp add: cache_ok_def)
  next
    case False
    then have s': "db s' = db s1" "\<And>m. map_of (entries s') m = (if m = n then None else map_of (entries s) m)"
      using assms(3) part by (auto simp: evict_on_success_def run_simps run_cache_evict Let_def cache_map_simps)
    have "coherent s" using False part assms(1) by (simp add: cache_ok_def enabled_def)
    have "current (db s') m c" if "m \<noteq> n" "current (db s) m c" for m c
      using that(2) by (rule current_mono) (simp add: s'(1) run_write_rows[OF assms(2)] that(1))
    with \<open>coherent s\<close> s'(2) have "coherent s'" by (auto simp: coherent_def split: if_splits)
    then show ?thesis by (simp add: cache_ok_def)
  qed
qed

lemma fst_evict [simp]: "fst (run_state (evict_on_success n x) s) = x"
  by (simp add: evict_on_success_def run_simps run_cache_evict)

lemma cache_ok_through:
  assumes "\<And>s. run_state (run_write wr n) s = (\<not> isl (fst (run_state m s)), snd (run_state m s))"
  shows "preserves cache_ok (do { x \<leftarrow> m; evict_on_success n x })"
proof (rule preservesI)
  fix s assume ok: "cache_ok s"
  obtain x s1 where m: "run_state m s = (x, s1)" by fastforce
  then have w: "run_state (run_write wr n) s = (\<not> isl x, s1)" using assms by simp
  have "cache_ok (snd (run_state (evict_on_success n x) s1))"
    by (rule evict_coherent[OF ok w _ refl]) (simp add: prod_eq_iff)
  then show "cache_ok (snd (run_state (do { x \<leftarrow> m; evict_on_success n x }) s))" using m by (simp add: run_simps)
qed

lemma cache_ok_cached_writes:
  "preserves cache_ok (Cached_UpdateComponent n p)" "preserves cache_ok (Cached_DeleteComponent n)"
  "preserves cache_ok (Cached_DeleteComponentWithRevoke n)"
  unfolding Cached_UpdateComponent_def Cached_DeleteComponent_def Cached_DeleteComponentWithRevoke_def
  by (rule cache_ok_through[of "WUpdate p"], simp add: run_write_def run_simps split: prod.split,
      rule cache_ok_through[of WDelete], simp add: run_write_def run_simps split: prod.split,
      rule cache_ok_through[of WDeleteRevoke], simp add: run_write_def run_simps split: prod.split)

text \<open>A lookup inserts what it read, if that is public.\<close>

lemma coherent_drop: "coherent s \<Longrightarrow> coherent (s\<lparr>entries := AList.delete n (entries s), ComponentCacheEntries := k, clock_reads := c\<rparr>)"
  by (auto simp: coherent_def cache_map_simps split: if_splits)

lemma lookup_coherent: "coherent s \<Longrightarrow> coherent (snd (run_state (cache_lookup n) s))"
  by (auto simp: run_cache_lookup Let_def coherent_def cache_map_simps split: option.splits if_splits)

lemma shared_coherent:
  assumes "coherent s"
  shows "coherent (snd (run_state (shared_lookup n) s))"
proof -
  have "current (db s) n c" if "run_state (GetComponent n) s = (Inr c, s1)" for c s1
    using that by (auto simp: current_def run_GetComponent split: option.splits)
  with assms show ?thesis
    by (auto simp: shared_lookup_def run_simps finish_lookup_def run_GetComponent run_cache_insert Let_def coherent_def cache_map_simps current_def
        split: option.splits sum.splits)
qed

lemma cache_ok_get: "preserves cache_ok (Cached_GetComponent n)"
proof (rule preservesI)
  fix s assume ok: "cache_ok s"
  show "cache_ok (snd (run_state (Cached_GetComponent n) s))"
  proof (cases "enabled s")
    case True
    then have "coherent (s\<lparr>ComponentCacheRequests := Suc (ComponentCacheRequests s)\<rparr>)" using ok by (simp add: cache_ok_def coherent_def)
    from lookup_coherent[OF this, of n] shared_coherent[OF lookup_coherent[OF this], of n n] True show ?thesis
      by (auto simp: Cached_GetComponent_def run_simps cache_ok_def enabled_def coherent_def split: prod.splits option.splits)
  next
    case False
    then show ?thesis
      by (simp add: Cached_GetComponent_def run_simps run_GetComponent cache_ok_def enabled_def)
  qed
qed

text \<open>The service contract for the cache, from the frame of the reads, the writes of other tables and the component operations.\<close>

lemma cache_ok_seen: "seen s' = seen s \<Longrightarrow> cache_ok s \<Longrightarrow> cache_ok s'"
  by (rule cache_ok_mono) (auto simp: seen_eq)

lemma cache_ok_account_update: "preserves cache_ok (Accounts_Update b r)"
proof -
  have read: "preserves cache_ok (GetAccount i :: (service, goerr + Account) state)" for i
    using seen_reads(1)[of i] cache_ok_seen unfolding preserves_def keeps_def by metis
  have "preserves cache_ok (UpdateAccount i upd)" "preserves cache_ok (Write ent)" for i upd ent
    by (intro cache_ok_write cache_writes components_writes)+
  with read show ?thesis unfolding Accounts_Update_def WriteFromRequest_def by (intro pres_rules)
qed

interpretation cached: service_invariant cache_ok
proof
  show "cache_ok s'" if "seen s' = seen s" "cache_ok s" for s s' using that by (rule cache_ok_seen)
qed (rule cache_ok_get cache_ok_create cache_ok_cached_writes cache_ok_account_update cache_writes[THEN cache_ok_write] components_writes)+

section \<open>Forward-auth in the running service\<close>

lemma fault_cached [keep_rules]: "keeps fault (Cached_GetComponent n)"
  unfolding Cached_GetComponent_def shared_lookup_def finish_lookup_def cache_lookup_def cache_insert_def drop_expired_def generation_def
    GetComponent_def set_entries_def inc_CacheRequests_def inc_CacheHits_def set_CacheEntries_def
  by (intro keep_rules; simp add: keeps_def)

text \<open>On a coherent cache a lookup without database failures returns the row.\<close>

lemma cached_row:
  assumes "cache_ok s" "fault s (stmts s) = None" "find (\<lambda>q. co_name q = c) (components (db s)) = Some q"
  shows "fst (run_state (Cached_GetComponent c) s) = Inr (scanComponent q)"
proof -
  have "cc_comp e = scanComponent q" if "map_of (entries s) c = Some e" "enabled s" for e
    using that assms(1,3) by (fastforce simp: cache_ok_def coherent_def current_def)
  moreover have "fst (run_state (GetComponent c) s) = Inr (scanComponent q)"
    using assms(2,3) by (simp add: run_GetComponent)
  ultimately show ?thesis by (simp add: fst_Cached_GetComponent split: option.split)
qed

lemma cached_serve_complete:
  assumes "cache_ok s" "db_ok s" "\<forall>n. fault s n = None" "may_read (db s) r"
  shows "Status (fst (run_state (serve Cached_GetComponent r) s)) = 200"
proof -
  obtain c where c: "reads r c" "c \<in> co_name ` set (components (db s))"
    and ok: "is_public (db s) c \<or> (\<exists>pw. presents r pw \<and> entitled (db s) pw c)"
    using assms(4) by (auto simp: may_read_def)
  obtain q where q: "find (\<lambda>q. co_name q = c) (components (db s)) = Some q"
    using c(2) by (cases "find (\<lambda>q. co_name q = c) (components (db s))") (auto simp: find_key_None)
  obtain s1 where s1: "run_state (Cached_GetComponent c) s = (Inr (scanComponent q), s1)"
    using cached_row[OF assms(1) _ q] assms(3) by (metis prod.collapse)
  have same: "db s1 = db s" "fault s1 = fault s"
    using keepsD[OF Cached_GetComponent_keeps, of c s] keepsD[OF fault_cached, of c s] s1 by simp_all
  show ?thesis
  proof (cases "co_visibility q = ''public''")
    case True
    with c(1) s1 show ?thesis by (auto simp: reads_def serve_def Let_def run_answer)
  next
    case False
    with ok is_public_find[OF assms(2) q] obtain pw where "presents r pw" "entitled (db s) pw c" by auto
    then have "Status (fst (run_state (check_credentials r c) s1)) = 200"
      using assms(2,3) same by (intro check_credentials_complete) auto
    with c(1) s1 False show ?thesis by (auto simp: reads_def serve_def Let_def)
  qed
qed

lemma may_read_routed: "may_read t (r\<lparr>URLParam := ps, ctx_operator := None\<rparr>) = may_read t r"
  by (simp add: may_read_def reads_def presents_def forwarded_method_def)

lemma auth_route:
  assumes "match r = (E_Auth, ps)" "run_state (serve_http cfg match r) s = ((w, attrs), s')"
  shows "\<exists>s1. run_state (ServeHTTP Cached_GetComponent (r\<lparr>URLParam := ps, ctx_operator := None\<rparr>)) (s\<lparr>clock_reads := Suc (clock_reads s)\<rparr>) = (w, s1)"
  using assms by (auto simp: serve_http_def RequestLogger_def run_simps serve_request_def endpoint_handler_def split: prod.splits)

lemma cached_auth_sound:
  assumes "cache_ok s" "run_state (ServeHTTP Cached_GetComponent r) s = (w, s')" "Status w = 200"
  shows "may_read (db s) r"
proof -
  have "row_attests (s\<lparr>clock_reads := n\<rparr>) c cmp" if "cache_attests (s\<lparr>clock_reads := n\<rparr>) c cmp" for n c cmp
  proof (cases "enabled s")
    case True
    then have "coherent (s\<lparr>clock_reads := n\<rparr>)" using assms(1) by (simp add: cache_ok_def coherent_def)
    then show ?thesis using that by (rule coherent_attests)
  next
    case False
    then show ?thesis using that by (simp add: cache_attests_def live_entry_def enabled_def)
  qed
  with cache.ServeHTTP_200[OF assms(2,3)] show ?thesis
    by (fastforce simp: may_read_def dest: row_attests_component)
qed

lemma auth_route_sound:
  assumes "cache_ok s" "match r = (E_Auth, ps)" "run_state (serve_http cfg match r) s = ((w, attrs), s')" "Status w = 200"
  shows "may_read (db s) r"
proof -
  let ?s = "s\<lparr>clock_reads := Suc (clock_reads s)\<rparr>"
  have "cache_ok ?s" using assms(1) by (simp add: cache_ok_def coherent_def enabled_def)
  moreover obtain s1 where "run_state (ServeHTTP Cached_GetComponent (r\<lparr>URLParam := ps, ctx_operator := None\<rparr>)) ?s = (w, s1)"
    using auth_route[OF assms(2,3)] by blast
  ultimately have "may_read (db ?s) (r\<lparr>URLParam := ps, ctx_operator := None\<rparr>)" using assms(4) by (rule cached_auth_sound)
  then show ?thesis by (simp add: may_read_routed)
qed

lemma auth_route_complete:
  assumes "cache_ok s" "db_ok s" "\<forall>n. fault s n = None" "may_read (db s) r"
    and "match r = (E_Auth, ps)" "run_state (serve_http cfg match r) s = ((w, attrs), s')"
  shows "Status w = 200"
proof -
  let ?r = "r\<lparr>URLParam := ps, ctx_operator := None\<rparr>" and ?s = "s\<lparr>clock_reads := Suc (Suc (clock_reads s))\<rparr>"
  have "cache_ok ?s" using assms(1) by (simp add: cache_ok_def coherent_def enabled_def)
  then have "Status (fst (run_state (serve Cached_GetComponent ?r) ?s)) = 200"
    using assms(2-4) by (intro cached_serve_complete) (simp_all add: may_read_routed)
  then have "Status (fst (run_state (ServeHTTP Cached_GetComponent ?r) (s\<lparr>clock_reads := Suc (clock_reads s)\<rparr>))) = 200"
    by (simp add: fst_ServeHTTP)
  with auth_route[where cfg = cfg, OF assms(5,6)] show ?thesis by auto
qed


text \<open>The sample subscriber reads the private component it has a key for, through the log, the router and the cache.\<close>

lemma sample_auth_matched: "first_match sample_read = (E_Auth, \<lambda>_. [])"
proof -
  have "route_path sample_read = ''/auth''" "Method sample_read = ''GET''" by (simp_all add: sample_read_def route_path_def)
  then show ?thesis unfolding first_match_def by (simp add: routes_def api_routes_def Let_def)
qed


end
