(* ===== verification/Interleaving.thy ===== *)
theory Interleaving
  imports Router
begin

text \<open>
  Concurrent requests. \<^verbatim>\<open>net/http\<close> runs handlers in parallel, over one database connection (\<^verbatim>\<open>SetMaxOpenConns(1)\<close> in
  \<^verbatim>\<open>NewSQLiteStore\<close>): every mutating store operation is one statement or one transaction, so what concurrent handlers do to the tables is some sequence of
  store operations. \<open>interleaved\<close> is every such sequence, of any operations with any arguments, under any clock, random source and failures. The
  lemmas: whatever the handlers do one request at a time is such a sequence, and an invariant of the store operations holds along all of them.
\<close>

datatype store_op =
    Op_CreateAccount AccountInput string | Op_UpdateAccount string AccountUpdate | Op_DeleteAccountWithCascade string
  | Op_CreateKey string string string "go_time option" | Op_CreateKeyForAccount string string string "go_time option"
  | Op_RevokeKey string | Op_IncrementUsage string
  | Op_CreateComponent Component | Op_UpdateComponent string ComponentPatch | Op_DeleteComponent string | Op_DeleteComponentWithRevoke string
  | Op_AllowlistOperator string OperatorRole string | Op_UpdateOperatorAtomically string "OperatorRole option" "OperatorStatus option"
  | Op_UpdateLastLogin string go_time | Op_UpdateLoginProvider string string string
  | Op_CreateSession string string string | Op_TouchSession string go_time | Op_DeleteSession string | Op_DeleteOperatorSessions string
  | Op_Write Entry

definition ignoring :: "('s, 'a) state \<Rightarrow> ('s, unit) state" where
  "ignoring m = do { _ \<leftarrow> m; State_Monad.return () }"

fun run_op :: "store_op \<Rightarrow> (service, unit) state" where
  "run_op (Op_CreateAccount inp opid) = ignoring (CreateAccount inp opid)"
| "run_op (Op_UpdateAccount i upd) = ignoring (UpdateAccount i upd)"
| "run_op (Op_DeleteAccountWithCascade i) = ignoring (DeleteAccountWithCascade i)"
| "run_op (Op_CreateKey i cname lbl ex) = ignoring (CreateKey i cname lbl ex)"
| "run_op (Op_CreateKeyForAccount i cname lbl ex) = ignoring (CreateKeyForAccount i cname lbl ex)"
| "run_op (Op_RevokeKey i) = ignoring (RevokeKey i)"
| "run_op (Op_IncrementUsage i) = ignoring (IncrementUsage i)"
| "run_op (Op_CreateComponent c) = ignoring (CreateComponent c)"
| "run_op (Op_UpdateComponent n patch) = ignoring (UpdateComponent n patch)"
| "run_op (Op_DeleteComponent n) = ignoring (DeleteComponent n)"
| "run_op (Op_DeleteComponentWithRevoke n) = ignoring (DeleteComponentWithRevoke n)"
| "run_op (Op_AllowlistOperator em rl byid) = ignoring (AllowlistOperator em rl byid)"
| "run_op (Op_UpdateOperatorAtomically i nr ns) = ignoring (UpdateOperatorAtomically i nr ns)"
| "run_op (Op_UpdateLastLogin i t) = ignoring (UpdateLastLogin i t)"
| "run_op (Op_UpdateLoginProvider i pn u) = ignoring (UpdateLoginProvider i pn u)"
| "run_op (Op_CreateSession i ip ua) = ignoring (CreateSession i ip ua)"
| "run_op (Op_TouchSession i t) = ignoring (TouchSession i t)"
| "run_op (Op_DeleteSession i) = ignoring (DeleteSession i)"
| "run_op (Op_DeleteOperatorSessions i) = ignoring (DeleteOperatorSessions i)"
| "run_op (Op_Write ent) = Write ent"

inductive interleaved :: "tables \<Rightarrow> tables \<Rightarrow> bool" where
  il_start: "interleaved t t"
| il_op: "interleaved t (db s) \<Longrightarrow> run_state (run_op m) s = ((), s') \<Longrightarrow> interleaved t (db s')"

lemma preserves_ignoring: "preserves I (ignoring m) \<longleftrightarrow> preserves I m"
  by (simp add: preserves_def ignoring_def case_prod_unfold)

context store_invariant
begin

lemma op_keep: "preserves (\<lambda>s :: service. I (db s)) (run_op m)"
  by (cases m) (simp_all add: preserves_ignoring CreateAccount UpdateAccount DeleteAccountWithCascade CreateKey CreateKeyForAccount RevokeKey
      IncrementUsage CreateComponent UpdateComponent DeleteComponent DeleteComponentWithRevoke AllowlistOperator UpdateOperatorAtomically
      UpdateLastLogin UpdateLoginProvider CreateSession TouchSession DeleteSession DeleteOperatorSessions AuditWrite)

lemma interleaved_keep: "interleaved t t' \<Longrightarrow> I t \<Longrightarrow> I t'"
proof (induction rule: interleaved.induct)
  case (il_op t s m s')
  then show ?case using preservesD[OF op_keep, of s m] by simp
qed

end

text \<open>Being reached by interleaved operations is itself kept by every operation.\<close>

lemma interleaved_op: "preserves (\<lambda>s :: service. interleaved t (db s)) (run_op m)"
  by (rule preservesI) (metis il_op old.unit.exhaust prod.collapse)

lemmas reached_ops =
  interleaved_op[where m = "Op_CreateAccount inp opid" for inp opid, unfolded run_op.simps preserves_ignoring]
  interleaved_op[where m = "Op_UpdateAccount i upd" for i upd, unfolded run_op.simps preserves_ignoring]
  interleaved_op[where m = "Op_DeleteAccountWithCascade i" for i, unfolded run_op.simps preserves_ignoring]
  interleaved_op[where m = "Op_CreateKey i cname lbl ex" for i cname lbl ex, unfolded run_op.simps preserves_ignoring]
  interleaved_op[where m = "Op_CreateKeyForAccount i cname lbl ex" for i cname lbl ex, unfolded run_op.simps preserves_ignoring]
  interleaved_op[where m = "Op_RevokeKey i" for i, unfolded run_op.simps preserves_ignoring]
  interleaved_op[where m = "Op_IncrementUsage i" for i, unfolded run_op.simps preserves_ignoring]
  interleaved_op[where m = "Op_CreateComponent c" for c, unfolded run_op.simps preserves_ignoring]
  interleaved_op[where m = "Op_UpdateComponent n patch" for n patch, unfolded run_op.simps preserves_ignoring]
  interleaved_op[where m = "Op_DeleteComponent n" for n, unfolded run_op.simps preserves_ignoring]
  interleaved_op[where m = "Op_DeleteComponentWithRevoke n" for n, unfolded run_op.simps preserves_ignoring]
  interleaved_op[where m = "Op_AllowlistOperator em rl byid" for em rl byid, unfolded run_op.simps preserves_ignoring]
  interleaved_op[where m = "Op_UpdateOperatorAtomically i nr ns" for i nr ns, unfolded run_op.simps preserves_ignoring]
  interleaved_op[where m = "Op_UpdateLastLogin i t" for i t, unfolded run_op.simps preserves_ignoring]
  interleaved_op[where m = "Op_UpdateLoginProvider i pn u" for i pn u, unfolded run_op.simps preserves_ignoring]
  interleaved_op[where m = "Op_CreateSession i ip ua" for i ip ua, unfolded run_op.simps preserves_ignoring]
  interleaved_op[where m = "Op_TouchSession i t" for i t, unfolded run_op.simps preserves_ignoring]
  interleaved_op[where m = "Op_DeleteSession i" for i, unfolded run_op.simps preserves_ignoring]
  interleaved_op[where m = "Op_DeleteOperatorSessions i" for i, unfolded run_op.simps preserves_ignoring]
  interleaved_op[where m = "Op_Write ent" for ent, unfolded run_op.simps preserves_ignoring]

interpretation reached: store_invariant "interleaved t0" for t0
  by unfold_locales (rule reached_ops)+

lemma runs_interleaved: "runs cfg match s s' \<Longrightarrow> interleaved (db s) (db s')"
  using reached.on_tables.runs_keep[of cfg match s s' "db s"] il_start by blast

text \<open>
  C8: However the store operations of concurrent requests interleave, whatever their arguments and whichever fail: tables that satisfy the schema with an
  active admin keep doing so, the audit log only grows at its end, and a revoked key stays revoked.
\<close>

theorem concurrent_requests_safe:
  assumes "interleaved t t'" "tables_ok t" "has_active_admin t"
  shows "tables_ok t' \<and> has_active_admin t' \<and> (\<exists>rows. audit_log t' = audit_log t @ rows) \<and> (\<forall>i. revoked i t \<longrightarrow> revoked i t')"
proof (intro conjI allI impI)
  have "tables_ok t' \<and> has_active_admin t'" using schema.interleaved_keep[OF assms(1)] assms(2,3) by blast
  then show "tables_ok t'" "has_active_admin t'" by simp_all
  show "\<exists>rows. audit_log t' = audit_log t @ rows"
    using log.ops.interleaved_keep[OF assms(1), of t] by (simp add: log_grows_def)
  show "revoked i t'" if "revoked i t" for i using revocation.ops.interleaved_keep[OF assms(1) that] .
qed

text \<open>Two operations: a revocation, then an audit row.\<close>

theorem concurrent_requests_safe_witness:
  "\<exists>t. audit_log t \<noteq> [] \<and> tables_ok t \<and> has_active_admin t \<and> revoked sample_key t"
proof -
  define s1 where "s1 = snd (run_state (run_op (Op_RevokeKey sample_key)) sample_service)"
  define s2 where "s2 = snd (run_state (run_op (Op_Write (new_entry ''op-1'' ''key.revoke'' ''key'' sample_key []))) s1)"
  have one: "interleaved sample_tables (db s1)"
    using il_op[OF il_start, where s = sample_service and m = "Op_RevokeKey sample_key" and s' = s1] by (simp add: s1_def prod_eq_iff)
  have two: "interleaved (db s1) (db s2)"
    using il_op[OF il_start, where s = s1 and m = "Op_Write (new_entry ''op-1'' ''key.revoke'' ''key'' sample_key [])" and s' = s2] by (simp add: s2_def prod_eq_iff)
  have admin: "has_active_admin sample_tables" by (simp add: has_active_admin_def sample_rows sample_operator_def is_active_admin_def)
  have s1: "revoked sample_key (db s1)" "fault s1 = fault sample_service"
    by (auto simp: s1_def ignoring_def RevokeKey_def run_simps run_sql_stmt update_keys_def sample_rows update_rows_def revoked_def sample_key_row_def)
  have "audit_log (db s2) \<noteq> []"
    using s1(2) by (simp add: s2_def Write_def new_entry_def Let_def run_simps run_sql_stmt insert_audit_def strings_TrimSpace_def is_space_def)
  moreover have "tables_ok (db s1) \<and> has_active_admin (db s1)" using concurrent_requests_safe[OF one sample_ok admin] by simp
  then have "tables_ok (db s2) \<and> has_active_admin (db s2) \<and> revoked sample_key (db s2)"
    using concurrent_requests_safe[OF two] s1(1) by blast
  ultimately show ?thesis by blast
qed

end
