(* ===== verification/Response_Bodies.thy ===== *)
theory Response_Bodies
  imports Request_Bodies
begin

text \<open>
  From the values the handlers answer with to the bytes on the wire: the JSON tags of the structs in \<^verbatim>\<open>internal/store\<close> and of the response structs in
  \<^verbatim>\<open>internal/handler\<close>, \<^verbatim>\<open>Time.MarshalJSON\<close> and \<^verbatim>\<open>json.NewEncoder(w).Encode\<close>. Times are instants, printed in UTC; where a
  response echoes an expiry the client gave in another zone, the service prints it in that zone. The message of an error or of a
  deletion preview is prose for a reader and an argument here. The lemmas: every body the service encodes reads back as the value that was encoded. The theorem: the key
  listing a client reads is what the table holds.
\<close>

section \<open>Times\<close>

text \<open>\<^verbatim>\<open>RFC3339Nano\<close>: the fraction without trailing zeros. \<^verbatim>\<open>MarshalJSON\<close> fails outside the years 0 to 9999.\<close>

definition rfc3339nano_text :: "go_time \<Rightarrow> string" where
  "rfc3339nano_text t = butlast (rfc3339_text (rfc3339 t)) @
    (if t mod Second = 0 then [] else ''.'' @ strings_TrimRight (zero_pad 9 (nat (t mod Second))) CHR ''0'') @ ''Z''"

definition json_time :: "go_time \<Rightarrow> json option" where
  "json_time t = (if in_years (rfc3339 t) then Some (Text (rfc3339nano_text t)) else None)"

definition json_time_ptr :: "go_time option \<Rightarrow> json option" where
  "json_time_ptr t = (case t of None \<Rightarrow> Some Null | Some t \<Rightarrow> json_time t)"

section \<open>Structs\<close>

abbreviation json_int :: "int \<Rightarrow> json" where
  "json_int i \<equiv> Number (strconv_Itoa i)"

definition json_texts :: "string list option \<Rightarrow> json" where
  "json_texts v = (case v of None \<Rightarrow> Null | Some ts \<Rightarrow> Array (map Text ts))"

text \<open>\<^verbatim>\<open>omitempty\<close> on a string.\<close>

definition omit_empty :: "string \<Rightarrow> string \<Rightarrow> (string \<times> json) list" where
  "omit_empty name v = (if v = [] then [] else [(name, Text v)])"

definition json_Account :: "Account \<Rightarrow> json option" where
  "json_Account a = do {
     created \<leftarrow> json_time (Acc_CreatedAt a);
     Some (Object [(''id'', Text (Acc_ID a)), (''email'', Text (Acc_Email a)), (''org_name'', Text (Acc_OrgName a)),
       (''status'', Text (Acc_Status a)), (''created_at'', created), (''created_by_operator_id'', Text (Acc_CreatedByOperatorID a))]) }"

text \<open>\<^verbatim>\<open>keyResponse\<close> embeds the key, so its fields come first.\<close>

definition json_keyResponse :: "Key \<Rightarrow> string \<Rightarrow> json option" where
  "json_keyResponse k vis = do {
     created \<leftarrow> json_time (Key_CreatedAt k);
     expires \<leftarrow> json_time_ptr (Key_ExpiresAt k);
     Some (Object [(''id'', Text (Key_ID k)), (''component'', Text (Key_Component k)), (''active'', Boolean (Key_Active k)),
       (''label'', Text (Key_Label k)), (''created_at'', created), (''expires_at'', expires), (''usage_count'', json_int (Key_UsageCount k)),
       (''account_id'', Text (Key_AccountID k)), (''component_visibility'', Text vis)]) }"

definition component_members :: "Component \<Rightarrow> json \<Rightarrow> (string \<times> json) list" where
  "component_members c created = [(''name'', Text (Comp_Name c)), (''visibility'', Text (Comp_Visibility c)),
     (''rpm_series'', json_texts (Comp_RPMSeries c)), (''rpm_os_families'', json_texts (Comp_RPMOSFamilies c)),
     (''rpm_architectures'', json_texts (Comp_RPMArchitectures c)), (''created_at'', created)]"

definition json_Component :: "Component \<Rightarrow> json option" where
  "json_Component c = do { created \<leftarrow> json_time (Comp_CreatedAt c); Some (Object (component_members c created)) }"

definition json_updateComponentResponse :: "Component \<Rightarrow> string list \<Rightarrow> json option" where
  "json_updateComponentResponse c removed = do {
     created \<leftarrow> json_time (Comp_CreatedAt c);
     Some (Object (component_members c created @ [(''rpm_targets_removed'', Array (map Text removed))])) }"

definition json_Operator :: "Operator \<Rightarrow> json option" where
  "json_Operator p = do {
     listed \<leftarrow> json_time (Op_AllowlistedAt p);
     login \<leftarrow> json_time_ptr (Op_LastLoginAt p);
     Some (Object ([(''id'', Text (Op_ID p)), (''email'', Text (Op_Email p)), (''role'', Text (Op_Role p)), (''status'', Text (Op_Status p)),
       (''allowlisted_at'', listed), (''allowlisted_by'', Text (Op_AllowlistedBy p))] @
       (if Op_LastLoginAt p = None then [] else [(''last_login_at'', login)]) @ omit_empty ''github_username'' (Op_GithubUsername p) @
       omit_empty ''microsoft_upn'' (Op_MicrosoftUPN p) @ omit_empty ''first_seen_provider'' (Op_FirstSeenProvider p))) }"

definition json_auditResponseRow :: "Entry \<Rightarrow> json option" where
  "json_auditResponseRow e = do {
     ts \<leftarrow> json_time (Ent_Ts e);
     Some (Object ([(''id'', json_int (Ent_ID e)), (''ts'', ts)] @ omit_empty ''operator_id'' (Ent_OperatorID e) @ [(''action'', Text (Ent_Action e))] @
       omit_empty ''target_type'' (Ent_TargetType e) @ omit_empty ''target_id'' (Ent_TargetID e) @
       (if Ent_Details e = [] then [] else [(''details'', Object (map (apsnd json_of) (sort_key fst (Ent_Details e))))]) @
       omit_empty ''ip'' (Ent_IP e) @ omit_empty ''user_agent'' (Ent_UserAgent e))) }"

text \<open>Errors and the previews of a deletion that is not confirmed, with their messages.\<close>

definition json_apiError :: "string \<Rightarrow> string \<Rightarrow> json" where
  "json_apiError code message = Object [(''code'', Text code), (''message'', Text message)]"

definition json_deleteImpactPreview :: "string \<Rightarrow> int \<Rightarrow> json" where
  "json_deleteImpactPreview message n =
    Object [(''code'', Text ''CONFIRM_REQUIRED''), (''message'', Text message), (''impact'', Object [(''keys_revoked'', json_int n)])]"

definition json_impactDetail :: "int \<Rightarrow> string list option \<Rightarrow> json" where
  "json_impactDetail n series = Object [(''keys_revoked'', json_int n), (''rpm_series_removed'', json_texts series)]"

definition json_deleteImpact :: "string \<Rightarrow> int \<Rightarrow> string list option \<Rightarrow> json" where
  "json_deleteImpact message n series =
    Object [(''code'', Text ''CONFIRM_REQUIRED''), (''message'', Text message), (''impact'', json_impactDetail n series)]"

definition json_deleteResult :: "int \<Rightarrow> json" where
  "json_deleteResult n = Object [(''keys_revoked'', json_int n)]"

text \<open>A slice: one element that fails to encode fails the whole.\<close>

fun json_list :: "('a \<Rightarrow> json option) \<Rightarrow> 'a list \<Rightarrow> json list option" where
  "json_list f [] = Some []"
| "json_list f (x # xs) = do { v \<leftarrow> f x; vs \<leftarrow> json_list f xs; Some (v # vs) }"

definition json_array :: "('a \<Rightarrow> json option) \<Rightarrow> 'a list \<Rightarrow> json option" where
  "json_array f xs = map_option Array (json_list f xs)"

section \<open>Bodies\<close>

text \<open>The JSON value of a response body, if there is one and it can be encoded.\<close>

fun body_json :: "string \<Rightarrow> payload \<Rightarrow> json option" where
  "body_json msg (ApiError code) = Some (json_apiError code msg)"
| "body_json msg (JAccount a) = json_Account a"
| "body_json msg (JAccounts as) = json_array json_Account as"
| "body_json msg (JKey k vis) = json_keyResponse k vis"
| "body_json msg (JKeys ks) = json_array (\<lambda>(k, vis). json_keyResponse k vis) ks"
| "body_json msg (JComponent c) = json_Component c"
| "body_json msg (JComponents cs) = json_array json_Component cs"
| "body_json msg (JComponentUpdate c removed) = json_updateComponentResponse c removed"
| "body_json msg (JOperator p) = json_Operator p"
| "body_json msg (JOperators ps) = json_array json_Operator ps"
| "body_json msg (JEntries es) = json_array json_auditResponseRow es"
| "body_json msg (JDeletePreview n) = Some (json_deleteImpactPreview msg n)"
| "body_json msg (JComponentPreview n series) = Some (json_deleteImpact msg n series)"
| "body_json msg (JKeysRevoked n) = Some (json_deleteResult n)"
| "body_json msg NoBody = None"
| "body_json msg (PlainText t) = None"

text \<open>\<^verbatim>\<open>Encode\<close> writes the value and a line break, or nothing at all when it fails.\<close>

definition Encode :: "string \<Rightarrow> payload \<Rightarrow> string" where
  "Encode msg b = (case body_json msg b of None \<Rightarrow> [] | Some v \<Rightarrow> json_text v @ [CHR 0x0A])"

section \<open>Every body reads back\<close>

definition shallow :: "json \<Rightarrow> bool" where
  "shallow v \<longleftrightarrow> plain v \<and> depth v \<le> 2"

lemma json_time_shape: "json_time t = Some v \<Longrightarrow> plain v \<and> depth v = 0" "json_time_ptr u = Some v \<Longrightarrow> plain v \<and> depth v = 0"
  by (auto simp: json_time_def json_time_ptr_def split: if_splits option.splits)

lemma json_texts_shape [simp]: "plain (json_texts ts)" "depth (json_texts ts) \<le> Suc 0"
  by (auto simp: json_texts_def split: option.split)

lemma omit_empty_shape [simp]: "list_all (\<lambda>(k, v). plain v) (omit_empty n t)" "foldr (\<lambda>(k, v) m. max (depth v) m) (omit_empty n t) x = x"
  by (simp_all add: omit_empty_def)

lemma struct_shallow:
  "json_Account a = Some v \<Longrightarrow> shallow v" "json_keyResponse k vis = Some v \<Longrightarrow> shallow v" "json_Component c = Some v \<Longrightarrow> shallow v"
  "json_updateComponentResponse c removed = Some v \<Longrightarrow> shallow v" "json_Operator p = Some v \<Longrightarrow> shallow v"
  by (auto simp: json_Account_def json_keyResponse_def json_Component_def json_updateComponentResponse_def json_Operator_def component_members_def
      shallow_def dest!: json_time_shape split: bind_splits)

lemma details_depth: "foldr (\<lambda>(k, v) m. max (depth v) m) (map (apsnd json_of) ds) 0 = 0" "list_all (\<lambda>(k, v). plain v) (map (apsnd json_of) ds)"
  by (induction ds) auto

lemma audit_row_shallow: "json_auditResponseRow e = Some v \<Longrightarrow> shallow v"
  by (auto simp: json_auditResponseRow_def shallow_def details_depth dest!: json_time_shape split: bind_splits)

lemma json_list_shallow:
  assumes "\<And>x v. f x = Some v \<Longrightarrow> shallow v"
  shows "json_list f xs = Some vs \<Longrightarrow> list_all shallow vs"
  by (induction xs arbitrary: vs) (auto dest: assms split: bind_splits)

lemma json_array_shape:
  assumes "\<And>x v. f x = Some v \<Longrightarrow> shallow v" "json_array f xs = Some v"
  shows "plain v \<and> depth v \<le> 3"
proof -
  obtain vs where vs: "v = Array vs" "list_all shallow vs" using assms json_list_shallow[of f] by (auto simp: json_array_def)
  have "foldr (\<lambda>v n. max (depth v) n) vs 0 \<le> 2" using vs(2) by (induction vs) (auto simp: shallow_def)
  with vs show ?thesis by (auto simp: shallow_def list_all_iff)
qed

lemma body_shape: "body_json msg b = Some v \<Longrightarrow> plain v \<and> depth v \<le> 3"
  by (cases b) (auto simp: json_apiError_def json_deleteImpactPreview_def json_deleteImpact_def json_impactDetail_def json_deleteResult_def shallow_def
      dest: struct_shallow audit_row_shallow dest!: json_array_shape[rotated])

lemma bodies_read_back: "body_json msg b = Some v \<Longrightarrow> Decode (Encode msg b) = Some v"
  using body_shape[of msg b v]
  by (simp add: Encode_def) (intro Decode_json_text; simp add: maxNestingDepth_def stops_def is_number_char_def is_digit_def)

section \<open>Reading the key listing\<close>

text \<open>A client with the same struct.\<close>

definition set_time :: "((go_time \<Rightarrow> go_time) \<Rightarrow> 'a \<Rightarrow> 'a) \<Rightarrow> json \<Rightarrow> 'a \<Rightarrow> 'a option" where
  "set_time upd v a = (case v of
       Null \<Rightarrow> Some a
     | Text t \<Rightarrow> (case time_Parse t of None \<Rightarrow> None | Some i \<Rightarrow> Some (upd (\<lambda>_. i) a))
     | _ \<Rightarrow> None)"

definition key_fields :: "(string \<times> (json \<Rightarrow> Key \<times> string \<Rightarrow> (Key \<times> string) option)) list" where
  "key_fields = [(''id'', set_text (\<lambda>f. apfst (Key_ID_update f))), (''component'', set_text (\<lambda>f. apfst (Key_Component_update f))),
     (''active'', set_bool (\<lambda>f. apfst (Key_Active_update f))), (''label'', set_text (\<lambda>f. apfst (Key_Label_update f))),
     (''created_at'', set_time (\<lambda>f. apfst (Key_CreatedAt_update f))), (''expires_at'', set_time_ptr (\<lambda>f. apfst (Key_ExpiresAt_update f))),
     (''usage_count'', set_int64 (\<lambda>f. apfst (Key_UsageCount_update f))), (''account_id'', set_text (\<lambda>f. apfst (Key_AccountID_update f))),
     (''component_visibility'', set_text (\<lambda>f. apsnd f))]"

definition decode_keyResponse :: "json \<Rightarrow> (Key \<times> string) option" where
  "decode_keyResponse = decode_struct key_fields (\<lparr>Key_ID = [], Key_Component = [], Key_Active = False, Key_Label = [], Key_CreatedAt = 0,
     Key_ExpiresAt = None, Key_UsageCount = 0, Key_AccountID = []\<rparr>, [])"

lemma nano_seconds: "rfc3339nano_text (parse_rfc3339 c) = rfc3339_text c"
  by (simp add: rfc3339nano_text_def parse_rfc3339_def Second_def rfc3339_def rfc3339_text_def Let_def butlast_append split: prod.split)

text \<open>A row whose times can be written and read, and whose counter is an \<^verbatim>\<open>int64\<close>.\<close>

definition listable :: "key_row \<Rightarrow> bool" where
  "listable q \<longleftrightarrow> readable q \<and> in_years (k_created_at q) \<and> - (2 ^ 63) \<le> k_usage_count q \<and> k_usage_count q < 2 ^ 63"

lemma key_written:
  assumes "listable q"
  shows "\<exists>v. json_keyResponse (read_key q) vis = Some v \<and> decode_keyResponse v = Some (read_key q, vis)"
proof -
  have parse: "time_Parse (rfc3339_text c) = Some (parse_rfc3339 c)" if "in_years c" for c using that by (simp add: time_Parse_rfc3339_text)
  have u: "strconv_Atoi (strconv_Itoa (k_usage_count q)) = Some (k_usage_count q)" using assms by (simp add: Atoi_Itoa listable_def)
  show ?thesis
    using assms u parse[of "k_created_at q"] parse[of "the (k_expires_at q)"]
    by (cases "k_expires_at q")
      (simp_all add: listable_def readable_def json_keyResponse_def json_time_def json_time_ptr_def nano_seconds key_of_row_def
        decode_keyResponse_def decode_struct_def field_of_def key_fields_def set_text_def set_bool_def set_time_def set_time_ptr_def set_int64_def)
qed

lemma keys_written:
  assumes "list_all listable qs"
  shows "\<exists>vs. json_list (\<lambda>(k, vis). json_keyResponse k vis) (map (\<lambda>q. (read_key q, vis q)) qs) = Some vs \<and>
    map decode_keyResponse vs = map (\<lambda>q. Some (read_key q, vis q)) qs"
  using assms
proof (induction qs)
  case (Cons q qs)
  moreover obtain v where "json_keyResponse (read_key q) (vis q) = Some v" "decode_keyResponse v = Some (read_key q, vis q)"
    using key_written[of q "vis q"] Cons.prems by auto
  ultimately show ?case by auto
qed simp

lemma keys_read_back:
  assumes "list_all listable qs"
  shows "\<exists>v. Decode (Encode msg (JKeys (map (\<lambda>q. (read_key q, vis q)) qs))) = Some v \<and>
    decode_list decode_keyResponse v = Some (map (\<lambda>q. (read_key q, vis q)) qs)"
proof -
  obtain vs where vs: "json_list (\<lambda>(k, vis). json_keyResponse k vis) (map (\<lambda>q. (read_key q, vis q)) qs) = Some vs"
      "map decode_keyResponse vs = map (\<lambda>q. Some (read_key q, vis q)) qs"
    using keys_written[OF assms] by blast
  then have "Decode (Encode msg (JKeys (map (\<lambda>q. (read_key q, vis q)) qs))) = Some (Array vs)"
    by (intro bodies_read_back) (simp add: json_array_def)
  moreover have "list_all (\<lambda>w. decode_keyResponse w \<noteq> None) vs" "map (\<lambda>w. the (decode_keyResponse w)) vs = map (\<lambda>q. (read_key q, vis q)) qs"
    using vs(2) by (auto simp: list_all_length list_eq_iff_nth_eq)
  ultimately show ?thesis by (simp add: decode_list_def)
qed

text \<open>The rows of the table a listing request asks for, newest first.\<close>

definition key_rows :: "request \<Rightarrow> tables \<Rightarrow> key_row list" where
  "key_rows r t = sort_key (\<lambda>q. - k_created_at q)
     (filter (\<lambda>q. (query_Get r ''component'' \<noteq> [] \<longrightarrow> k_component q = query_Get r ''component'') \<and>
        (query_Get r ''account'' \<noteq> [] \<longrightarrow> k_account_id q = query_Get r ''account'')) (subscription_key t))"

definition shown :: "(string \<Rightarrow> string) \<Rightarrow> key_row \<Rightarrow> Key \<times> string" where
  "shown vis q = (read_key q, if vis (k_component q) = [] then ''private'' else vis (k_component q))"

lemma sql_page_all_of: "list_all P rows \<Longrightarrow> list_all P (sql_page limit offset rows)"
  by (auto simp: list_all_iff sql_page_def Let_def dest!: in_set_takeD in_set_dropD)

text \<open>
  C23: What a client reads from the key listing is what the table holds. When the rows of the table have writable times and counters in range, a
  listing that is answered 200 has a body of JSON text that parses, and decoding it by the tags of the response struct gives the requested page of the rows that match the
  query, newest first, with every field and the visibility of the component.
\<close>

theorem key_listing_reads_back:
  assumes "list_all listable (subscription_key (db s))" "run_state (Keys_List valid vis r) s = (w, s')" "Status w = 200"
  shows "\<exists>offset limit v. parsePagination r = Inr (offset, limit) \<and> Decode (Encode msg (Body w)) = Some v \<and>
    decode_list decode_keyResponse v = Some (map (shown vis) (sql_page limit offset (key_rows r (db s))))"
proof -
  obtain offset limit where p: "parsePagination r = Inr (offset, limit)"
    using assms(2,3) parsePagination_range[of r] by (auto simp: Keys_List_def Let_def split: if_splits sum.splits)
  have limit: "0 < limit" using parsePagination_range[of r] by (auto simp: p)
  have rows: "list_all listable (key_rows r (db s))" using assms(1) by (auto simp: key_rows_def list_all_iff)
  let ?page = "sql_page (limit + 1) offset (key_rows r (db s))"
  have "list_all readable ?page" using sql_page_all_of[OF rows] by (auto simp: list_all_iff listable_def)
  then have "Body w = JKeys (map (wrapKey vis) (page_of limit (map read_key ?page)))"
    using assms(2,3) p by (auto simp: Keys_List_def Let_def ListKeys_def run_sql_query scanKeys_readable key_rows_def split: if_splits option.splits)
  then have "Body w = JKeys (map (\<lambda>q. (read_key q, snd (shown vis q))) (sql_page limit offset (key_rows r (db s))))"
    by (simp add: page_of_sql_page[OF limit] wrapKey_def shown_def key_of_row_def comp_def)
  moreover have "(\<lambda>q. (read_key q, snd (shown vis q))) = shown vis" by (simp add: shown_def fun_eq_iff)
  ultimately show ?thesis
    using keys_read_back[OF sql_page_all_of[OF rows, of limit offset], where vis = "\<lambda>q. snd (shown vis q)"] p by auto
qed

text \<open>The two sample keys, listed by the sample admin.\<close>

theorem key_listing_reads_back_witness:
  "\<exists>v. Decode (Encode [] (Body (fst (run_state (Keys_List (\<lambda>_. True) (\<lambda>_. []) sample_read) sample)))) = Some v \<and>
     decode_list decode_keyResponse v =
       Some [(read_key (sample_key_row sample_key ''acc-1''), ''private''), (read_key (sample_key_row sample_key2 ''acc-2''), ''private'')]"
proof -
  have q: "query_Get sample_read k = []" for k by (simp add: query_Get_def sample_read_def)
  have p: "parsePagination sample_read = Inr (0, 50)" by (simp add: parsePagination_def q defaultPageLimit_def Let_def)
  have ok: "list_all listable (subscription_key (db sample))"
    by (simp add: sample_rows sample_key_row_def listable_def readable_def in_years_def)
  then have "list_all readable (sql_page 51 0 (key_rows sample_read (db sample)))"
    by (auto simp: list_all_iff listable_def key_rows_def sql_page_def Let_def dest!: in_set_takeD in_set_dropD)
  then have "Status (fst (run_state (Keys_List (\<lambda>_. True) (\<lambda>_. []) sample_read) sample)) = 200"
    by (simp add: Keys_List_def Let_def p ListKeys_def run_sql_query scanKeys_readable key_rows_def)
  from key_listing_reads_back[OF ok surjective_pairing this] show ?thesis
    by (auto simp: p shown_def key_rows_def q sample_rows sample_key_row_def sql_page_def)
qed

end
