(* ===== verification/Accountability.thy ===== *)
theory Accountability
  imports Router Key_Lifecycle
begin

text \<open>
  The audit trail of the admin API: what a mutation of accounts, keys and operators leaves in the audit log when the database answers. The handlers
  of \<^verbatim>\<open>internal/handler\<close> commit through one store operation and then write a row; \<open>recorded\<close> is the judgement that a program
  changes the core only together with a row that names action, operator and target, and \<open>recorded_commit\<close> its rule for such a handler. The
  component handlers have no auditor: their changes leave no row.
\<close>

section \<open>Records of a change\<close>

text \<open>The rows an audit row points at by its type and id of target.\<close>

definition target_rows :: "string \<Rightarrow> string \<Rightarrow> tables \<Rightarrow> account_row list \<times> operator_row list \<times> key_row list" where
  "target_rows ty i t =
    (if ty = ''account'' then filter (\<lambda>q. ac_id q = i) (accounts t) else [],
     if ty = ''operator'' then filter (\<lambda>q. op_id q = i) (operators t) else [],
     if ty = ''key'' then filter (\<lambda>q. k_id q = i) (subscription_key t) else [])"

text \<open>A row of the log that names one of the actions, the acting operator, and a target that the change from \<open>t\<close> to \<open>t'\<close> touched.\<close>

definition records_change :: "string set \<Rightarrow> string \<Rightarrow> tables \<Rightarrow> tables \<Rightarrow> audit_row \<Rightarrow> bool" where
  "records_change acts who t t' q \<longleftrightarrow> au_action q \<in> acts \<and>
     strings_TrimSpace (null_string (au_operator_id q)) = strings_TrimSpace who \<and>
     (let ty = null_string (au_target_type q); i = null_string (au_target_id q) in target_rows ty i t \<noteq> target_rows ty i t')"

definition leaves_record :: "string set \<Rightarrow> string \<Rightarrow> tables \<Rightarrow> tables \<Rightarrow> bool" where
  "leaves_record acts who t t' \<longleftrightarrow> (\<exists>rows q. audit_log t' = audit_log t @ rows \<and> q \<in> set rows \<and> records_change acts who t t' q)"

definition recorded :: "string set \<Rightarrow> string \<Rightarrow> ('z store_scheme, 'a) state \<Rightarrow> bool" where
  "recorded acts who m \<longleftrightarrow> (\<forall>s. db_ok s \<and> (\<forall>n. fault s n = None) \<longrightarrow> core_db (snd (run_state m s)) = core_db s \<or>
     leaves_record acts who (db s) (db (snd (run_state m s))))"

lemma recordedD:
  "recorded acts who m \<Longrightarrow> db_ok s \<Longrightarrow> \<forall>n. fault s n = None \<Longrightarrow> run_state m s = (x, s') \<Longrightarrow> core_db s' \<noteq> core_db s \<Longrightarrow>
   leaves_record acts who (db s) (db s')"
  unfolding recorded_def by (metis snd_conv)

lemma recorded_keeps: "keeps core_db m \<Longrightarrow> recorded acts who m"
  by (simp add: recorded_def keeps_def)

lemma recorded_read:
  assumes "keeps db m" "keeps fault m" "\<And>x. recorded acts who (f x)"
  shows "recorded acts who (m \<bind> f)"
  using assms unfolding recorded_def keeps_def by (auto simp: split: prod.split) (metis snd_conv)+

lemma target_rows_core: "core t = core t' \<Longrightarrow> target_rows ty i t = target_rows ty i t'"
  by (simp add: target_rows_def core_eqD[of t t'])

lemma null_string_nullif [simp]: "null_string (nullif_empty s) = s"
  by (simp add: null_string_def nullif_empty_def)

lemma TrimSpace_Nil: "strings_TrimSpace [] = []"
  by (simp add: strings_TrimSpace_def)

lemma run_Write_recorded:
  assumes "fault s (stmts s) = None" "OperatorFromContext r = Some opr" "oid = [] \<or> oid = AO_ID opr" "strings_TrimSpace act = act" "act \<noteq> []"
    and "run_state (WriteFromRequest r (new_entry oid act ty i ds)) s = (u, s')"
  shows "\<exists>q. audit_log (db s') = audit_log (db s) @ [q] \<and> au_action q = act \<and> au_target_type q = nullif_empty ty \<and> au_target_id q = nullif_empty i \<and>
    strings_TrimSpace (null_string (au_operator_id q)) = strings_TrimSpace (AO_ID opr)"
  using assms
  by (auto simp: WriteFromRequest_def Write_def Let_def run_time_Now run_sql_stmt insert_audit_def fill_entry_def new_entry_def TrimSpace_Nil)

text \<open>A store operation that commits or leaves the tables alone, and a row that names what it touched.\<close>

lemma recorded_commit:
  assumes "keeps fault m" "keeps (\<lambda>s. audit_log (db s)) m"
    and err: "\<And>s e s'. run_state m s = (Inl e, s') \<Longrightarrow> db s' = db s"
    and ch: "\<And>s x s'. db_ok s \<Longrightarrow> run_state m s = (Inr x, s') \<Longrightarrow> core_db s' = core_db s \<or>
      target_rows ty (tid x) (db s) \<noteq> target_rows ty (tid x) (db s')"
    and bad: "\<And>e. keeps core_db (f (Inl e))"
    and good: "\<And>x. f (Inr x) = WriteFromRequest r (new_entry oid act ty (tid x) (ds x)) \<bind> (\<lambda>_. State_Monad.return (resp x))"
    and act: "OperatorFromContext r = Some opr" "oid = [] \<or> oid = AO_ID opr" "strings_TrimSpace act = act" "act \<noteq> []" "act \<in> acts"
  shows "recorded acts (AO_ID opr) (m \<bind> f)"
  unfolding recorded_def
proof (intro allI impI)
  fix s :: "'a store_scheme"
  assume ok: "db_ok s \<and> (\<forall>n. fault s n = None)"
  obtain c s1 where m: "run_state m s = (c, s1)" by fastforce
  have flt: "fault s1 (stmts s1) = None" using keepsD[OF assms(1), of s] m ok by simp
  have log: "audit_log (db s1) = audit_log (db s)" using keepsD[OF assms(2), of s] m by simp
  show "core_db (snd (run_state (m \<bind> f) s)) = core_db s \<or> leaves_record acts (AO_ID opr) (db s) (db (snd (run_state (m \<bind> f) s)))"
  proof (cases c)
    case (Inl e)
    then show ?thesis using keepsD[OF bad, of e s1] err m by simp
  next
    case (Inr x)
    obtain s2 where w: "run_state (WriteFromRequest r (new_entry oid act ty (tid x) (ds x))) s1 = ((), s2)"
      by (cases "run_state (WriteFromRequest r (new_entry oid act ty (tid x) (ds x))) s1") auto
    have core: "core_db s2 = core_db s1" using keepsD[OF core_Write, of r _ s1] w by (metis snd_conv)
    have run: "snd (run_state (m \<bind> f) s) = s2" using m Inr w by (simp add: good)
    show ?thesis
    proof (cases "core_db s1 = core_db s")
      case True
      then show ?thesis using core run by simp
    next
      case False
      then have "target_rows ty (tid x) (db s) \<noteq> target_rows ty (tid x) (db s2)"
        using ch ok m Inr target_rows_core[OF core] by metis
      then show ?thesis
        using run_Write_recorded[OF flt act(1-4) w] log act(5) run by (auto simp: leaves_record_def records_change_def Let_def)
    qed
  qed
qed

section \<open>Store operations\<close>

lemma fault_tx [keep_rules]: "keeps fault body \<Longrightarrow> keeps fault (sql_tx bo co body)"
  by (rule keeps_ext_tx) simp_all

lemma fault_writes [keep_rules]:
  "keeps fault (CreateAccount inp oid)" "keeps fault (DeleteAccountWithCascade i)" "keeps fault (CreateKey i c l ex)" "keeps fault (RevokeKey i)"
  "keeps fault (AllowlistOperator em rl by_op)" "keeps fault (CountActiveAccountKeys i)" "keeps fault (UpdateOperatorAtomically i nr ns)"
  unfolding CreateAccount_def generateAccountID_def DeleteAccountWithCascade_def CreateKey_def RevokeKey_def AllowlistOperator_def
    generateOperatorID_def CountActiveAccountKeys_def UpdateOperatorAtomically_def lockout_guard_def Let_def
  by (auto intro!: keep_rules)

lemmas log_stmt = keeps_table_stmt[where F = audit_log]
  and log_tx = keeps_table_tx[where F = audit_log]

lemma log_ops:
  "keeps (\<lambda>s. audit_log (db s)) (CreateAccount inp oid)" "keeps (\<lambda>s. audit_log (db s)) (UpdateAccount i upd)"
  "keeps (\<lambda>s. audit_log (db s)) (DeleteAccountWithCascade i)" "keeps (\<lambda>s. audit_log (db s)) (CreateKeyForAccount i c l ex)"
  "keeps (\<lambda>s. audit_log (db s)) (RevokeKey i)" "keeps (\<lambda>s. audit_log (db s)) (AllowlistOperator em rl by_op)"
  "keeps (\<lambda>s. audit_log (db s)) (UpdateOperatorAtomically i nr ns)"
  unfolding CreateAccount_def generateAccountID_def UpdateAccount_def DeleteAccountWithCascade_def CreateKeyForAccount_def generateKeyValue_def
    RevokeKey_def AllowlistOperator_def generateOperatorID_def UpdateOperatorAtomically_def lockout_guard_def Let_def
  by (intro keep_rules log_tx log_stmt; auto simp: stmt_defs split: if_splits option.splits)+

lemma update_rows_same: "map g (filter p rs) = filter p rs \<Longrightarrow> update_rows p g rs = rs"
  by (induction rs) (auto split: if_splits)

lemma filter_update_rows: "(\<And>q. p (g q) = p q) \<Longrightarrow> filter p (update_rows p g rs) = map g (filter p rs)"
  by (induction rs) auto

lemma failed_ops:
  "run_state (CreateAccount inp oid) s = (Inl e, s') \<Longrightarrow> db s' = db s"
  "run_state (CreateKeyForAccount i c l ex) s = (Inl e, s') \<Longrightarrow> db s' = db s"
  "run_state (AllowlistOperator em rl by_op) s = (Inl e, s') \<Longrightarrow> db s' = db s"
  by (auto simp: CreateAccount_def generateAccountID_def CreateKeyForAccount_def generateKeyValue_def AllowlistOperator_def
    generateOperatorID_def run_simps run_sql_stmt Let_def split: option.splits sum.splits if_splits prod.splits)

lemma RevokeKey_outcome:
  assumes "run_state (RevokeKey i) s = (x, s')"
  shows "x = Inl e \<Longrightarrow> db s' = db s" "core_db s' = core_db s \<or> target_rows ''key'' i (db s) \<noteq> target_rows ''key'' i (db s')"
proof -
  define g where "g = (\<lambda>q :: key_row. q\<lparr>k_active := 0\<rparr>)"
  define rows where "rows = filter (\<lambda>q. k_id q = i) (subscription_key (db s))"
  have run: "(case fault s (stmts s) of Some m \<Rightarrow> (Inl (Wrapf ''revoke key'' (SqlErr m)), s\<lparr>stmts := Suc (stmts s)\<rparr>)
     | None \<Rightarrow> (if i \<in> k_id ` set (subscription_key (db s)) then Inr () else Inl (Wrapf ''revoke key'' (Sentinel ErrNotFound)),
         s\<lparr>stmts := Suc (stmts s), db := (db s)\<lparr>subscription_key := update_rows (\<lambda>q. k_id q = i) g (subscription_key (db s))\<rparr>\<rparr>)) = (x, s')"
    using assms unfolding run_RevokeKey g_def .
  have same: "map g rows = rows \<Longrightarrow> db s' = db s"
    using run update_rows_same[of g "\<lambda>q. k_id q = i" "subscription_key (db s)"] unfolding rows_def by (auto split: option.splits)
  show "db s' = db s" if "x = Inl e"
  proof (cases "fault s (stmts s)")
    case None
    with run that have "i \<notin> k_id ` set (subscription_key (db s))" by (auto split: if_splits)
    then have "rows = []" by (auto simp: rows_def filter_empty_conv)
    then show ?thesis using same by simp
  qed (use run in auto)
  show "core_db s' = core_db s \<or> target_rows ''key'' i (db s) \<noteq> target_rows ''key'' i (db s')"
  proof (cases "map g rows = rows \<or> fault s (stmts s) \<noteq> None")
    case True
    then have "db s' = db s" using same run by auto
    then show ?thesis by simp
  next
    case False
    then have "subscription_key (db s') = update_rows (\<lambda>q. k_id q = i) g (subscription_key (db s))" using run by auto
    then have "filter (\<lambda>q. k_id q = i) (subscription_key (db s')) = map g rows" unfolding rows_def by (simp add: filter_update_rows g_def)
    then show ?thesis using False by (simp add: target_rows_def rows_def[symmetric]) metis
  qed
qed

lemma created_ops:
  "run_state (CreateAccount inp oid) s = (Inr a, s') \<Longrightarrow> target_rows ''account'' (Acc_ID a) (db s) \<noteq> target_rows ''account'' (Acc_ID a) (db s')"
  "run_state (CreateKeyForAccount i c l ex) s = (Inr k, s') \<Longrightarrow> target_rows ''key'' (Key_ID k) (db s) \<noteq> target_rows ''key'' (Key_ID k) (db s')"
  "run_state (AllowlistOperator em rl by_op) s = (Inr p, s') \<Longrightarrow> target_rows ''operator'' (Op_ID p) (db s) \<noteq> target_rows ''operator'' (Op_ID p) (db s')"
  by (auto simp: CreateAccount_def generateAccountID_def CreateKeyForAccount_def generateKeyValue_def AllowlistOperator_def new_operator_def
    new_operator_row_def generateOperatorID_def run_simps run_sql_stmt Let_def target_rows_def insert_account_def insert_key_def insert_operator_def
    split: option.splits sum.splits if_splits prod.splits)

lemma UpdateAccount_outcome:
  assumes "run_state (UpdateAccount i upd) s = (Inr a, s')"
  shows "core_db s' = core_db s \<or> target_rows ''account'' (Acc_ID a) (db s) \<noteq> target_rows ''account'' (Acc_ID a) (db s')"
proof -
  have a: "Acc_ID a = i" and s': "db s' = (db s)\<lparr>accounts := update_rows (\<lambda>q. ac_id q = i) (apply_account_update upd) (accounts (db s))\<rparr>"
    using assms by (auto simp: UpdateAccount_def run_sql_stmt update_account_def row_result_def dest!: find_Some_set split: option.splits sum.splits if_splits)
  show ?thesis
    using update_rows_same[of "apply_account_update upd" "\<lambda>q. ac_id q = i" "accounts (db s)"]
    by (auto simp: a s' target_rows_def filter_update_rows)
qed

lemma DeleteAccount_outcome:
  assumes "run_state (DeleteAccountWithCascade i) s = (Inr n, s')"
  shows "target_rows ''account'' i (db s) \<noteq> target_rows ''account'' i (db s')"
proof -
  obtain r where r: "r \<in> set (filter (\<lambda>q. ac_id q = i) (accounts (db s)))" "ac_status r \<noteq> ''deleted''"
    and s': "accounts (db s') = update_rows (\<lambda>q. ac_id q = i) (\<lambda>q. q\<lparr>ac_status := ''deleted''\<rparr>) (accounts (db s))"
    using DeleteAccountWithCascade_success[OF assms] by (auto dest: find_Some_set)
  have "map (\<lambda>q. q\<lparr>ac_status := ''deleted''\<rparr>) (filter (\<lambda>q. ac_id q = i) (accounts (db s))) \<noteq> filter (\<lambda>q. ac_id q = i) (accounts (db s))"
    using r by (metis (no_types, lifting) account_row.select_convs(4) account_row.surjective account_row.update_convs(4) in_set_conv_nth length_map nth_map)
  then show ?thesis by (simp add: s' target_rows_def filter_update_rows) metis
qed

section \<open>Handlers\<close>

text \<open>The audit actions an endpoint may write for a change it made.\<close>

fun endpoint_actions :: "endpoint \<Rightarrow> string set" where
  "endpoint_actions E_Accounts_Create = {''account.create''}"
| "endpoint_actions E_Accounts_Update = {''account.update'', ''account.suspend'', ''account.reactivate''}"
| "endpoint_actions E_Accounts_Delete = {''account.delete''}"
| "endpoint_actions E_Accounts_IssueKey = {''key.issue''}"
| "endpoint_actions E_Keys_Create = {''key.issue''}"
| "endpoint_actions E_Keys_Delete = {''key.revoke''}"
| "endpoint_actions E_Operators_Create = {''operator.add''}"
| "endpoint_actions E_Operators_Update = {''operator.role_change'', ''operator.enable'', ''operator.disable''}"
| "endpoint_actions _ = {}"

lemma recorded_return: "recorded acts who (State_Monad.return w)"
  by (simp add: recorded_keeps keeps_return)

lemma trimmed_actions:
  "strings_TrimSpace ''account.create'' = ''account.create''" "strings_TrimSpace ''account.update'' = ''account.update''"
  "strings_TrimSpace ''account.suspend'' = ''account.suspend''" "strings_TrimSpace ''account.reactivate'' = ''account.reactivate''"
  "strings_TrimSpace ''account.delete'' = ''account.delete''" "strings_TrimSpace ''key.issue'' = ''key.issue''"
  "strings_TrimSpace ''key.revoke'' = ''key.revoke''" "strings_TrimSpace ''operator.add'' = ''operator.add''"
  "strings_TrimSpace ''operator.role_change'' = ''operator.role_change''" "strings_TrimSpace ''operator.enable'' = ''operator.enable''"
  "strings_TrimSpace ''operator.disable'' = ''operator.disable''"
  by code_simp+

lemma requireAdmin_context: "requireAdmin r = Inr opr \<Longrightarrow> OperatorFromContext r = Some opr"
  by (auto simp: requireAdmin_def split: option.splits if_splits)

lemma status_change_action: "status_change a st = Inr (target, act) \<Longrightarrow> act \<in> {''account.update'', ''account.suspend'', ''account.reactivate''}"
  by (auto simp: status_change_def split: option.splits if_splits)

lemmas reads_account = recorded_read[OF GetAccount_keeps fault_ops(1)]
  and reads_component = recorded_read[OF GetComponent_keeps fault_ops(2)]

lemma Accounts_Create_recorded:
  assumes "OperatorFromContext r = Some opr"
  shows "recorded {''account.create''} (AO_ID opr) (Accounts_Create body r)"
proof (cases "requireAdmin r")
  case (Inr a)
  then have "a = opr" using assms by (auto dest: requireAdmin_context)
  with Inr assms show ?thesis unfolding Accounts_Create_def
    by (auto split: option.split intro!: recorded_return keep_rules log_ops dest: failed_ops created_ops simp: trimmed_actions
        intro!: recorded_commit[where tid = Acc_ID and r = r and act = "''account.create''" and ty = "''account''" and oid = "AO_ID opr"])
qed (simp add: Accounts_Create_def recorded_return)

lemma Accounts_Update_recorded:
  assumes "OperatorFromContext r = Some opr"
  shows "recorded {''account.update'', ''account.suspend'', ''account.reactivate''} (AO_ID opr) (Accounts_Update body r)"
proof (cases "requireAdmin r")
  case (Inr a)
  then have "a = opr" using assms by (auto dest: requireAdmin_context)
  moreover have "recorded {''account.update'', ''account.suspend'', ''account.reactivate''} (AO_ID opr) (do {
      u \<leftarrow> UpdateAccount i upd;
      case u of Inl e \<Rightarrow> State_Monad.return (account_update_error e)
      | Inr updated \<Rightarrow> do {
          _ \<leftarrow> WriteFromRequest r (new_entry (AO_ID opr) action ''account'' (Acc_ID updated) []);
          State_Monad.return (writeJSON 200 (JAccount updated)) } })"
    if "status_change existing st = Inr (target, action)" for i upd existing st target action
    using assms status_change_action[OF that] UpdateAccount_result[of i upd] UpdateAccount_outcome[of i upd]
    by (intro recorded_commit[where tid = Acc_ID and r = r and act = action and ty = "''account''" and oid = "AO_ID opr"])
      (fastforce intro: keep_rules log_ops simp: trimmed_actions)+
  ultimately show ?thesis using Inr unfolding Accounts_Update_def Let_def
    by (auto intro!: recorded_return reads_account split: sum.split option.split)
qed (simp add: Accounts_Update_def recorded_return)

lemma Accounts_Delete_recorded:
  assumes "OperatorFromContext r = Some opr"
  shows "recorded {''account.delete''} (AO_ID opr) (Accounts_Delete r)"
proof (cases "requireAdmin r")
  case (Inr a)
  then have "a = opr" using assms by (auto dest: requireAdmin_context)
  moreover have "recorded {''account.delete''} (AO_ID opr) (do {
      d \<leftarrow> DeleteAccountWithCascade i;
      case d of Inl e \<Rightarrow> State_Monad.return (account_delete_error e)
      | Inr n \<Rightarrow> do {
          _ \<leftarrow> WriteFromRequest r (new_entry (AO_ID opr) ''account.delete'' ''account'' i [(''keys_revoked'', DInt n)]);
          State_Monad.return (writeJSON 200 (JKeysRevoked n)) } })" for i
    using assms DeleteAccount_outcome[of i] DeleteAccountWithCascade_atomic[of i]
    by (intro recorded_commit[where tid = "\<lambda>_. i" and r = r and act = "''account.delete''" and ty = "''account''" and oid = "AO_ID opr"])
      (auto intro!: keep_rules log_ops simp: trimmed_actions)
  moreover have "recorded {''account.delete''} (AO_ID opr) (do { n \<leftarrow> CountActiveAccountKeys i; State_Monad.return (k n) })" for i k
    by (intro recorded_keeps keeps_core keep_rules)
  ultimately show ?thesis using Inr unfolding Accounts_Delete_def Let_def
    by (auto intro!: recorded_return reads_account split: sum.split)
qed (simp add: Accounts_Delete_def recorded_return)

text \<open>Both ways to issue a key.\<close>

lemma issue_recorded:
  assumes "OperatorFromContext r = Some opr" "oid = [] \<or> oid = AO_ID opr"
  shows "recorded {''key.issue''} (AO_ID opr) (do {
    k \<leftarrow> CreateKeyForAccount i cname lbl ex;
    case k of Inl e \<Rightarrow> State_Monad.return (bad e)
    | Inr key \<Rightarrow> do {
        _ \<leftarrow> WriteFromRequest r (new_entry oid ''key.issue'' ''key'' (Key_ID key) (ds key));
        State_Monad.return (good key) } })"
  using assms by (intro recorded_commit[where tid = Key_ID and r = r and act = "''key.issue''" and ty = "''key''" and oid = oid])
    (auto intro!: keep_rules log_ops simp: trimmed_actions dest: failed_ops created_ops)

lemma Accounts_IssueKey_recorded:
  assumes "OperatorFromContext r = Some opr"
  shows "recorded {''key.issue''} (AO_ID opr) (Accounts_IssueKey vis body r)"
proof (cases "requireAdmin r")
  case (Inr a)
  then have "a = opr" using assms by (auto dest: requireAdmin_context)
  with Inr assms show ?thesis unfolding Accounts_IssueKey_def Let_def
    by (auto intro!: recorded_return reads_account reads_component issue_recorded split: sum.split option.split)
qed (simp add: Accounts_IssueKey_def recorded_return)

lemma Keys_Create_recorded:
  assumes "OperatorFromContext r = Some opr"
  shows "recorded {''key.issue''} (AO_ID opr) (Keys_Create vis body r)"
  using assms unfolding Keys_Create_def CreateKey_def
  by (auto intro!: recorded_return reads_account reads_component issue_recorded split: sum.split option.split)

lemma Keys_Delete_recorded:
  assumes "OperatorFromContext r = Some opr"
  shows "recorded {''key.revoke''} (AO_ID opr) (Keys_Delete r)"
  unfolding Keys_Delete_def Let_def
  using assms by (intro recorded_commit[where tid = "\<lambda>_. URLParam r ''id''" and r = r and act = "''key.revoke''" and ty = "''key''" and oid = "[]"])
    (auto intro!: keep_rules log_ops keeps_core[OF GetByID_keeps] simp: trimmed_actions dest: RevokeKey_outcome)

lemma Operators_Create_recorded:
  assumes "OperatorFromContext r = Some opr"
  shows "recorded {''operator.add''} (AO_ID opr) (Operators_Create body r)"
proof (cases "requireAdmin r")
  case (Inr a)
  then have "a = opr" using assms by (auto dest: requireAdmin_context)
  with Inr assms show ?thesis unfolding Operators_Create_def
    by (auto split: option.split intro!: recorded_return keep_rules log_ops dest: failed_ops created_ops simp: trimmed_actions
        intro!: recorded_commit[where tid = Op_ID and r = r and act = "''operator.add''" and ty = "''operator''" and oid = "AO_ID opr"])
qed (simp add: Operators_Create_def recorded_return)

text \<open>An update of an operator writes a row for each of role and status that changed, so one if the row changed at all.\<close>

lemma set_role_status_same:
  assumes "op_role (set_role_status nr ns q) = op_role q" "op_status (set_role_status nr ns q) = op_status q"
  shows "set_role_status nr ns q = q"
  using assms by (auto simp: set_role_status_def split: option.splits)

lemma UpdateOperator_outcome:
  assumes "db_ok s" "run_state (UpdateOperatorAtomically i nr ns) s = (Inr (before, after), s')" "core_db s' \<noteq> core_db s"
  shows "target_rows ''operator'' i (db s) \<noteq> target_rows ''operator'' i (db s')"
    "nr \<noteq> None \<and> Op_Role before \<noteq> Op_Role after \<or> ns \<noteq> None \<and> Op_Status before \<noteq> Op_Status after"
proof -
  let ?p = "\<lambda>q. op_id q = i" and ?g = "set_role_status nr ns"
  obtain q q' where q: "find ?p (operators (db s)) = Some q" "before = scanOperator q" "find ?p (operators (db s')) = Some q'" "after = scanOperator q'"
    and s': "db s' = (db s)\<lparr>operators := update_rows ?p ?g (operators (db s))\<rparr>"
    using UpdateOperatorAtomically_success[OF assms(2)] by blast
  have ne: "update_rows ?p ?g (operators (db s)) \<noteq> operators (db s)"
    using assms(3) by (auto simp: s')
  then have diff: "map ?g (filter ?p (operators (db s))) \<noteq> filter ?p (operators (db s))" using update_rows_same by metis
  have id: "op_id (?g x) = op_id x" for x by (simp add: set_role_status_def split: option.split)
  show "target_rows ''operator'' i (db s) \<noteq> target_rows ''operator'' i (db s')"
    using diff by (simp add: s' target_rows_def filter_update_rows id)
  have "x = q" if "x \<in> set (operators (db s))" "op_id x = i" for x
    using that q(1) assms(1) by (auto simp: tables_ok_def operators_ok_def dest!: find_Some_set intro: distinct_map_unique)
  then have "map ?g (filter ?p (operators (db s))) = filter ?p (operators (db s))" if "?g q = q" using that by (intro map_idI) auto
  then have "?g q \<noteq> q" using diff by blast
  moreover have "q' = ?g q"
    using q(1,3) find_Some_set[OF q(1)] find_map_update[where key = op_id and g = ?g and k = i and P = ?p, OF id]
    by (simp add: s' update_rows_def)
  ultimately show "nr \<noteq> None \<and> Op_Role before \<noteq> Op_Role after \<or> ns \<noteq> None \<and> Op_Status before \<noteq> Op_Status after"
    using set_role_status_same[of nr ns q] by (auto simp: q set_role_status_def scanOperator_def split: option.splits)
qed

abbreviation operator_actions :: "string set" where
  "operator_actions \<equiv> {''operator.role_change'', ''operator.enable'', ''operator.disable''}"

definition names_operator :: "string \<Rightarrow> string \<Rightarrow> audit_row \<Rightarrow> bool" where
  "names_operator who i q \<longleftrightarrow> au_action q \<in> operator_actions \<and> au_target_type q = Some ''operator'' \<and> au_target_id q = nullif_empty i \<and>
     strings_TrimSpace (null_string (au_operator_id q)) = strings_TrimSpace who"

lemma operator_write:
  assumes "\<forall>n. fault s n = None" "OperatorFromContext r = Some opr" "act \<in> operator_actions"
    and "run_state (WriteFromRequest r (new_entry (AO_ID opr) act ''operator'' i ds)) s = (u, s')"
  shows "\<exists>q. audit_log (db s') = audit_log (db s) @ [q] \<and> names_operator (AO_ID opr) i q"
proof -
  have "strings_TrimSpace act = act" "act \<noteq> []" using assms(3) by (auto simp: trimmed_actions)
  from run_Write_recorded[OF _ assms(2) _ this assms(4)] assms(1,3) show ?thesis
    by (auto simp: names_operator_def nullif_empty_def)
qed

lemma after_update_names:
  fixes s :: "'z store_scheme"
  assumes "\<forall>n. fault s n = None" "OperatorFromContext r = Some opr"
    and "nr \<noteq> None \<and> Op_Role before \<noteq> Op_Role after \<or> ns \<noteq> None \<and> Op_Status before \<noteq> Op_Status after"
    and "run_state (after_operator_update r opr i nr ns before after) s = (u, s')"
  shows "\<exists>rows q. audit_log (db s') = audit_log (db s) @ rows \<and> q \<in> set rows \<and> names_operator (AO_ID opr) i q"
proof -
  define m1 :: "('z store_scheme, unit) state" where "m1 = (if nr \<noteq> None \<and> Op_Role before \<noteq> Op_Role after
    then WriteFromRequest r (new_entry (AO_ID opr) ''operator.role_change'' ''operator'' i [(''from'', DStr (Op_Role before)), (''to'', DStr (Op_Role after))])
    else State_Monad.return ())"
  define m2 :: "('z store_scheme, unit) state" where "m2 = (if ns \<noteq> None \<and> Op_Status before \<noteq> Op_Status after
    then WriteFromRequest r (new_entry (AO_ID opr) (if Op_Status after = OperatorStatusActive then ''operator.enable'' else ''operator.disable'')
      ''operator'' i [(''from'', DStr (Op_Status before)), (''to'', DStr (Op_Status after))])
    else State_Monad.return ())"
  obtain s1 where s1: "run_state m1 s = ((), s1)" by (cases "run_state m1 s") auto
  obtain s2 where s2: "run_state m2 s1 = ((), s2)" by (cases "run_state m2 s1") auto
  have "keeps fault m1" unfolding m1_def by (intro keep_rules)
  then have flt: "\<forall>n. fault s1 n = None" using s1 assms(1) by (metis keepsD snd_conv)
  have "keeps (\<lambda>s. audit_log (db s)) (DeleteOperatorSessions i)"
    unfolding DeleteOperatorSessions_def by (intro keep_rules log_stmt) (auto simp: delete_sessions_def)
  then have log: "audit_log (db s') = audit_log (db s2)"
    using assms(4) s1 s2 unfolding after_operator_update_def Let_def m1_def[symmetric] m2_def[symmetric]
    by (auto split: if_splits prod.splits dest: keeps_run)
  have grows: "\<exists>rows. audit_log (db s2) = audit_log (db s1) @ rows"
    using s2 Write_grows[of _ s1] unfolding m2_def WriteFromRequest_def by (fastforce simp: log_grows_def split: if_splits)
  show ?thesis
  proof (cases "nr \<noteq> None \<and> Op_Role before \<noteq> Op_Role after")
    case True
    then show ?thesis using operator_write[OF assms(1,2), of "''operator.role_change''"] s1 grows log unfolding m1_def by fastforce
  next
    case False
    then have "s1 = s" "ns \<noteq> None \<and> Op_Status before \<noteq> Op_Status after" using s1 assms(3) by (auto simp: m1_def)
    then show ?thesis
      using operator_write[OF flt assms(2), of "if Op_Status after = OperatorStatusActive then ''operator.enable'' else ''operator.disable''"] s2 log
      unfolding m2_def by fastforce
  qed
qed

lemma update_operator_recorded:
  assumes "OperatorFromContext r = Some opr"
  shows "recorded operator_actions (AO_ID opr) (do {
      u \<leftarrow> UpdateOperatorAtomically i nr ns;
      case u of Inl e \<Rightarrow> State_Monad.return (operator_update_error e)
      | Inr (before, after) \<Rightarrow> do {
          _ \<leftarrow> after_operator_update r opr i nr ns before after;
          State_Monad.return (writeJSON 200 (JOperator after)) } } :: ('z store_scheme, response) state)" (is "recorded _ _ ?m")
  unfolding recorded_def
proof (intro allI impI)
  fix s :: "'z store_scheme"
  assume ok: "db_ok s \<and> (\<forall>n. fault s n = None)"
  obtain u s1 where u: "run_state (UpdateOperatorAtomically i nr ns) s = (u, s1)" by fastforce
  have flt: "\<forall>n. fault s1 n = None" using ok keeps_run[OF fault_writes(7) u] by simp
  have log: "audit_log (db s1) = audit_log (db s)" using keeps_run[OF log_ops(7) u] .
  show "core_db (snd (run_state ?m s)) = core_db s \<or> leaves_record operator_actions (AO_ID opr) (db s) (db (snd (run_state ?m s)))"
  proof (cases u)
    case (Inl e)
    then show ?thesis using UpdateOperatorAtomically_error[OF u[unfolded Inl]] u by simp
  next
    case (Inr ba)
    obtain before after where ba: "ba = (before, after)" by fastforce
    obtain s2 where s2: "run_state (after_operator_update r opr i nr ns before after) s1 = ((), s2)"
      by (cases "run_state (after_operator_update r opr i nr ns before after) s1") auto
    have run: "snd (run_state ?m s) = s2" using u Inr ba s2 by simp
    have "keeps core_db (after_operator_update r opr i nr ns before after :: ('z store_scheme, unit) state)"
      unfolding after_operator_update_def Let_def by (intro keep_rules)
    then have core: "core_db s2 = core_db s1" using s2 by (metis keepsD snd_conv)
    show ?thesis
    proof (cases "core_db s1 = core_db s")
      case False
      note out = UpdateOperator_outcome[OF _ u[unfolded Inr ba] False]
      obtain rows x where x: "audit_log (db s2) = audit_log (db s) @ rows" "x \<in> set rows" "names_operator (AO_ID opr) i x"
        using after_update_names[OF flt assms out(2) s2] ok log by auto
      have "target_rows ''operator'' i (db s) \<noteq> target_rows ''operator'' i (db s2)"
        using out(1) ok target_rows_core[OF core] by simp
      then have "records_change operator_actions (AO_ID opr) (db s) (db s2) x"
        using x(3) by (simp add: records_change_def names_operator_def Let_def) (simp add: null_string_def)
      then show ?thesis using x(1,2) unfolding run leaves_record_def by blast
    qed (use core run in simp)
  qed
qed

lemma Operators_Update_recorded:
  assumes "OperatorFromContext r = Some opr"
  shows "recorded operator_actions (AO_ID opr) (Operators_Update body r)"
proof (cases "requireAdmin r")
  case (Inr a)
  then have "a = opr" using assms by (auto dest: requireAdmin_context)
  with Inr update_operator_recorded[OF assms] show ?thesis unfolding Operators_Update_def Let_def
    by (auto intro!: recorded_return split: option.split)
qed (simp add: Operators_Update_def recorded_return)

section \<open>The whole request\<close>

definition administers_components :: "endpoint \<Rightarrow> bool" where
  "administers_components e \<longleftrightarrow> e \<in> {E_Components_Create, E_Components_Update, E_Components_Delete}"

lemma api_recorded:
  assumes "\<not> public_endpoint e" "\<not> administers_components e" "OperatorFromContext r = Some opr"
  shows "recorded (endpoint_actions e) (AO_ID opr) (api_handler cfg e r)"
proof (cases "endpoint_method e \<in> {None, Some ''GET''} \<or> e = E_Logout")
  case True
  then show ?thesis using assms(1) by (intro recorded_keeps read_endpoints)
next
  case False
  then show ?thesis using assms
    by (cases e) (simp_all add: administers_components_def public_endpoint_def Accounts_Create_recorded Accounts_Update_recorded Accounts_Delete_recorded
        Accounts_IssueKey_recorded Keys_Create_recorded Keys_Delete_recorded Operators_Create_recorded Operators_Update_recorded)
qed

lemma log_touch: "keeps (\<lambda>s. audit_log (db s)) (touch_if_accepted i t w)"
  unfolding touch_if_accepted_def TouchSession_def
  by (auto intro!: keep_rules log_stmt simp: update_sessions_def)

lemma fault_session:
  "keeps fault (touch_if_accepted i t w)" "(\<And>r. keeps fault (h r)) \<Longrightarrow> keeps fault (RequireSession h r)"
  unfolding RequireSession_def touch_if_accepted_def TouchSession_def drop_session_def DeleteSession_def GetSession_def GetOperator_def Let_def
  by (intro keep_rules; auto)+

text \<open>The state in which an admitted request reaches its handler has the tables and the fault schedule of the request.\<close>

lemma admitted_fault:
  assumes "\<And>next. run_state (RequireSession next r) s =
    run_state (do { w \<leftarrow> next (WithOperator r (context_operator p)); touch_if_accepted i t w }) s1"
  shows "fault s1 = fault s"
proof -
  have "keeps fault (RequireSession (\<lambda>_. State_Monad.return w) r)" for w by (intro fault_session keep_rules)
  from keepsD[OF this, of "status_only 200" s] keepsD[OF fault_session(1), of i t "status_only 200" s1] show ?thesis
    by (simp add: assms)
qed

text \<open>The component handlers have no auditor.\<close>

lemma keeps_audit_log: "keeps db m \<Longrightarrow> keeps (\<lambda>s. audit_log (db s)) m"
  by (simp add: keeps_def)

lemma component_changes_unrecorded:
  "keeps (\<lambda>s :: service. audit_log (db s)) (Components_Create root_dir bc r)"
  "keeps (\<lambda>s :: service. audit_log (db s)) (Components_Update root_dir bp r)" "keeps (\<lambda>s :: service. audit_log (db s)) (Components_Delete r)"
proof -
  have evict: "keeps (\<lambda>s :: service. audit_log (db s)) (cache_evict i)" for i
    by (rule keeps_audit_log) (rule keep_rules)
  have store: "keeps (\<lambda>s. audit_log (db s)) (CreateComponent c)" "keeps (\<lambda>s. audit_log (db s)) (UpdateComponent i patch)"
    "keeps (\<lambda>s. audit_log (db s)) (DeleteComponent i)" "keeps (\<lambda>s. audit_log (db s)) (DeleteComponentWithRevoke i)" for c i patch
    unfolding CreateComponent_def UpdateComponent_def DeleteComponent_def DeleteComponentWithRevoke_def Let_def
    by (intro keep_rules log_tx log_stmt; auto simp: stmt_defs split: if_splits option.splits)+
  have cached: "keeps (\<lambda>s :: service. audit_log (db s)) (Cached_UpdateComponent i patch)"
    "keeps (\<lambda>s :: service. audit_log (db s)) (Cached_DeleteComponent i)"
    "keeps (\<lambda>s :: service. audit_log (db s)) (Cached_DeleteComponentWithRevoke i)" for i patch
    unfolding Cached_UpdateComponent_def Cached_DeleteComponent_def Cached_DeleteComponentWithRevoke_def evict_on_success_def
    by (intro keep_rules store evict)+
  show "keeps (\<lambda>s :: service. audit_log (db s)) (Components_Create root_dir bc r)"
    "keeps (\<lambda>s :: service. audit_log (db s)) (Components_Update root_dir bp r)" "keeps (\<lambda>s :: service. audit_log (db s)) (Components_Delete r)"
    unfolding Components_Create_def Components_Update_def Components_Delete_def
    by (intro keep_rules store cached keeps_audit_log[OF initRPMTree_keeps(1)] keeps_audit_log[OF Cached_GetComponent_keeps]
      keeps_audit_log[OF CountActiveComponentKeys_keeps])+
qed

end
