(* ===== verification/Account_Deletion.thy ===== *)
theory Account_Deletion
  imports Service_Cache Key_Lifecycle
begin

text \<open>
  What becomes of a deleted account. The store's \<^verbatim>\<open>UPDATE accounts\<close> does not look at the status; it is the handler that refuses to patch a deleted account,
  by looking the account up first. So as long as requests are served one after the other, deletion is final, which is what the contract \<open>request_invariant\<close> of
  \<open>Router\<close> is for. The handler reads the request body between its lookup and its update: a patch whose body arrives after the account was
  deleted in the meantime brings the account back.
\<close>

definition deleted_account :: "string \<Rightarrow> tables \<Rightarrow> bool" where
  "deleted_account i t \<longleftrightarrow> i \<in> ac_id ` set (accounts t) \<and> (\<forall>a \<in> set (accounts t). ac_id a = i \<longrightarrow> ac_status a = ''deleted'')"

section \<open>One request after the other\<close>

lemma deleted_update:
  assumes "\<And>q. ac_id (f q) = ac_id q" "j = i \<Longrightarrow> (\<And>q. ac_status (f q) = ''deleted'')"
  shows "stmt_keeps (deleted_account i) (update_account j f)"
proof (rule stmt_keepsI)
  fix t a t'
  assume d: "deleted_account i t" and u: "update_account j f t = Inr (a, t')"
  have "accounts t' = accounts t \<or> accounts t' = update_rows (\<lambda>q. ac_id q = j) f (accounts t)"
    using u by (auto simp: update_account_def split: option.splits if_splits)
  moreover have "map ac_id (update_rows (\<lambda>q. ac_id q = j) f (accounts t)) = map ac_id (accounts t)"
    using assms(1) by (rule map_update_rows)
  ultimately have "ac_id ` set (accounts t') = ac_id ` set (accounts t)" by (metis set_map)
  with d \<open>accounts t' = accounts t \<or> _\<close> show "deleted_account i t'"
    using assms by (auto simp: deleted_account_def update_rows_set)
qed

interpretation deletion: base_invariant "deleted_account i0" for i0
proof unfold_locales
  show "stmt_keeps (deleted_account i0) (update_account i (\<lambda>q. q\<lparr>ac_status := ''deleted''\<rparr>))" for i
    by (rule deleted_update) simp_all
qed (auto simp: stmt_keeps_def stmt_defs deleted_account_def split: if_splits option.splits)

lemma deleted_lookup:
  assumes "deleted_account i (db s)"
  shows "isl (fst (run_state (GetAccount i) s))"
proof -
  have "ac_status q = ''deleted''" if "find (\<lambda>q. ac_id q = i) (accounts (db s)) = Some q" for q
    using find_Some_set[OF that] assms by (auto simp: deleted_account_def)
  then show ?thesis by (auto simp: run_GetAccount split: option.split)
qed

lemma deleted_not_patched: "preserves (\<lambda>s. deleted_account i (db s)) (Accounts_Update body r)"
proof (cases "URLParam r ''id'' = i")
  case True
  show ?thesis
  proof (rule preservesI)
    fix s :: "'a store_scheme"
    assume d: "deleted_account i (db s)"
    obtain e s1 where g: "run_state (GetAccount i) s = (Inl e, s1)"
      using deleted_lookup[OF d] by (cases "run_state (GetAccount i) s"; cases "fst (run_state (GetAccount i) s)") auto
    have "db s1 = db s" using keeps_run[OF GetAccount_keeps g] .
    then show "deleted_account i (db (snd (run_state (Accounts_Update body r) s)))"
      using d g True by (simp add: Accounts_Update_def Let_def split: sum.split)
  qed
next
  case False
  have "preserves (\<lambda>s. deleted_account i (db s)) (UpdateAccount (URLParam r ''id'') upd)" for upd
    unfolding UpdateAccount_def using False by (intro pres_rules deleted_update) simp_all
  then show ?thesis
    unfolding Accounts_Update_def WriteFromRequest_def Let_def by (intro pres_rules deletion.base_ops keeps_preserves[OF GetAccount_keeps])
qed

interpretation deleted: request_invariant "deleted_account i0" for i0
proof unfold_locales
  have "stmt_keeps (deleted_account i0) (update_operators P g)" for P g
    by (auto simp: stmt_keeps_def update_operators_def deleted_account_def split: if_splits)
  then show "preserves (\<lambda>s :: service. deleted_account i0 (db s)) (UpdateOperatorAtomically i nr ns)" for i nr ns
    unfolding UpdateOperatorAtomically_def lockout_guard_def by (intro pres_rules)
qed (rule deletion.base_ops deleted_not_patched)+


lemma deleted_not_entitled:
  assumes "deleted_account (k_account_id k) t" "k \<in> set (subscription_key t)" "distinct (map k_id (subscription_key t))"
  shows "\<not> entitled t (k_id k) c"
proof
  assume "entitled t (k_id k) c"
  then obtain k' a where "k' \<in> set (subscription_key t)" "k_id k' = k_id k" "a \<in> set (accounts t)" "ac_id a = k_account_id k'" "ac_status a = ''active''"
    unfolding entitled_def by blast
  moreover from this have "k' = k" using assms(2,3) by (metis distinct_map_unique)
  ultimately show False using assms(1) by (auto simp: deleted_account_def)
qed


section \<open>A patch and a deletion at the same time\<close>

text \<open>What \<^verbatim>\<open>Update\<close> does once it has looked the account up: it reads the body, then updates the row it names.\<close>

definition patch_found :: "auth_Operator \<Rightarrow> Account \<Rightarrow> updateAccountRequest option \<Rightarrow> 'z store_scheme handler" where
  "patch_found opr existing body r = (case body of
       None \<Rightarrow> State_Monad.return (writeError 400 ''INVALID_REQUEST'')
     | Some req \<Rightarrow> (case status_change existing (uar_Status req) of
         Inl w \<Rightarrow> State_Monad.return w
       | Inr (target, action) \<Rightarrow> do {
           u \<leftarrow> UpdateAccount (URLParam r ''id'') \<lparr>Upd_Email = uar_Email req, Upd_OrgName = uar_OrgName req, Upd_Status = target\<rparr>;
           case u of
             Inl e \<Rightarrow> State_Monad.return (account_update_error e)
           | Inr updated \<Rightarrow> do {
               _ \<leftarrow> WriteFromRequest r (new_entry (AO_ID opr) action ''account'' (Acc_ID updated) []);
               State_Monad.return (writeJSON 200 (JAccount updated)) } }))"

lemma Accounts_Update_steps:
  "Accounts_Update body r = (case requireAdmin r of
       Inl w \<Rightarrow> State_Monad.return w
     | Inr opr \<Rightarrow> do {
         g \<leftarrow> GetAccount (URLParam r ''id'');
         case g of Inl e \<Rightarrow> State_Monad.return (account_get_error e) | Inr existing \<Rightarrow> patch_found opr existing body r })"
  unfolding Accounts_Update_def patch_found_def Let_def ..

text \<open>
  A patch to active or suspended, of an account looked up before it was deleted and updated after: answered 200, and the account is not deleted any more.
\<close>

lemma late_patch_revives:
  assumes "accounts_ok (accounts (db s))" "a \<in> set (accounts (db s))" "ac_id a = URLParam r ''id''" "\<forall>n. fault s n = None"
    and "Acc_Status existing \<noteq> ''deleted''" "st = ''active'' \<or> st = ''suspended''" "ac_id a \<noteq> legacyAccountID"
    and "run_state (patch_found opr existing (Some \<lparr>uar_Email = None, uar_OrgName = None, uar_Status = Some st\<rparr>) r) s = (w, s')"
  shows "Status w = 200 \<and> a\<lparr>ac_status := st\<rparr> \<in> set (accounts (db s'))"
proof -
  let ?i = "URLParam r ''id''" and ?upd = "\<lparr>Upd_Email = None, Upd_OrgName = None, Upd_Status = Some st\<rparr>"
  have new: "apply_account_update ?upd q = q\<lparr>ac_status := st\<rparr>" for q by (simp add: apply_account_update_def coalesce_def)
  have find: "find (\<lambda>q. ac_id q = ?i) (accounts (db s)) = Some a"
    using assms(1-3) by (simp add: accounts_ok_def find_key_iff)
  have "ac_email a \<notin> ac_email ` {q \<in> set (accounts (db s)). ac_id q \<noteq> ac_id a}"
    using assms(1,2) by (auto simp: accounts_ok_def dest: distinct_map_unique)
  moreover have "account_check (a\<lparr>ac_status := st\<rparr>)"
    using assms(1,2,6) by (auto simp: accounts_ok_def list_all_iff account_check_def account_status_check_def)
  ultimately have "isl (fst (run_state (UpdateAccount ?i ?upd) s)) = False"
    using find assms(3,4,6,7) by (auto simp: UpdateAccount_def status_defs run_sql_stmt update_account_def new row_result_def)
  then obtain b s1 where u: "run_state (UpdateAccount ?i ?upd) s = (Inr b, s1)"
    by (cases "run_state (UpdateAccount ?i ?upd) s"; cases "fst (run_state (UpdateAccount ?i ?upd) s)") auto
  obtain action where c: "status_change existing (Some st) = Inr (Some st, action)"
    using assms(5,6) by (auto simp: status_change_def status_defs)
  have "Status w = 200" "unaudited_db s' = unaudited_db s1"
    using assms(8) u c keepsD[OF unaudited_WriteFromRequest, of r "new_entry (AO_ID opr) action ''account'' (Acc_ID b) []" s1]
    by (auto simp: patch_found_def split: prod.splits)
  moreover have "a\<lparr>ac_status := st\<rparr> \<in> set (accounts (db s1))"
    using UpdateAccount_result[OF u] assms(2,3) by (force simp: new update_rows_set)
  ultimately show ?thesis using unaudited_eqD(1) by metis
qed

section \<open>Instances\<close>

definition sample_closed :: service where
  "sample_closed = sample_service\<lparr>db := sample_tables\<lparr>accounts := update_rows (\<lambda>q. ac_id q = ''acc-1'')
     (\<lambda>q. q\<lparr>ac_status := ''deleted''\<rparr>) (accounts sample_tables)\<rparr>\<rparr>"

lemma sample_closed_ok: "db_ok sample_closed"
proof -
  have "update_account ''acc-1'' (\<lambda>q. q\<lparr>ac_status := ''deleted''\<rparr>) sample_tables =
      Inr (map_option (\<lambda>q. q\<lparr>ac_status := ''deleted''\<rparr>) (find (\<lambda>q. ac_id q = ''acc-1'') (accounts sample_tables)), db sample_closed)"
    by (auto simp: update_account_def sample_closed_def sample_rows sample_account_def account_check_def account_status_check_def
      email_check_def sql_lower_def ascii_lower_def sql_like_percent sql_like_email)
  moreover have "stmt_keeps tables_ok (update_account ''acc-1'' (\<lambda>q. q\<lparr>ac_status := ''deleted''\<rparr>))"
    by (rule update_account_ok) (simp_all add: legacyAccountID_def)
  ultimately show ?thesis using sample_ok by (auto simp: stmt_keeps_def)
qed


end
