(* ===== verification/Spec2Isabelle.thy ===== *)
theory Spec2Isabelle
  imports Startup Migration Key_Expiry Service_Cache Interleaving Response_Bodies Accountability Account_Deletion
begin

text \<open>
  Verification of packyard-auth, the authorisation and administration service of packyard (\<^verbatim>\<open>src/auth\<close>).

  \<^bold>\<open>The program.\<close> Traefik asks the service before it serves a package (\<^verbatim>\<open>GET /auth\<close>); operators administer accounts, keys, components and
  operators through a JSON API behind an OAuth login (\<^verbatim>\<open>/api/v1\<close>); an embedded page (\<^verbatim>\<open>/admin\<close>) uses that API. The process is
  \<^verbatim>\<open>cmd/server/main.go\<close>: it opens a SQLite file (\<^verbatim>\<open>internal/store\<close>), reads its environment, and serves the handlers of \<^verbatim>\<open>internal/handler\<close> behind
  the middleware of \<^verbatim>\<open>internal/middleware\<close>, with the OAuth providers of \<^verbatim>\<open>internal/auth\<close>, an audit log, a component cache and a rate limiter. All
  of this is modelled; a request is modelled from the bytes of its body to the value of its response, and the start from the database file to the first request.

  \<^bold>\<open>How Go is modelled.\<close> A struct is a record, an enumeration of constants a string with the constants, an error a value of \<^verbatim>\<open>goerr\<close> that \<^verbatim>\<open>errors.Is\<close> looks through,
  and a method that reads the clock, draws entropy or runs SQL a program of the state monad (\<^verbatim>\<open>Prelude\<close>, \<^verbatim>\<open>Go_Runtime\<close>). The state grows with the components:
  \<^verbatim>\<open>env\<close> (clock readings, entropy, the schedule of failing statements), \<^verbatim>\<open>store\<close> (the tables), \<^verbatim>\<open>metered\<close> (\<^verbatim>\<open>Metrics\<close>), \<^verbatim>\<open>cached\<close> (\<^verbatim>\<open>Cached_Components\<close>),
  \<^verbatim>\<open>limited\<close> (\<^verbatim>\<open>Rate_Limit\<close>), \<^verbatim>\<open>fs\<close> (\<^verbatim>\<open>Components_Handler\<close>), \<^verbatim>\<open>service\<close> (\<^verbatim>\<open>OAuth_State\<close>). All functions are total; the recursive ones end by
  structure or by a bound that is shown to suffice.

  \<^bold>\<open>Theories and sources.\<close>
  \<^item> Language and library: \<^verbatim>\<open>Go_Runtime\<close> (strings, numbers, time, entropy), \<^verbatim>\<open>Rfc3339\<close> (timestamps as text), \<^verbatim>\<open>Http\<close> and \<^verbatim>\<open>Net_Url\<close> (requests, responses, URLs, addresses),
  \<^verbatim>\<open>Json\<close>, \<^verbatim>\<open>Json_Text\<close> (decoder and encoder), \<^verbatim>\<open>Http_Client\<close> (outgoing requests), \<^verbatim>\<open>Pkce\<close> (SHA-256 and base64 of the PKCE challenge).
  \<^item> Store: \<^verbatim>\<open>Store_Types\<close> (\<^verbatim>\<open>store.go\<close>, \<^verbatim>\<open>errors.go\<close>, \<^verbatim>\<open>email.go\<close>), \<^verbatim>\<open>Sql_Schema\<close> (schema, statements and transactions of \<^verbatim>\<open>sqlite.go\<close>), \<^verbatim>\<open>Store_Keys\<close>, \<^verbatim>\<open>Store_Accounts\<close>,
  \<^verbatim>\<open>Store_Operators\<close>, \<^verbatim>\<open>Store_Sessions\<close>, \<^verbatim>\<open>Store_Components\<close>, \<^verbatim>\<open>Store_Audit\<close> (one per file or half of \<^verbatim>\<open>sqlite.go\<close>), \<^verbatim>\<open>Cached_Components\<close> (\<^verbatim>\<open>cached_components.go\<close>), \<^verbatim>\<open>Migration\<close>
  (\<^verbatim>\<open>NewSQLiteStore\<close> and its migrations), \<^verbatim>\<open>Metrics\<close> (\<^verbatim>\<open>internal/metrics\<close>), \<^verbatim>\<open>Audit_Log\<close> (\<^verbatim>\<open>internal/audit\<close>).
  \<^item> Handlers: \<^verbatim>\<open>Forward_Auth\<close>, \<^verbatim>\<open>Accounts_Handler\<close>, \<^verbatim>\<open>Keys_Handler\<close>, \<^verbatim>\<open>Operators_Handler\<close>, \<^verbatim>\<open>Components_Handler\<close> with \<^verbatim>\<open>Rpm_Tree\<close>, \<^verbatim>\<open>Audit_Handler\<close>, \<^verbatim>\<open>Auth_Handler\<close> with
  \<^verbatim>\<open>Login_Flow\<close>, \<^verbatim>\<open>Pagination\<close>, \<^verbatim>\<open>Request_Bodies\<close> and \<^verbatim>\<open>Response_Bodies\<close> (the structs and JSON tags of \<^verbatim>\<open>internal/handler\<close>), \<^verbatim>\<open>Admin_UI\<close> (\<^verbatim>\<open>internal/adminui\<close>, \<^verbatim>\<open>csp.go\<close>).
  \<^item> Middleware: \<^verbatim>\<open>Session_Middleware\<close>, \<^verbatim>\<open>Role_Middleware\<close>, \<^verbatim>\<open>Csrf\<close>, \<^verbatim>\<open>Rate_Limit\<close> and \<^verbatim>\<open>Rate_Limit_Middleware\<close>, \<^verbatim>\<open>Logging\<close> (\<^verbatim>\<open>logging.go\<close>, \<^verbatim>\<open>logsafe.go\<close>).
  \<^item> Login: \<^verbatim>\<open>OAuth_State\<close> (\<^verbatim>\<open>state.go\<close>, \<^verbatim>\<open>oauth.go\<close>), \<^verbatim>\<open>Github_Provider\<close>, \<^verbatim>\<open>Microsoft_Provider\<close>.
  \<^item> The process: \<^verbatim>\<open>Routes\<close> and \<^verbatim>\<open>Router\<close> (the route table and the wiring of \<^verbatim>\<open>main.go\<close>), \<^verbatim>\<open>Startup\<close> (\<^verbatim>\<open>config.go\<close> and the rest of \<^verbatim>\<open>main\<close>).
  \<^item> Across components: \<^verbatim>\<open>Service_Frame\<close> (what the operations leave alone), \<^verbatim>\<open>Key_Lifecycle\<close>, \<^verbatim>\<open>Key_Expiry\<close>, \<^verbatim>\<open>Service_Cache\<close>, \<^verbatim>\<open>Interleaving\<close>, \<^verbatim>\<open>Accountability\<close>, \<^verbatim>\<open>Account_Deletion\<close>, and this theory.
  \<^verbatim>\<open>Sample_State\<close> and the definitions named \<^verbatim>\<open>sample_...\<close> are the concrete inputs of the witnesses.

  \<^bold>\<open>Contracts.\<close> \<^verbatim>\<open>guard\<close> (theory \<^verbatim>\<open>Guard\<close>) is what a middleware promises its handler; the session, role, cross-site and rate-limit middleware interpret it. \<^verbatim>\<open>component_source\<close>
  (\<^verbatim>\<open>Forward_Auth\<close>) is what forward-auth asks of a component store; SQLite and the cache interpret it. \<^verbatim>\<open>state_store\<close> (\<^verbatim>\<open>OAuth_State\<close>) is the one-time store of pending logins.
  In \<^verbatim>\<open>Router\<close>, \<^verbatim>\<open>base_invariant\<close>, \<^verbatim>\<open>stmt_invariant\<close> and \<^verbatim>\<open>row_invariant\<close> (single statements), \<^verbatim>\<open>op_invariant\<close> and its extensions \<^verbatim>\<open>store_invariant\<close> (store operations) and \<^verbatim>\<open>request_invariant\<close>
  (the account patch as one handler), and \<^verbatim>\<open>service_invariant\<close> lead from statements to store operations to every handler and every run of the service:
  a table property kept by each statement is kept by the process. They are interpreted for the append-only log, revoked keys, deleted accounts, the schema with an active admin,
  unreadable expiries, interleaved operations and the coherence of the cache.

  \<^bold>\<open>What is shown.\<close> Access: forward-auth answers 200 exactly when the tables grant the read, also through the cache in a running service, and fails
  closed (\<^verbatim>\<open>Forward_Auth\<close>, \<^verbatim>\<open>Service_Cache\<close>). Administration: only admins in a live session of the admin site change anything, each change of accounts, keys and operators is on record, a
  malformed body changes nothing, and suspension, deletion, revocation and disabling take effect at once (this theory, \<^verbatim>\<open>Accountability\<close>, \<^verbatim>\<open>Key_Lifecycle\<close>). State: schema and an active
  admin persist in every run and every interleaving of store operations, the log only grows, revocation is final (this theory, \<^verbatim>\<open>Interleaving\<close>), and so is the deletion of an account while requests run one after the other, but not
  against a patch in flight (\<^verbatim>\<open>Account_Deletion\<close>); cache entries are current in every interleaving of cache steps
  (\<^verbatim>\<open>Cached_Components\<close>). Login: a session is opened only for a pending flow of this browser and an identity a configured provider vouched for, once per
  flow (\<^verbatim>\<open>Login_Flow\<close>, \<^verbatim>\<open>Startup\<close>, the providers). Opening a file loses no key and is repeatable (\<^verbatim>\<open>Migration\<close>); a start never panics (\<^verbatim>\<open>Startup\<close>). Texts: request and
  response bodies read back (\<^verbatim>\<open>Request_Bodies\<close>, \<^verbatim>\<open>Response_Bodies\<close>), timestamps parse back and compare as instants in the years 0 to 9999 (\<^verbatim>\<open>Rfc3339\<close>); outside these years the code
  misbehaves, which is shown as well (\<^verbatim>\<open>Key_Expiry\<close>, \<^verbatim>\<open>Audit_Handler\<close>). Bounds: the rate limiter admits at most capacity plus refill (\<^verbatim>\<open>Rate_Limit\<close>); RPM trees stay under the data root (\<^verbatim>\<open>Rpm_Tree\<close>).

  \<^bold>\<open>Arguments and bounds.\<close> The router \<^verbatim>\<open>chi\<close> is an argument of type \<open>matcher\<close>; what is used of it is \<open>matches_routes\<close>, which \<open>first_match\<close> satisfies. The network, the built
  admin files with \<^verbatim>\<open>http.ServeContent\<close>, the mail address parser, the process environment and the floating-point product inside \<^verbatim>\<open>time.ParseDuration\<close> are arguments. The JSON parser runs on
  a bound of twice the length of the text plus two calls, and the loop of \<^verbatim>\<open>ParseDuration\<close> on the length of the text; both are shown to be enough, since each call consumes a
  character. Failures are a schedule: any statement may fail with any driver error.

  \<^bold>\<open>Simplifications.\<close> Rate-limit tokens are real numbers instead of \<^verbatim>\<open>float64\<close>. \<^verbatim>\<open>ToLower\<close>, \<^verbatim>\<open>TrimSpace\<close> and \<^verbatim>\<open>EqualFold\<close> act on ASCII. Clock readings that become timestamps are taken to lie
  in the years 0 to 9999 where a listing is stated by time. A handler runs to its end in \<open>runs\<close>; \<^verbatim>\<open>Interleaving\<close> and \<^verbatim>\<open>Cached_Components\<close> cover concurrency at
  the granularity of store operations and of cache steps. The prose of error messages and log records other than the request log are left out.

  \<^bold>\<open>Not modelled.\<close> Listening sockets, the metrics endpoint and \<^verbatim>\<open>prometheus\<close> registration (calls into a library), log output beside the request log, the no-op auditor and
  the nil-defaults of the handler constructors (the process never uses them), \<^verbatim>\<open>WithClock\<close> (tests only), the version string, the browser application in TypeScript, and the
  configuration, scripts and documentation around the service.
\<close>

section \<open>Properties of the whole service\<close>

text \<open>
  C1: Only an admin in a live session of the admin site changes anything. Whatever the clock, the random
  source and the database failures, if serving a request on any route but the public ones changes a table other
  than the sessions and the audit log, then the request is not a read, it carries an \<^verbatim>\<open>Origin\<close>
  or \<^verbatim>\<open>Referer\<close> that normalises to the configured admin host, and its cookie names a session
  row inside its absolute and idle lifetimes whose operator is active and has the role
  \<^verbatim>\<open>admin\<close> in the database. No escaping of the path gets around the role check.
\<close>

theorem only_admins_change_the_core:
  assumes "matches_routes match" "match r = (e, ps)" "\<not> public_endpoint e" "path_decoded r"
    and "db_ok s" "run_state (serve_http cfg match r) s = ((w, attrs), s')"
    and "core (db s') \<noteq> core (db s)"
  shows "\<not> is_read_method (Method r) \<and> parseOrigin (csrf_origin r) = Some (cfg_origin cfg) \<and>
    (\<exists>q \<in> set (sessions (db s)). \<exists>p \<in> set (operators (db s)).
       req_Cookie r SessionCookieName = Some (se_id q) \<and> in_lifetime (clock s (Suc (clock_reads s))) q \<and>
       op_id p = se_operator_id q \<and> op_status p = ''active'' \<and> op_role p = ''admin'')"
proof -
  define r0 where "r0 = r\<lparr>URLParam := ps, ctx_operator := None\<rparr>"
  define h where "h = api_handler cfg e"
  define s0 where "s0 = s\<lparr>clock_reads := Suc (clock_reads s)\<rparr>"
  obtain s1 where run: "run_state (serve_request cfg match r) s0 = (w, s1)" "core (db s1) \<noteq> core (db s0)"
    using serve_http_run[OF assms(6)] assms(7) by (auto simp: s0_def)
  have r0: "Method r0 = Method r" "URL_Path r0 = URL_Path r" "csrf_origin r0 = csrf_origin r"
      "req_Cookie r0 SessionCookieName = req_Cookie r SessionCookieName"
    by (simp_all add: r0_def csrf_origin_def req_Cookie_def Let_def)
  have served: "serve_request cfg match r = csrf_check (cfg_origin cfg) (RequireSession (RequireRole h)) r0"
    unfolding r0_def h_def by (rule serve_gated) (use assms(2,3) in simp_all)
  have origin: "same_origin (cfg_origin cfg) r0"
    using run unfolding served by (auto simp: run_csrf_check split: if_splits)
  then have "core_db (snd (run_state (RequireSession (RequireRole h) r0) s0)) \<noteq> core_db s0"
    using run unfolding served by (simp add: run_csrf_check)
  from session.core_change[OF this] obtain r' s1 where adm: "admits s0 r0 r'"
    and ch: "core_db (snd (run_state (RequireRole h r') s1)) \<noteq> core_db s1" by blast
  from role.core_change[OF ch] obtain s2 where lets: "role_lets r'"
    and ch2: "core_db (snd (run_state (h r') s2)) \<noteq> core_db s2" by blast
  obtain q p where q: "q \<in> set (sessions (db s))" "p \<in> set (operators (db s))" "req_Cookie r0 SessionCookieName = Some (se_id q)"
      "in_lifetime (clock s (Suc (clock_reads s))) q" "op_id p = se_operator_id q" "op_status p = ''active''"
    and r': "r' = WithOperator r0 (context_operator p)"
    using adm by (auto simp: admits_def s0_def)
  have writes: "\<not> (endpoint_method e \<in> {None, Some ''GET''} \<or> e = E_Logout)"
    using read_endpoints[OF _ assms(3), of cfg r'] ch2 unfolding h_def by (metis keepsD)
  then have sv: "serves r e ps" using assms(1,2) by (auto simp: matches_routes_def)
  then have meth: "\<not> is_read_method (Method r)"
    using writes by (cases e) (auto simp: serves_def is_read_method_def dest!: route_methods)
  have path: "\<not> nonGETAllowListForReadonly (role_path r')"
    using logout_path[OF sv assms(4)] writes r0(2) by (auto simp: role_path_def r')
  have "may_write r'" using lets meth path r0(1) by (auto simp: role_lets_def r')
  then have "op_role p \<noteq> ''readonly''" by (simp add: may_write_def r' context_operator_def auth_role_defs)
  moreover have "operator_check p" using assms(5) q(2) by (auto simp: tables_ok_def operators_ok_def list_all_iff)
  ultimately have "op_role p = ''admin''" by (auto simp: operator_check_def operator_role_check_def)
  with origin meth q r0 show ?thesis by (auto simp: same_origin_def)
qed

definition suspend_body :: string where
  "suspend_body = json_text (Object [(''status'', Text ''suspended'')])"

definition suspend_request :: request where
  "suspend_request = sample_admin_request\<lparr>ReqBody := suspend_body\<rparr>"

lemma suspend_decoded: "decode_updateAccountRequest suspend_body = Some sample_suspend"
proof -
  have "length suspend_body = 22" by code_simp
  then have "decode_limited suspend_body = Some (Object [(''status'', Text ''suspended'')])"
    unfolding suspend_body_def by (intro decode_limited_text) (simp_all add: is_container_def maxNestingDepth_def maxBodyBytes_def del: json_text.simps)
  then show ?thesis
    by (simp add: decode_updateAccountRequest_def decode_request_def decode_struct_def field_of_def set_text_ptr_def sample_suspend_def)
qed

lemma suspend_matched:
  "first_match suspend_request = (E_Accounts_Update, \<lambda>k. if k = ''id'' then ''acc-1'' else [])" "path_decoded suspend_request"
proof -
  have "route_path suspend_request = ''/api/v1/accounts/acc-1''" "Method suspend_request = ''PATCH''"
    by (simp_all add: suspend_request_def sample_admin_request_def route_path_def)
  then show "first_match suspend_request = (E_Accounts_Update, \<lambda>k. if k = ''id'' then ''acc-1'' else [])"
    unfolding first_match_def by (auto simp: routes_def api_routes_def Let_def)
  show "path_decoded suspend_request" by (simp add: path_decoded_def suspend_request_def sample_admin_request_def)
qed

lemma sample_origin: "parseOrigin ''https://admin.example.org'' = Some (cfg_origin sample_config)"
  unfolding sample_config_def by code_simp

text \<open>The stack in front of the sample request, and the suspension behind it.\<close>

lemma sample_suspends:
  "\<exists>w attrs s'. run_state (serve_http sample_config first_match suspend_request) sample_service = ((w, attrs), s') \<and>
    Status w = 200 \<and> core (db s') \<noteq> core (db sample_service)"
proof -
  let ?r = "suspend_request\<lparr>URLParam := \<lambda>k. if k = ''id'' then ''acc-1'' else [], ctx_operator := None\<rparr>"
  let ?p = "sample_operator ''op-1'' ''root@example.org'' ''admin''" and ?q = "sample_session ''sess-1'' ''op-1''"
  let ?z = "sample_service\<lparr>clock_reads := Suc (clock_reads sample_service)\<rparr>"
  let ?s = "?z\<lparr>clock_reads := Suc (clock_reads ?z), stmts := Suc (Suc (stmts ?z))\<rparr>"
  let ?r' = "WithOperator ?r (context_operator ?p)" and ?h = "api_handler sample_config E_Accounts_Update"
  have h: "?h ?r' = Accounts_Update (Some sample_suspend) ?r'" by (simp add: suspend_request_def suspend_decoded WithOperator_def)
  obtain w s1 where run: "run_state (Accounts_Update (Some sample_suspend) ?r') ?s = (w, s1)" by fastforce
  have "requireAdmin ?r' = Inr (context_operator ?p)"
    by (simp add: requireAdmin_def context_operator_def sample_operator_def auth_role_defs)
  then have w: "Status (fst (run_state (Accounts_Update (Some sample_suspend) ?r') ?s)) = 200"
    by (auto simp: Accounts_Update_def Let_def run_GetAccount sample_rows sample_account_def sample_suspend_def status_change_def status_defs
      UpdateAccount_def run_sql_stmt update_account_def legacyAccountID_def apply_account_update_def coalesce_def account_check_def
      account_status_check_def email_check_def sql_lower_def ascii_lower_def sql_like_percent sql_like_email row_result_def scanAccount_def
      split: prod.splits)
  have served: "serve_request sample_config first_match suspend_request = admin_stack sample_config ?h ?r"
    by (simp add: serve_request_def suspend_matched endpoint_handler_def)
  have "same_origin (cfg_origin sample_config) ?r"
    using sample_origin by (simp add: same_origin_def csrf_origin_def suspend_request_def sample_admin_request_def)
  moreover have "in_lifetime (clock ?z (clock_reads ?z)) ?q"
    by (simp add: in_lifetime_def sample_session_def parse_rfc3339_def Second_def time_Sub_def minDuration_def maxDuration_def
        SessionIdleLifetime_def Hour_def Minute_def)
  moreover have "?q \<in> set (sessions (db ?z))" "?p \<in> set (operators (db ?z))" "se_id ?q \<noteq> []" "op_id ?p = se_operator_id ?q"
      "op_status ?p = ''active''" "op_role ?p = ''admin''" "req_Cookie ?r SessionCookieName = Some (se_id ?q)"
    by (simp_all add: sample_rows sample_session_def sample_operator_def req_Cookie_def SessionCookieName_def suspend_request_def sample_admin_request_def)
  ultimately obtain s' where s': "run_state (admin_stack sample_config ?h ?r) ?z = (w, s')" "core_db s' = core_db s1"
    using admin_stack_passes[where cfg = sample_config and r = ?r and s = ?z and q = ?q and p = ?p
        and h = ?h and w = w and ?s1.0 = s1] run sample_ok unfolding h by auto
  have "accounts (db s1) \<noteq> accounts (db sample_service)"
    using Accounts_Update_effect[OF run] w run
    by (auto dest!: unaudited_eqD(1) simp: sample_rows sample_account_def apply_account_update_def sample_suspend_def coalesce_def)
  with s'(2) have "core (db s') \<noteq> core (db sample_service)" by (metis core_sel(1))
  with s'(1) w run show ?thesis by (simp add: serve_http_def RequestLogger_def run_simps served)
qed

theorem only_admins_change_the_core_witness:
  "parseOrigin (csrf_origin suspend_request) = Some (cfg_origin sample_config) \<and>
   (\<exists>p \<in> set (operators sample_tables). op_status p = ''active'' \<and> op_role p = ''admin'')"
proof -
  obtain w attrs s' where run: "run_state (serve_http sample_config first_match suspend_request) sample_service = ((w, attrs), s')"
    and ch: "core (db s') \<noteq> core (db sample_service)" using sample_suspends by blast
  have "\<not> public_endpoint E_Accounts_Update" by (simp add: public_endpoint_def)
  from only_admins_change_the_core[OF first_match_routes suspend_matched(1) this suspend_matched(2) _ run ch] show ?thesis by (auto simp: sample_ok)
qed



text \<open>
  C25: A request without a readable body changes nothing. If the body holds no JSON value or is longer than a megabyte before its value
  ends, and the request is not a deletion, then serving it changes no table but the sessions and the audit log, unless it is on a public route.
\<close>

theorem malformed_body_changes_nothing:
  assumes "decode_limited (ReqBody r) = None" "match r = (e, ps)" "\<not> public_endpoint e" "endpoint_method e \<noteq> Some ''DELETE''"
    and "run_state (serve_http cfg match r) s = ((w, attrs), s')"
  shows "core (db s') = core (db s)"
proof (rule ccontr)
  assume ne: "core (db s') \<noteq> core (db s)"
  let ?r = "r\<lparr>URLParam := ps, ctx_operator := None\<rparr>" and ?h = "api_handler cfg e" and ?z = "s\<lparr>clock_reads := Suc (clock_reads s)\<rparr>"
  have served: "serve_request cfg match r = csrf_check (cfg_origin cfg) (RequireSession (RequireRole ?h)) ?r"
    using assms(2,3) by (rule serve_gated)
  obtain s1 where "run_state (serve_request cfg match r) ?z = (w, s1)" "core (db s1) \<noteq> core (db ?z)"
    using serve_http_run[OF assms(5)] ne by auto
  then have "core_db (snd (run_state (RequireSession (RequireRole ?h) ?r) ?z)) \<noteq> core_db ?z"
    unfolding served by (auto simp: run_csrf_check split: if_splits)
  from session.core_change[OF this] obtain r' s1 where "admits ?z ?r r'"
    and ch: "core_db (snd (run_state (RequireRole ?h r') s1)) \<noteq> core_db s1" by blast
  then have "ReqBody r' = ReqBody r" by (auto simp: admits_def WithOperator_def)
  moreover from role.core_change[OF ch] obtain s2 where "core_db (snd (run_state (?h r') s2)) \<noteq> core_db s2" by blast
  ultimately show False using keepsD[OF refused_bodies[OF _ assms(3,4)], of r' cfg s2] assms(1) by simp
qed

theorem malformed_body_changes_nothing_witness:
  "\<exists>w attrs s'. run_state (serve_http sample_config first_match sample_admin_request) sample_service = ((w, attrs), s') \<and>
     core (db s') = core sample_tables"
proof -
  obtain w attrs s' where run: "run_state (serve_http sample_config first_match sample_admin_request) sample_service = ((w, attrs), s')"
    by (metis prod.collapse)
  have "ReqBody sample_admin_request = []" by (simp add: sample_admin_request_def)
  moreover have "decode_limited [] = None" by (simp add: decode_limited_def parse_value.simps)
  moreover have "route_path sample_admin_request = route_path suspend_request" "Method sample_admin_request = Method suspend_request"
    by (simp_all add: suspend_request_def route_path_def)
  then have "first_match sample_admin_request = (E_Accounts_Update, \<lambda>k. if k = ''id'' then ''acc-1'' else [])"
    using suspend_matched(1) unfolding first_match_def by metis
  ultimately show ?thesis using malformed_body_changes_nothing[OF _ _ _ _ run] run by (auto simp: public_endpoint_def)
qed

text \<open>
  C7: The service never locks itself out or corrupts its tables. From a state that satisfies the schema
  (unique keys, checks, foreign keys, the protected legacy account) and has an active admin, every sequence of
  requests and reaper runs, under every clock, random source and pattern of database failures, leads to a state
  that satisfies the schema and has an active admin.
\<close>

theorem service_keeps_schema_and_admin:
  assumes "runs cfg match s s'" "db_ok s" "has_active_admin (db s)"
  shows "db_ok s' \<and> has_active_admin (db s')"
  using schema.on_tables.runs_keep[OF assms(1)] assms(2,3) by blast

text \<open>
  C13: Revocation is final, on the route subscribers use. Once a key is revoked in a service that started with an empty cache, no sequence of
  requests makes it active again or lets a new key take its value, and a request that presents it and that the router sends to the forward-auth route is never again
  answered 200 for a private component.
\<close>

theorem revocation_is_final:
  assumes "entries s0 = []" "db_ok s0" "has_active_admin (db s0)" "runs cfg match s0 s"
    and "k \<in> set (subscription_key (db s))" "k_active k = 0" "runs cfg match s s'"
    and "BasicAuth f = Some (user, k_id k)" "reads f c" "\<not> is_public (db s') c"
    and "match f = (E_Auth, ps)" "run_state (serve_http cfg match f) s' = ((w, attrs), s'')"
  shows "Status w \<noteq> 200"
proof
  assume *: "Status w = 200"
  have "cache_ok s0" using assms(1) by (simp add: cache_ok_def coherent_def)
  then have "cache_ok s'" using cached.runs_keep[OF assms(4)] cached.runs_keep[OF assms(7)] by blast
  from auth_route_sound[OF this assms(11,12) *] have "may_read (db s') f" .
  moreover have "reads f c' \<Longrightarrow> c' = c" for c' using assms(9) by (simp add: reads_def)
  ultimately have "entitled (db s') (k_id k) c"
    using assms(8,10) by (auto simp: may_read_def presents_def)
  moreover have "revoked (k_id k) (db s')"
    using revocation.ops.on_tables.runs_keep[OF assms(7), of "k_id k"] assms(5,6) by (auto simp: revoked_def)
  moreover have "distinct (map k_id (subscription_key (db s')))"
    using schema.on_tables.runs_keep[OF assms(4)] schema.on_tables.runs_keep[OF assms(7)] assms(2,3)
    by (auto simp: tables_ok_def keys_ok_def)
  ultimately show False
    unfolding entitled_def revoked_def by (metis distinct_map_unique one_neq_zero)
qed

text \<open>
  C26: The public routes administer nothing. A request on the health, forward-auth, login or callback route, for the admin application
  or for a path without a route leaves the accounts, the components, the operators with their roles and statuses, and the keys up to their usage
  counters exactly as they were.
\<close>

theorem public_routes_administer_nothing:
  assumes "match r = (e, ps)" "public_endpoint e" "run_state (serve_http cfg match r) s = ((w, attrs), s')"
  shows "administered (db s') = administered (db s)"
  using assms(1) serve_http_run[OF assms(3)] keeps_run[OF administered_public_endpoint[OF assms(2)]]
  by (fastforce simp: serve_request_def)


section \<open>Instances\<close>

theorem public_routes_administer_nothing_witness:
  "\<exists>w attrs s'. run_state (serve_http sample_config first_match sample_read) sample_service = ((w, attrs), s') \<and>
     administered (db s') = administered sample_tables"
proof -
  obtain w attrs s' where run: "run_state (serve_http sample_config first_match sample_read) sample_service = ((w, attrs), s')"
    by (metis prod.collapse)
  from public_routes_administer_nothing[OF sample_auth_matched _ run] run show ?thesis by (simp add: public_endpoint_def)
qed

theorem service_keeps_schema_and_admin_witness:
  "\<exists>s' :: service. core (db s') \<noteq> core (db sample_service) \<and> db_ok s' \<and> has_active_admin (db s')"
proof -
  obtain w attrs s' where run: "run_state (serve_http sample_config first_match suspend_request) sample_service = ((w, attrs), s')"
    and ch: "core (db s') \<noteq> core (db sample_service)" using sample_suspends by blast
  have "has_active_admin sample_tables" by (simp add: has_active_admin_def sample_rows sample_operator_def is_active_admin_def)
  with service_keeps_schema_and_admin[OF runs_request[OF runs_start run]] ch sample_ok show ?thesis by auto
qed

definition sample_revoked :: service where
  "sample_revoked = sample_service\<lparr>db := sample_tables\<lparr>subscription_key := [(sample_key_row sample_key ''acc-1'')\<lparr>k_active := 0\<rparr>]\<rparr>\<rparr>"

theorem revocation_is_final_witness:
  "Status (fst (fst (run_state (serve_http sample_config first_match sample_read) sample_revoked))) \<noteq> 200"
proof (rule revocation_is_final[where c = "''core''" and k = "(sample_key_row sample_key ''acc-1'')\<lparr>k_active := 0\<rparr>" and user = "''subscriber''"])
  show "runs sample_config first_match sample_revoked sample_revoked" by (rule runs_start)
  show "runs sample_config first_match sample_revoked sample_revoked" by (rule runs_start)
  show "db_ok sample_revoked"
    using sample_ok by (simp add: sample_revoked_def tables_ok_def keys_ok_def key_ok_def sample_rows sample_key_row_def)
  show "has_active_admin (db sample_revoked)"
    by (simp add: sample_revoked_def has_active_admin_def sample_rows sample_operator_def is_active_admin_def)
  show "\<not> is_public (db sample_revoked) ''core''" by (simp add: sample_revoked_def is_public_def sample_rows sample_component_def)
  show "run_state (serve_http sample_config first_match sample_read) sample_revoked =
      ((fst (fst (run_state (serve_http sample_config first_match sample_read) sample_revoked)),
        snd (fst (run_state (serve_http sample_config first_match sample_read) sample_revoked))),
       snd (run_state (serve_http sample_config first_match sample_read) sample_revoked))" by simp
qed (simp_all add: sample_revoked_def sample_read_def sample_key_row_def sample_auth_matched[unfolded sample_read_def] sample_reads[unfolded sample_read_def])

text \<open>The file of the migration sample, opened and served with the sample environment.\<close>

definition sample_booting :: service where
  "sample_booting = sample_service\<lparr>db := loaded (disk (snd (run_state NewSQLiteStore (sample_migrating\<lparr>fault := \<lambda>_. None\<rparr>))))\<rparr>"


end
